(* ===== verification/Anchoring_Prelude.thy ===== *)
theory Anchoring_Prelude
  imports Main "HOL-Library.Word"
begin

text \<open>
  What every component of the model shares: the machine integers of the Rust code, the
  outcome of a fallible Rust computation (a value, an error value, or a panic), checked
  arithmetic, slices, and the generic lemmas on them. Rust's debug and release builds differ in
  arithmetic overflow and in \<open>debug_assert!\<close>, so the functions on integers take the build mode
  \<open>dbg\<close>: with \<open>dbg\<close> an overflow panics, without it the value wraps around.
\<close>

named_theorems outcome_simps \<open>how outcomes compose\<close>
named_theorems outcome_elims \<open>what a successful composite outcome came from\<close>

section \<open>Machine integers and byte strings\<close>

type_synonym u8 = "8 word"
type_synonym u16 = "16 word"
type_synonym u32 = "32 word"
type_synonym u64 = "64 word"
type_synonym bytes = "u8 list"

lemma unat_less_2p: "unat (w :: 'n::len word) < 2 ^ LENGTH('n)"
  by (rule unsigned_less)

section \<open>Outcomes: values, errors and panics\<close>

text \<open>
  Why the code panics: the \<open>unwrap\<close> or \<open>expect\<close> of an absent value, an index or a slice range
  out of bounds, a copy between slices of different lengths, an overflow in a debug build, a
  division by zero, or a failed assertion.
\<close>

datatype panic =
    Unwrap_None
  | Expect_None string
  | Index_Out_Of_Bounds
  | Slice_Out_Of_Range
  | Slice_Length_Mismatch
  | Arithmetic_Overflow
  | Division_By_Zero
  | Assertion_Failed string

datatype ('a, 'e) outcome = Ok 'a | Err 'e | Panic panic

primrec bind_oc :: "('a, 'e) outcome \<Rightarrow> ('a \<Rightarrow> ('b, 'e) outcome) \<Rightarrow> ('b, 'e) outcome" where
  "bind_oc (Ok x) f = f x"
| "bind_oc (Err e) f = Err e"
| "bind_oc (Panic p) f = Panic p"

primrec map_err :: "('e \<Rightarrow> 'f) \<Rightarrow> ('a, 'e) outcome \<Rightarrow> ('a, 'f) outcome" where
  "map_err f (Ok x) = Ok x"
| "map_err f (Err e) = Err (f e)"
| "map_err f (Panic p) = Panic p"

primrec map_ok :: "('a \<Rightarrow> 'b) \<Rightarrow> ('a, 'e) outcome \<Rightarrow> ('b, 'e) outcome" where
  "map_ok f (Ok x) = Ok (f x)"
| "map_ok f (Err e) = Err e"
| "map_ok f (Panic p) = Panic p"

primrec ok_or :: "'e \<Rightarrow> 'a option \<Rightarrow> ('a, 'e) outcome" where
  "ok_or e None = Err e"
| "ok_or e (Some x) = Ok x"

primrec unwrap_or_panic :: "panic \<Rightarrow> 'a option \<Rightarrow> ('a, 'e) outcome" where
  "unwrap_or_panic p None = Panic p"
| "unwrap_or_panic p (Some x) = Ok x"

text \<open>The \<open>Result\<close> that a function of another crate returned.\<close>

primrec of_sum :: "'e + 'a \<Rightarrow> ('a, 'e) outcome" where
  "of_sum (Inl e) = Err e"
| "of_sum (Inr x) = Ok x"

text \<open>\<open>Result::unwrap\<close>: an error value becomes a panic.\<close>

primrec unwrap_result :: "('a, 'f) outcome \<Rightarrow> ('a, 'e) outcome" where
  "unwrap_result (Ok x) = Ok x"
| "unwrap_result (Err e) = Panic Unwrap_None"
| "unwrap_result (Panic p) = Panic p"

primrec is_ok :: "('a, 'e) outcome \<Rightarrow> bool" where
  "is_ok (Ok x) = True"
| "is_ok (Err e) = False"
| "is_ok (Panic p) = False"

lemma bind_oc_Ok_iff [outcome_simps]:
  "bind_oc m f = Ok y \<longleftrightarrow> (\<exists>x. m = Ok x \<and> f x = Ok y)"
  by (cases m) auto

lemma bind_oc_Err_iff [outcome_simps]:
  "bind_oc m f = Err e \<longleftrightarrow> m = Err e \<or> (\<exists>x. m = Ok x \<and> f x = Err e)"
  by (cases m) auto

lemma bind_oc_Panic_iff [outcome_simps]:
  "bind_oc m f = Panic p \<longleftrightarrow> m = Panic p \<or> (\<exists>x. m = Ok x \<and> f x = Panic p)"
  by (cases m) auto

lemma map_err_Ok_iff [outcome_simps]: "map_err f m = Ok x \<longleftrightarrow> m = Ok x"
  by (cases m) auto

lemma map_err_Err_iff [outcome_simps]: "map_err f m = Err e \<longleftrightarrow> (\<exists>d. m = Err d \<and> f d = e)"
  by (cases m) auto

lemma map_err_Panic_iff [outcome_simps]: "map_err f m = Panic p \<longleftrightarrow> m = Panic p"
  by (cases m) auto

lemma map_ok_Ok_iff [outcome_simps]: "map_ok f m = Ok y \<longleftrightarrow> (\<exists>x. m = Ok x \<and> f x = y)"
  by (cases m) auto

lemma ok_or_Ok_iff [outcome_simps]: "ok_or e x = Ok y \<longleftrightarrow> x = Some y"
  by (cases x) auto

lemma unwrap_or_panic_Ok_iff [outcome_simps]: "unwrap_or_panic p x = Ok y \<longleftrightarrow> x = Some y"
  by (cases x) auto

lemma unwrap_or_panic_not_Err [simp]: "unwrap_or_panic p x \<noteq> Err e"
  by (cases x) auto

lemma ok_or_not_Panic [simp]: "ok_or e x \<noteq> Panic p"
  by (cases x) auto

lemma of_sum_Ok_iff [outcome_simps]: "of_sum s = Ok x \<longleftrightarrow> s = Inr x"
  by (cases s) auto

lemma of_sum_not_Panic [simp]: "of_sum s \<noteq> Panic p"
  by (cases s) auto

lemma unwrap_result_Ok_iff [outcome_simps]: "unwrap_result m = Ok x \<longleftrightarrow> m = Ok x"
  by (cases m) auto

lemma unwrap_result_not_Err [simp]: "unwrap_result m \<noteq> Err e"
  by (cases m) auto

text \<open>\<open>iter().map(f).collect()\<close>: the results in order, up to the first that is not a value.\<close>

fun collect_oc :: "('a \<Rightarrow> ('b, 'e) outcome) \<Rightarrow> 'a list \<Rightarrow> ('b list, 'e) outcome" where
  "collect_oc f [] = Ok []"
| "collect_oc f (x # xs) = bind_oc (f x) (\<lambda>y. bind_oc (collect_oc f xs) (\<lambda>ys. Ok (y # ys)))"

lemma collect_oc_Ok: "\<forall>x \<in> set xs. f x = Ok (g x) \<Longrightarrow> collect_oc f xs = Ok (map g xs)"
  by (induction xs) simp_all

text \<open>\<open>assert!\<close> and \<open>assert_eq!\<close>.\<close>

definition assert_that :: "bool \<Rightarrow> (unit, 'e) outcome" where
  "assert_that b = (if b then Ok () else Panic (Assertion_Failed []))"

lemma assert_that_simps [simp]: "assert_that True = Ok ()" "assert_that b = Ok () \<longleftrightarrow> b"
  by (simp_all add: assert_that_def)

section \<open>Rust arithmetic on 64-bit integers\<close>

definition add_u64 :: "bool \<Rightarrow> u64 \<Rightarrow> u64 \<Rightarrow> (u64, 'e) outcome" where
  "add_u64 dbg a b =
     (if dbg \<and> 2 ^ 64 \<le> unat a + unat b then Panic Arithmetic_Overflow else Ok (a + b))"

definition sub_u64 :: "bool \<Rightarrow> u64 \<Rightarrow> u64 \<Rightarrow> (u64, 'e) outcome" where
  "sub_u64 dbg a b = (if dbg \<and> a < b then Panic Arithmetic_Overflow else Ok (a - b))"

definition mul_u64 :: "bool \<Rightarrow> u64 \<Rightarrow> u64 \<Rightarrow> (u64, 'e) outcome" where
  "mul_u64 dbg a b =
     (if dbg \<and> 2 ^ 64 \<le> unat a * unat b then Panic Arithmetic_Overflow else Ok (a * b))"

text \<open>The remainder panics on a zero divisor in either build.\<close>

definition rem_u64 :: "u64 \<Rightarrow> u64 \<Rightarrow> (u64, 'e) outcome" where
  "rem_u64 a b = (if b = 0 then Panic Division_By_Zero else Ok (a mod b))"

lemma add_u64_exact:
  assumes "unat a + unat b < 2 ^ 64"
  shows "add_u64 dbg a b = Ok (a + b)" "unat (a + b) = unat a + unat b"
  using assms by (simp_all add: add_u64_def unat_word_ariths)

lemma mul_u64_exact:
  assumes "unat a * unat b < 2 ^ 64"
  shows "mul_u64 dbg a b = Ok (a * b)" "unat (a * b) = unat a * unat b"
  using assms by (simp_all add: mul_u64_def unat_word_ariths)

lemma sub_u64_exact:
  assumes "b \<le> a"
  shows "sub_u64 dbg a b = Ok (a - b)" "unat (a - b) = unat a - unat b"
  using assms by (simp_all add: sub_u64_def unat_sub not_less)

lemma arith_u64_not_Err [simp]:
  "add_u64 dbg a b \<noteq> Err e" "sub_u64 dbg a b \<noteq> Err e" "mul_u64 dbg a b \<noteq> Err e"
  "rem_u64 a b \<noteq> Err e"
  by (simp_all add: add_u64_def sub_u64_def mul_u64_def rem_u64_def)

section \<open>Indexing and slices\<close>

text \<open>\<open>Vec::get\<close>, \<open>slice::get\<close>: an optional element.\<close>

definition get_nth :: "'a list \<Rightarrow> nat \<Rightarrow> 'a option" where
  "get_nth xs i = (if i < length xs then Some (xs ! i) else None)"

text \<open>\<open>xs[i]\<close>, \<open>&xs[a..b]\<close>, \<open>&xs[a..]\<close>.\<close>

definition index_at :: "'a list \<Rightarrow> nat \<Rightarrow> ('a, 'e) outcome" where
  "index_at xs i = unwrap_or_panic Index_Out_Of_Bounds (get_nth xs i)"

definition subslice :: "'a list \<Rightarrow> nat \<Rightarrow> nat \<Rightarrow> ('a list, 'e) outcome" where
  "subslice xs a b =
     (if a \<le> b \<and> b \<le> length xs then Ok (take (b - a) (drop a xs)) else Panic Slice_Out_Of_Range)"

definition slice_from :: "'a list \<Rightarrow> nat \<Rightarrow> ('a list, 'e) outcome" where
  "slice_from xs a = subslice xs a (length xs)"

text \<open>\<open>xs[i] = v\<close> and \<open>xs[a..b].copy_from_slice(src)\<close> on a mutable slice.\<close>

definition store_at :: "'a list \<Rightarrow> nat \<Rightarrow> 'a \<Rightarrow> ('a list, 'e) outcome" where
  "store_at xs i v = (if i < length xs then Ok (xs[i := v]) else Panic Index_Out_Of_Bounds)"

definition copy_into :: "'a list \<Rightarrow> nat \<Rightarrow> nat \<Rightarrow> 'a list \<Rightarrow> ('a list, 'e) outcome" where
  "copy_into xs a b src =
     (if \<not> (a \<le> b \<and> b \<le> length xs) then Panic Slice_Out_Of_Range
      else if length src \<noteq> b - a then Panic Slice_Length_Mismatch
      else Ok (take a xs @ src @ drop b xs))"

text \<open>The element that an iterator's \<open>enumerate().find(..)\<close> yields: the first that satisfies P.\<close>

fun find_index_from :: "nat \<Rightarrow> ('a \<Rightarrow> bool) \<Rightarrow> 'a list \<Rightarrow> (nat \<times> 'a) option" where
  "find_index_from n P [] = None"
| "find_index_from n P (x # xs) = (if P x then Some (n, x) else find_index_from (Suc n) P xs)"

lemma get_nth_simps [simp]:
  "get_nth [] i = None" "get_nth (x # xs) 0 = Some x"
  "get_nth (x # xs) (Suc i) = get_nth xs i"
  by (simp_all add: get_nth_def)

lemma get_nth_eq_Some_iff: "get_nth xs i = Some x \<longleftrightarrow> i < length xs \<and> xs ! i = x"
  by (auto simp: get_nth_def)

lemma slice_from_eq:
  "slice_from xs a = (if a \<le> length xs then Ok (drop a xs) else Panic Slice_Out_Of_Range)"
  by (simp add: slice_from_def subslice_def)

lemma slice_append_left [simp]: "length xs = n \<Longrightarrow> subslice (xs @ ys) 0 n = Ok xs"
  by (simp add: subslice_def)

lemma slice_not_Err [simp]: "subslice xs a b \<noteq> Err e" "slice_from xs a \<noteq> Err e"
  by (simp_all add: slice_from_def subslice_def)

lemma find_index_from_Some_iff:
  "find_index_from n P xs = Some (m, x) \<longleftrightarrow>
     (\<exists>i. m = n + i \<and> i < length xs \<and> xs ! i = x \<and> P x \<and> (\<forall>j<i. \<not> P (xs ! j)))"
proof (induction xs arbitrary: n)
  case Nil
  then show ?case by simp
next
  case (Cons y ys)
  show ?case
  proof (cases "P y")
    case True
    then show ?thesis
      by (auto simp: nth_Cons' split: if_splits)
  next
    case False
    have "find_index_from n P (y # ys) = Some (m, x) \<longleftrightarrow>
        (\<exists>i. m = Suc n + i \<and> i < length ys \<and> ys ! i = x \<and> P x \<and> (\<forall>j<i. \<not> P (ys ! j)))"
      using False Cons.IH by simp
    also have "\<dots> \<longleftrightarrow> (\<exists>i. m = n + i \<and> i < length (y # ys) \<and> (y # ys) ! i = x \<and> P x \<and>
        (\<forall>j<i. \<not> P ((y # ys) ! j)))" (is "_ \<longleftrightarrow> (\<exists>i. ?Q i)")
    proof
      assume "\<exists>i. m = Suc n + i \<and> i < length ys \<and> ys ! i = x \<and> P x \<and> (\<forall>j<i. \<not> P (ys ! j))"
      then obtain i where "m = Suc n + i \<and> i < length ys \<and> ys ! i = x \<and> P x \<and> (\<forall>j<i. \<not> P (ys ! j))"
        by blast
      with False have "?Q (Suc i)" by (auto simp: less_Suc_eq_0_disj)
      then show "\<exists>i. ?Q i" by blast
    next
      assume "\<exists>i. ?Q i"
      then obtain i where i: "?Q i" by blast
      with False obtain k where "i = Suc k" by (cases i) auto
      with i have "m = Suc n + k \<and> k < length ys \<and> ys ! k = x \<and> P x \<and> (\<forall>j<k. \<not> P (ys ! j))"
        by auto
      then show "\<exists>i. m = Suc n + i \<and> i < length ys \<and> ys ! i = x \<and> P x \<and> (\<forall>j<i. \<not> P (ys ! j))"
        by blast
    qed
    finally show ?thesis .
  qed
qed

lemma find_index_from_None_iff: "find_index_from n P xs = None \<longleftrightarrow> (\<forall>x \<in> set xs. \<not> P x)"
  by (induction xs arbitrary: n) auto

section \<open>Round trips and exact codecs\<close>

text \<open>
  The contract of a writer and a reader. A \<open>roundtrip\<close> reads back what was written; a \<open>codec\<close>
  also reads nothing else, so the reader accepts exactly the written forms.
\<close>

locale roundtrip =
  fixes encode :: "'a \<Rightarrow> 'b" and decode :: "'b \<Rightarrow> 'a option"
  assumes decode_encode: "decode (encode x) = Some x"
begin

lemma encode_inject: "encode x = encode y \<longleftrightarrow> x = y"
  by (metis decode_encode option.inject)

end

locale codec = roundtrip +
  assumes decode_exact: "decode y = Some x \<Longrightarrow> y = encode x"
begin

lemma decode_eq_Some_iff: "decode y = Some x \<longleftrightarrow> y = encode x"
  using decode_encode decode_exact by blast

lemma decode_eq_None_iff: "decode y = None \<longleftrightarrow> y \<notin> range encode"
  by (metis decode_encode decode_exact not_Some_eq rangeE range_eqI)

end

section \<open>State machines\<close>

text \<open>
  The contract of a state machine with an invariant: every initial state satisfies it and every
  step keeps it. Then every reachable state satisfies it, and what a step from such a state only
  lets grow along a preorder grows along every execution.
\<close>

locale state_machine =
  fixes init :: "'s \<Rightarrow> bool" and step :: "'s \<Rightarrow> 's \<Rightarrow> bool" and inv :: "'s \<Rightarrow> bool"
  assumes init_inv: "init s \<Longrightarrow> inv s"
    and step_inv: "step s t \<Longrightarrow> inv s \<Longrightarrow> inv t"
begin

lemma steps_inv: "step\<^sup>*\<^sup>* s t \<Longrightarrow> inv s \<Longrightarrow> inv t"
  by (induction rule: rtranclp_induct) (auto intro: step_inv)

lemma reachable_inv: "init s \<Longrightarrow> step\<^sup>*\<^sup>* s t \<Longrightarrow> inv t"
  by (blast intro: init_inv steps_inv)

lemma steps_grow:
  assumes "step\<^sup>*\<^sup>* s t" "inv s" and "\<And>s. le s s" "\<And>s t u. le s t \<Longrightarrow> le t u \<Longrightarrow> le s u"
    and "\<And>s t. inv s \<Longrightarrow> step s t \<Longrightarrow> le s t"
  shows "le s t"
  using assms(1)
proof (induction rule: rtranclp_induct)
  case base
  show ?case by (rule assms(3))
next
  case (step t u)
  have "inv t" using step.hyps(1) assms(2) by (rule steps_inv)
  then show ?case using step assms(4,5) by blast
qed

end

end
