(* ===== verification/Externals.thy ===== *)
theory Externals
  imports Anchoring_Prelude
begin

text \<open>
  The boundary of the model. The service is built on crates that are not part of the
  repository: \<open>bitcoin\<close> and \<open>bitcoin_hashes\<close>, \<open>btc_transaction_utils\<close>, \<open>byteorder\<close>, and the
  \<open>exonum\<close> crates. Their functions are the fields of the record \<open>env\<close>, which every definition
  that calls them takes as an argument \<open>E\<close>; nothing is said here about how they compute. What
  the code relies on is stated as named predicates on \<open>E\<close> (the laws at the end of this theory),
  each a documented behaviour of the crate; the theorems that need one have it as a hypothesis.

  The data that crosses the boundary is kept as the code builds it: the structs of
  \<open>bitcoin::blockdata::transaction\<close> are the records the struct literals of
  \<open>src/btc/transaction.rs\<close> fill in. Hashes are the 32-byte arrays they wrap, written as 256-bit
  words. Keys are opaque tokens: the code compares, orders and passes them on, and nothing else.
\<close>

section \<open>Data of the crates\<close>

datatype hash = Hash "256 word"
datatype sha256d = Sha256d "256 word"

type_synonym script = bytes

datatype service_key = Service_Key nat
datatype btc_public_key = Btc_Public_Key nat
datatype btc_private_key = Btc_Private_Key nat
datatype input_signature = Input_Signature bytes
datatype redeem_script = Redeem_Script bytes
datatype address = Address bytes
datatype network = Bitcoin | Testnet | Regtest

datatype opcode = OP_RETURN | Opcode_Other u8

text \<open>The items of a script's instruction iterator, as the code tells them apart.\<close>

datatype instruction = Push_Bytes bytes | Instr_Op opcode | Instr_Other

record out_point =
  op_txid :: sha256d
  op_vout :: u32

record tx_in =
  previous_output :: out_point
  script_sig :: script
  sequence :: u32
  witness :: "bytes list"

record tx_out =
  txout_value :: u64
  script_pubkey :: script

record bitcoin_tx =
  tx_version :: u32
  lock_time :: u32
  tx_input :: "tx_in list"
  tx_output :: "tx_out list"

datatype redeem_script_error = NotEnoughPublicKeys | Redeem_Script_Other
datatype lib_error = Lib_Error string

text \<open>
  The Bitcoin keys are the keys of a \<open>BTreeMap\<close>, so they are ordered; a token's number is its
  rank in the crate's order.
\<close>

instantiation btc_public_key :: linorder
begin

fun less_eq_btc_public_key :: "btc_public_key \<Rightarrow> btc_public_key \<Rightarrow> bool" where
  "less_eq_btc_public_key (Btc_Public_Key m) (Btc_Public_Key n) = (m \<le> n)"

fun less_btc_public_key :: "btc_public_key \<Rightarrow> btc_public_key \<Rightarrow> bool" where
  "less_btc_public_key (Btc_Public_Key m) (Btc_Public_Key n) = (m < n)"

instance
proof
  fix x y z :: btc_public_key
  show "x < y \<longleftrightarrow> x \<le> y \<and> \<not> y \<le> x" by (cases x; cases y) auto
  show "x \<le> x" by (cases x) simp
  show "x \<le> y \<Longrightarrow> y \<le> z \<Longrightarrow> x \<le> z" by (cases x; cases y; cases z) simp
  show "x \<le> y \<Longrightarrow> y \<le> x \<Longrightarrow> x = y" by (cases x; cases y) simp
  show "x \<le> y \<or> y \<le> x" by (cases x; cases y) auto
qed

end

section \<open>Functions of the crates\<close>

text \<open>
  \<^item> \<open>debug_build\<close>: the build profile, which decides overflow checks and debug assertions;
  \<^item> \<open>le_write_u64\<close> and its kin: \<open>byteorder::LittleEndian\<close>;
  \<^item> \<open>hash_from_slice\<close>, \<open>hash_as_ref\<close>: \<open>exonum::crypto::Hash\<close>;
    \<open>sha256d_hash_from_slice\<close>, \<open>sha256d_bytes\<close>: \<open>bitcoin_hashes::sha256d::Hash\<close>;
  \<^item> \<open>op_return_script b\<close>: \<open>Builder::new().push_opcode(OP_RETURN).push_slice(b).into_script()\<close>,
    \<open>script_iter\<close>: \<open>Script::iter(true)\<close>;
  \<^item> \<open>txid_of\<close>, \<open>consensus_serialize\<close>: the id and the consensus encoding of a transaction;
  \<^item> \<open>redeem_to_script keys q\<close>:
    \<open>RedeemScriptBuilder::with_public_keys(keys).quorum(q).to_script()\<close>,
    \<open>redeem_quorum\<close>: \<open>RedeemScript::content().quorum\<close>,
    \<open>to_v0_p2wsh\<close>, \<open>p2wsh_address\<close>: the output script and the address of a redeem script;
  \<^item> \<open>verify_input\<close>, \<open>sign_input_with\<close>, \<open>spend_input\<close>: \<open>p2wsh::InputSigner\<close> for a redeem script,
    where \<open>TxInRef::new(tx, i)\<close> is the pair of the transaction and the input's index;
  \<^item> \<open>byzantine_quorum\<close>: \<open>exonum::helpers::byzantine_quorum\<close>.
\<close>

record env =
  debug_build :: bool
  le_write_u64 :: "u64 \<Rightarrow> bytes"
  le_read_u64 :: "bytes \<Rightarrow> u64"
  le_write_u32 :: "u32 \<Rightarrow> bytes"
  le_read_u32 :: "bytes \<Rightarrow> u32"
  hash_from_slice :: "bytes \<Rightarrow> hash option"
  hash_as_ref :: "hash \<Rightarrow> bytes"
  sha256d_hash_from_slice :: "bytes \<Rightarrow> sha256d option"
  sha256d_bytes :: "sha256d \<Rightarrow> bytes"
  op_return_script :: "bytes \<Rightarrow> script"
  script_iter :: "script \<Rightarrow> instruction list"
  txid_of :: "bitcoin_tx \<Rightarrow> sha256d"
  consensus_serialize :: "bitcoin_tx \<Rightarrow> bytes"
  redeem_to_script :: "btc_public_key list \<Rightarrow> nat \<Rightarrow> redeem_script_error + redeem_script"
  redeem_quorum :: "redeem_script \<Rightarrow> nat"
  to_v0_p2wsh :: "redeem_script \<Rightarrow> script"
  p2wsh_address :: "redeem_script \<Rightarrow> network \<Rightarrow> address"
  verify_input :: "redeem_script \<Rightarrow> bitcoin_tx \<times> nat \<Rightarrow> bitcoin_tx \<Rightarrow> btc_public_key \<Rightarrow>
     input_signature \<Rightarrow> lib_error option"
  sign_input_with :: "redeem_script \<Rightarrow> bitcoin_tx \<times> nat \<Rightarrow> bitcoin_tx \<Rightarrow> btc_private_key \<Rightarrow>
     lib_error + input_signature"
  spend_input :: "redeem_script \<Rightarrow> tx_in \<Rightarrow> input_signature list \<Rightarrow> tx_in"
  byzantine_quorum :: "nat \<Rightarrow> nat"

section \<open>Documented behaviour the code relies on\<close>

text \<open>\<open>LittleEndian\<close> writes a fixed number of bytes and reads back what it wrote.\<close>

definition byteorder_laws :: "env \<Rightarrow> bool" where
  "byteorder_laws E \<longleftrightarrow>
     (\<forall>v. length (le_write_u64 E v) = 8 \<and> le_read_u64 E (le_write_u64 E v) = v) \<and>
     (\<forall>b. length b = 8 \<longrightarrow> le_write_u64 E (le_read_u64 E b) = b) \<and>
     (\<forall>v. length (le_write_u32 E v) = 4 \<and> le_read_u32 E (le_write_u32 E v) = v) \<and>
     (\<forall>b. length b = 4 \<longrightarrow> le_write_u32 E (le_read_u32 E b) = b)"

text \<open>A hash is a 32-byte array: \<open>from_slice\<close> accepts exactly the slices of 32 bytes.\<close>

definition hash_laws :: "env \<Rightarrow> bool" where
  "hash_laws E \<longleftrightarrow>
     (\<forall>h. length (hash_as_ref E h) = 32 \<and> hash_from_slice E (hash_as_ref E h) = Some h) \<and>
     (\<forall>b. (length b = 32 \<longrightarrow> (\<exists>h. hash_from_slice E b = Some h \<and> hash_as_ref E h = b)) \<and>
          (length b \<noteq> 32 \<longrightarrow> hash_from_slice E b = None)) \<and>
     (\<forall>h. length (sha256d_bytes E h) = 32 \<and> sha256d_hash_from_slice E (sha256d_bytes E h) = Some h) \<and>
     (\<forall>b. (length b = 32 \<longrightarrow> (\<exists>h. sha256d_hash_from_slice E b = Some h \<and> sha256d_bytes E h = b)) \<and>
          (length b \<noteq> 32 \<longrightarrow> sha256d_hash_from_slice E b = None))"

text \<open>
  A data push of two to 520 bytes that the script builder wrote is minimal, so the iterator
  yields it back as it was pushed.
\<close>

definition script_laws :: "env \<Rightarrow> bool" where
  "script_laws E \<longleftrightarrow>
     (\<forall>b. 2 \<le> length b \<and> length b \<le> 520 \<longrightarrow>
        script_iter E (op_return_script E b) = [Instr_Op OP_RETURN, Push_Bytes b])"

text \<open>The segregated witness is not part of the data a transaction id commits to.\<close>

definition strip_witness :: "bitcoin_tx \<Rightarrow> bitcoin_tx" where
  "strip_witness t = t\<lparr>tx_input := map (\<lambda>i. i\<lparr>witness := []\<rparr>) (tx_input t)\<rparr>"

definition segwit_laws :: "env \<Rightarrow> bool" where
  "segwit_laws E \<longleftrightarrow>
     (\<forall>t u. strip_witness t = strip_witness u \<longrightarrow> txid_of E t = txid_of E u) \<and>
     (\<forall>rs i sigs. (spend_input E rs i sigs)\<lparr>witness := []\<rparr> = i\<lparr>witness := []\<rparr>)"

text \<open>An address encodes the output script; a redeem script keeps the quorum it was built for.\<close>

definition p2wsh_laws :: "env \<Rightarrow> bool" where
  "p2wsh_laws E \<longleftrightarrow>
     (\<forall>r s m n. p2wsh_address E r m = p2wsh_address E s n \<longrightarrow> to_v0_p2wsh E r = to_v0_p2wsh E s) \<and>
     (\<forall>ks q r. redeem_to_script E ks q = Inr r \<longrightarrow> redeem_quorum E r = q)"

text \<open>The Byzantine quorum is more than two thirds of the nodes.\<close>

definition quorum_laws :: "env \<Rightarrow> bool" where
  "quorum_laws E \<longleftrightarrow> (\<forall>n. byzantine_quorum E n = n * 2 div 3 + 1)"

definition crate_laws :: "env \<Rightarrow> bool" where
  "crate_laws E \<longleftrightarrow> byteorder_laws E \<and> hash_laws E \<and> script_laws E \<and> segwit_laws E \<and>
     p2wsh_laws E \<and> quorum_laws E"

text \<open>The boundary as an interface: the components prove their contracts on top of it.\<close>

locale crates =
  fixes E :: env
  assumes laws: "crate_laws E"
begin

lemma each_law:
  "byteorder_laws E" "hash_laws E" "script_laws E" "segwit_laws E" "p2wsh_laws E" "quorum_laws E"
  using laws by (simp_all add: crate_laws_def)

end

lemma byteorder_lawsD:
  assumes "byteorder_laws E"
  shows "length (le_write_u64 E v) = 8" "le_read_u64 E (le_write_u64 E v) = v"
    "length (le_write_u32 E w) = 4" "le_read_u32 E (le_write_u32 E w) = w"
    "length b = 8 \<Longrightarrow> le_write_u64 E (le_read_u64 E b) = b"
    "length b = 4 \<Longrightarrow> le_write_u32 E (le_read_u32 E b) = b"
  using assms by (auto simp: byteorder_laws_def)

lemma hash_lawsD:
  assumes "hash_laws E"
  shows "length (hash_as_ref E h) = 32" "hash_from_slice E (hash_as_ref E h) = Some h"
    "length (sha256d_bytes E d) = 32" "sha256d_hash_from_slice E (sha256d_bytes E d) = Some d"
  using assms by (auto simp: hash_laws_def)

lemma sha256d_from_slice_32:
  assumes "hash_laws E" "length b = 32"
  obtains d where "sha256d_hash_from_slice E b = Some d" "sha256d_bytes E d = b"
  using assms by (auto simp: hash_laws_def)

lemma txid_strip_witness:
  "segwit_laws E \<Longrightarrow> strip_witness t = strip_witness u \<Longrightarrow> txid_of E t = txid_of E u"
  unfolding segwit_laws_def by blast

end
