(* ===== verification/Consensus_Encoding.thy ===== *)
theory Consensus_Encoding
  imports Externals
begin

text \<open>
  The encodings with which the boundary is instantiated when the model is run on concrete data:
  little endian numbers, hexadecimal strings, and the consensus encoding of Bitcoin transactions
  with segregated witness (BIP 144). They belong to the crates \<open>byteorder\<close>, \<open>hex\<close> and \<open>bitcoin\<close>, and
  no theorem about the service depends on them; they make it possible to evaluate the model on the
  byte strings that occur in the repository, and to show that what the model assumes of these crates
  can hold. A format that can be read from the front of a byte string is a \<open>wire_format\<close>; the
  format of vectors and of transactions is put together from smaller formats.
\<close>

section \<open>Little endian numbers\<close>

primrec le_bytes :: "nat \<Rightarrow> nat \<Rightarrow> bytes" where
  "le_bytes 0 v = []"
| "le_bytes (Suc n) v = of_nat (v mod 256) # le_bytes n (v div 256)"

lemma le_bytes_numeral:
  "le_bytes (numeral k) v = of_nat (v mod 256) # le_bytes (pred_numeral k) (v div 256)"
  by (simp only: numeral_eq_Suc le_bytes.simps)

primrec le_val :: "bytes \<Rightarrow> nat" where
  "le_val [] = 0"
| "le_val (b # bs) = unat b + 256 * le_val bs"

lemma length_le_bytes [simp]: "length (le_bytes n v) = n"
  by (induction n arbitrary: v) auto

lemma unat_of_nat_mod_256: "unat (of_nat (v mod 256) :: u8) = v mod 256"
  by (simp add: unat_of_nat)

lemma le_val_le_bytes: "v < 256 ^ n \<Longrightarrow> le_val (le_bytes n v) = v"
proof (induction n arbitrary: v)
  case 0
  then show ?case by simp
next
  case (Suc n)
  then have "v div 256 < 256 ^ n"
    by (simp add: less_mult_imp_div_less mult.commute)
  then show ?case
    by (simp add: Suc.IH unat_of_nat_mod_256)
qed

lemma le_val_less: "le_val bs < 256 ^ length bs"
proof (induction bs)
  case Nil
  then show ?case by simp
next
  case (Cons b bs)
  have "unat b < 256"
    using unat_less_2p [of b] by simp
  with Cons show ?case by simp
qed

lemma le_bytes_le_val: "le_bytes (length bs) (le_val bs) = bs"
proof (induction bs)
  case Nil
  then show ?case by simp
next
  case (Cons b bs)
  have b: "unat b < 256"
    using unat_less_2p [of b] by simp
  have "(unat b + 256 * le_val bs) div 256 = le_val bs"
    using b by simp
  moreover have "(unat b + 256 * le_val bs) mod 256 = unat b"
    using b by simp
  ultimately show ?case
    using Cons.IH by simp
qed

section \<open>Hexadecimal strings\<close>

definition hex_digit :: "char \<Rightarrow> nat option" where
  "hex_digit c = (let n = of_char c in
     if 48 \<le> n \<and> n \<le> 57 then Some (n - 48)
     else if 97 \<le> n \<and> n \<le> 102 then Some (n - 87)
     else if 65 \<le> n \<and> n \<le> 70 then Some (n - 55)
     else None)"

fun decode_hex :: "string \<Rightarrow> lib_error + bytes" where
  "decode_hex [] = Inr []"
| "decode_hex [c] = Inl (Lib_Error ''Odd number of digits'')"
| "decode_hex (c # d # s) =
     (case (hex_digit c, hex_digit d) of
        (Some x, Some y) \<Rightarrow>
          (case decode_hex s of Inl e \<Rightarrow> Inl e | Inr b \<Rightarrow> Inr (of_nat (16 * x + y) # b))
      | _ \<Rightarrow> Inl (Lib_Error ''Invalid character''))"

definition digit_char :: "bool \<Rightarrow> nat \<Rightarrow> char" where
  "digit_char upper n = char_of (if n < 10 then n + 48 else if upper then n + 55 else n + 87)"

definition encode_hex :: "bool \<Rightarrow> bytes \<Rightarrow> string" where
  "encode_hex upper b = concat (map (\<lambda>x. [digit_char upper (unat x div 16), digit_char upper (unat x mod 16)]) b)"

lemma digit_chars:
  "digit_char False 0 = CHR ''0''" "digit_char False (Suc 0) = CHR ''1''" "digit_char False 2 = CHR ''2''"
  "digit_char False 3 = CHR ''3''" "digit_char False 4 = CHR ''4''" "digit_char False 5 = CHR ''5''"
  "digit_char False 6 = CHR ''6''" "digit_char False 7 = CHR ''7''" "digit_char False 8 = CHR ''8''"
  "digit_char False 9 = CHR ''9''" "digit_char False 10 = CHR ''a''" "digit_char False 11 = CHR ''b''"
  "digit_char False 12 = CHR ''c''" "digit_char False 13 = CHR ''d''" "digit_char False 14 = CHR ''e''"
  "digit_char False 15 = CHR ''f''"
  by (simp_all add: digit_char_def char_of_def bit_0)

lemma hex_digit_char: "n < 16 \<Longrightarrow> hex_digit (digit_char upper n) = Some n"
  by (auto simp: hex_digit_def digit_char_def Let_def)

lemma decode_encode_hex [simp]: "decode_hex (encode_hex upper b) = Inr b"
proof (induction b)
  case Nil
  then show ?case by (simp add: encode_hex_def)
next
  case (Cons x b)
  have "unat x < 256" using unat_less_2p [of x] by simp
  then have "unat x div 16 < 16" "unat x mod 16 < 16" by auto
  with Cons show ?case by (simp add: encode_hex_def hex_digit_char)
qed

text \<open>The bytes of a literal.\<close>

definition hex_bytes :: "string \<Rightarrow> bytes" where
  "hex_bytes s = (case decode_hex s of Inr b \<Rightarrow> b | Inl _ \<Rightarrow> [])"

section \<open>Reading from the front of a byte string\<close>

type_synonym 'a reader = "bytes \<Rightarrow> lib_error + 'a \<times> bytes"

definition then_rd :: "'a reader \<Rightarrow> ('a \<Rightarrow> 'b reader) \<Rightarrow> 'b reader" where
  "then_rd m f b = (case m b of Inl e \<Rightarrow> Inl e | Inr (x, rest) \<Rightarrow> f x rest)"

definition ret_rd :: "'a \<Rightarrow> 'a reader" where
  "ret_rd x b = Inr (x, b)"

definition fail_rd :: "string \<Rightarrow> 'a reader" where
  "fail_rd msg b = Inl (Lib_Error msg)"

definition read_exact :: "nat \<Rightarrow> bytes reader" where
  "read_exact n b = (if n \<le> length b then Inr (take n b, drop n b)
     else Inl (Lib_Error ''failed to fill whole buffer''))"

definition read_le :: "nat \<Rightarrow> nat reader" where
  "read_le n = then_rd (read_exact n) (\<lambda>b. ret_rd (le_val b))"

lemma then_rd_Inl: "m b = Inl e \<Longrightarrow> then_rd m f b = Inl e"
  by (simp add: then_rd_def)

text \<open>A number of a vector's elements has one, three, five or nine bytes, and no more than needed.\<close>

definition compact_size :: "nat \<Rightarrow> bytes" where
  "compact_size n =
     (if n < 253 then [of_nat n]
      else if n < 2 ^ 16 then 253 # le_bytes 2 n
      else if n < 2 ^ 32 then 254 # le_bytes 4 n
      else 255 # le_bytes 8 n)"

definition read_minimal :: "nat \<Rightarrow> nat \<Rightarrow> nat reader" where
  "read_minimal k least = then_rd (read_le k) (\<lambda>n.
     if n < least then fail_rd ''non-minimal varint'' else ret_rd n)"

definition read_compact :: "nat reader" where
  "read_compact = then_rd (read_le 1) (\<lambda>n.
     if n = 255 then read_minimal 8 (2 ^ 32)
     else if n = 254 then read_minimal 4 (2 ^ 16)
     else if n = 253 then read_minimal 2 253
     else ret_rd n)"

primrec read_many :: "'a reader \<Rightarrow> nat \<Rightarrow> 'a list reader" where
  "read_many r 0 = ret_rd []"
| "read_many r (Suc n) = then_rd r (\<lambda>x. then_rd (read_many r n) (\<lambda>xs. ret_rd (x # xs)))"

definition read_vec :: "'a reader \<Rightarrow> 'a list reader" where
  "read_vec r = then_rd read_compact (read_many r)"

definition write_vec :: "('a \<Rightarrow> bytes) \<Rightarrow> 'a list \<Rightarrow> bytes" where
  "write_vec w xs = compact_size (length xs) @ concat (map w xs)"

section \<open>Formats\<close>

locale wire_format =
  fixes enc :: "'a \<Rightarrow> bytes" and dec :: "'a reader" and fits :: "'a \<Rightarrow> bool"
  assumes read_back: "fits x \<Longrightarrow> dec (enc x @ rest) = Inr (x, rest)"
begin

lemma then_read [simp]: "fits x \<Longrightarrow> then_rd dec f (enc x @ rest) = f x rest"
  by (simp add: then_rd_def read_back)

lemma read_many_back:
  "list_all fits xs \<Longrightarrow> read_many dec (length xs) (concat (map enc xs) @ rest) = Inr (xs, rest)"
  by (induction xs) (simp_all add: then_rd_def ret_rd_def read_back)

end

lemma read_exact_append: "n = length b \<Longrightarrow> read_exact n (b @ rest) = Inr (b, rest)"
  by (simp add: read_exact_def)

lemma read_le_append: "n < 256 ^ k \<Longrightarrow> read_le k (le_bytes k n @ rest) = Inr (n, rest)"
  by (simp add: read_le_def then_rd_def ret_rd_def read_exact_append le_val_le_bytes)

interpretation le_number: wire_format "le_bytes k" "read_le k" "\<lambda>n. n < 256 ^ k" for k
  by unfold_locales (rule read_le_append)

lemma read_compact_append: "n < 2 ^ 64 \<Longrightarrow> read_compact (compact_size n @ rest) = Inr (n, rest)"
proof -
  assume n: "n < 2 ^ 64"
  have one: "read_le (Suc 0) (x # xs) = Inr (unat x, xs)" for x xs
    by (simp add: read_le_def read_exact_def then_rd_def ret_rd_def)
  have le: "read_minimal k m (le_bytes k n @ rest) = Inr (n, rest)" if "n < 256 ^ k" "m \<le> n" for k m
    using that by (simp add: read_minimal_def ret_rd_def)
  show ?thesis
    using n le [of 2 253] le [of 4 "2 ^ 16"] le [of 8 "2 ^ 32"]
    by (simp add: read_compact_def compact_size_def then_rd_def one ret_rd_def unat_of_nat)
qed

interpretation compact: wire_format compact_size read_compact "\<lambda>n. n < 2 ^ 64"
  by unfold_locales (rule read_compact_append)

context wire_format
begin

lemma vec_format:
  "wire_format (write_vec enc) (read_vec dec) (\<lambda>xs. length xs < 2 ^ 64 \<and> list_all fits xs)"
  by unfold_locales (simp add: read_vec_def write_vec_def read_many_back)

end

section \<open>Transactions\<close>

definition write_script :: "bytes \<Rightarrow> bytes" where
  "write_script s = compact_size (length s) @ s"

definition read_script :: "bytes reader" where
  "read_script = then_rd read_compact read_exact"

definition write_word :: "nat \<Rightarrow> 'n::len word \<Rightarrow> bytes" where
  "write_word k w = le_bytes k (unat w)"

definition read_word :: "nat \<Rightarrow> 'n::len word reader" where
  "read_word k = then_rd (read_le k) (\<lambda>n. ret_rd (of_nat n))"

definition sha256d_word :: "sha256d \<Rightarrow> 256 word" where
  "sha256d_word d = (case d of Sha256d w \<Rightarrow> w)"

definition write_tx_in :: "tx_in \<Rightarrow> bytes" where
  "write_tx_in i = write_word 32 (sha256d_word (op_txid (previous_output i))) @
     write_word 4 (op_vout (previous_output i)) @ write_script (script_sig i) @ write_word 4 (sequence i)"

definition read_tx_in :: "tx_in reader" where
  "read_tx_in =
     then_rd (read_word 32) (\<lambda>txid. then_rd (read_word 4) (\<lambda>vout.
     then_rd read_script (\<lambda>sig. then_rd (read_word 4) (\<lambda>seq.
     ret_rd \<lparr>previous_output = \<lparr>op_txid = Sha256d txid, op_vout = vout\<rparr>, script_sig = sig,
       sequence = seq, witness = []\<rparr>))))"

definition write_tx_out :: "tx_out \<Rightarrow> bytes" where
  "write_tx_out q = write_word 8 (txout_value q) @ write_script (script_pubkey q)"

definition read_tx_out :: "tx_out reader" where
  "read_tx_out = then_rd (read_word 8) (\<lambda>v. then_rd read_script (\<lambda>s.
     ret_rd \<lparr>txout_value = v, script_pubkey = s\<rparr>))"

text \<open>The witnesses follow the outputs, one vector for every input.\<close>

fun read_witnesses :: "tx_in list \<Rightarrow> tx_in list reader" where
  "read_witnesses [] = ret_rd []"
| "read_witnesses (i # is) = then_rd (read_vec read_script) (\<lambda>w.
     then_rd (read_witnesses is) (\<lambda>is. ret_rd (i\<lparr>witness := w\<rparr> # is)))"

definition has_witness :: "bitcoin_tx \<Rightarrow> bool" where
  "has_witness t \<longleftrightarrow> tx_input t = [] \<or> list_ex (\<lambda>i. witness i \<noteq> []) (tx_input t)"

definition encode_tx :: "bitcoin_tx \<Rightarrow> bytes" where
  "encode_tx t = write_word 4 (tx_version t) @
     (if has_witness t then
        [0, 1] @ write_vec write_tx_in (tx_input t) @ write_vec write_tx_out (tx_output t) @
        concat (map (\<lambda>i. write_vec write_script (witness i)) (tx_input t))
      else write_vec write_tx_in (tx_input t) @ write_vec write_tx_out (tx_output t)) @
     write_word 4 (lock_time t)"

fun decimal :: "nat \<Rightarrow> string" where
  "decimal n = (if n < 10 then [char_of (n + 48)] else decimal (n div 10) @ [char_of (n mod 10 + 48)])"

declare decimal.simps [simp del]

definition read_tx :: "bitcoin_tx reader" where
  "read_tx =
     then_rd (read_word 4) (\<lambda>version.
     then_rd (read_vec read_tx_in) (\<lambda>ins.
     if ins \<noteq> [] then
       then_rd (read_vec read_tx_out) (\<lambda>outs.
       then_rd (read_word 4) (\<lambda>lock.
       ret_rd \<lparr>tx_version = version, lock_time = lock, tx_input = ins, tx_output = outs\<rparr>))
     else
       then_rd (read_le 1) (\<lambda>flag.
       if flag \<noteq> 1 then fail_rd (''unsupported segwit version: '' @ decimal flag)
       else
         then_rd (read_vec read_tx_in) (\<lambda>ins.
         then_rd (read_vec read_tx_out) (\<lambda>outs.
         then_rd (read_witnesses ins) (\<lambda>ins.
         if ins \<noteq> [] \<and> list_all (\<lambda>i. witness i = []) ins
         then fail_rd ''witness flag set but no witnesses present''
         else
           then_rd (read_word 4) (\<lambda>lock.
           ret_rd \<lparr>tx_version = version, lock_time = lock, tx_input = ins, tx_output = outs\<rparr>)))))))"

definition decode_tx :: "bytes \<Rightarrow> lib_error + bitcoin_tx" where
  "decode_tx b =
     (case read_tx b of
        Inl e \<Rightarrow> Inl e
      | Inr (t, rest) \<Rightarrow> if rest = [] then Inr t
          else Inl (Lib_Error ''data not consumed entirely when explicitly deserializing''))"

section \<open>What is written is read back\<close>

abbreviation script_fits :: "bytes \<Rightarrow> bool" where
  "script_fits s \<equiv> length s < 2 ^ 64"

definition tx_fits :: "bitcoin_tx \<Rightarrow> bool" where
  "tx_fits t \<longleftrightarrow> length (tx_input t) < 2 ^ 64 \<and> length (tx_output t) < 2 ^ 64 \<and>
     list_all (\<lambda>i. script_fits (script_sig i) \<and> length (witness i) < 2 ^ 64 \<and>
       list_all script_fits (witness i)) (tx_input t) \<and>
     list_all (\<lambda>q. script_fits (script_pubkey q)) (tx_output t)"

interpretation word_format: wire_format "write_word k" "read_word k :: 'n::len word reader"
    "\<lambda>_. LENGTH('n) \<le> 8 * k" for k
proof
  fix x :: "'n word" and rest assume "LENGTH('n) \<le> 8 * k"
  then have "(2::nat) ^ LENGTH('n) \<le> 2 ^ (8 * k)" by (intro power_increasing) simp_all
  also have "\<dots> = 256 ^ k" by (simp add: power_mult)
  finally have "unat x < 256 ^ k" by (rule less_le_trans [OF unat_less_2p])
  then show "read_word k (write_word k x @ rest) = Inr (x, rest)"
    by (simp add: read_word_def write_word_def ret_rd_def)
qed

interpretation script_format: wire_format write_script read_script script_fits
  by unfold_locales (simp add: read_script_def write_script_def read_exact_append)

interpretation tx_in_format: wire_format write_tx_in read_tx_in
    "\<lambda>i. script_fits (script_sig i) \<and> witness i = []"
proof
  fix i :: tx_in and rest assume i: "script_fits (script_sig i) \<and> witness i = []"
  then show "read_tx_in (write_tx_in i @ rest) = Inr (i, rest)"
    by (cases i; cases "previous_output i"; cases "op_txid (previous_output i)")
      (auto simp: read_tx_in_def write_tx_in_def sha256d_word_def ret_rd_def)
qed

interpretation tx_out_format: wire_format write_tx_out read_tx_out "\<lambda>q. script_fits (script_pubkey q)"
  by unfold_locales (simp add: read_tx_out_def write_tx_out_def ret_rd_def)

interpretation script_vec: wire_format "write_vec write_script" "read_vec read_script"
    "\<lambda>xs. length xs < 2 ^ 64 \<and> list_all script_fits xs"
  by (rule script_format.vec_format)

interpretation tx_in_vec: wire_format "write_vec write_tx_in" "read_vec read_tx_in"
    "\<lambda>xs. length xs < 2 ^ 64 \<and> list_all (\<lambda>i. script_fits (script_sig i) \<and> witness i = []) xs"
  by (rule tx_in_format.vec_format)

interpretation tx_out_vec: wire_format "write_vec write_tx_out" "read_vec read_tx_out"
    "\<lambda>xs. length xs < 2 ^ 64 \<and> list_all (\<lambda>q. script_fits (script_pubkey q)) xs"
  by (rule tx_out_format.vec_format)

lemma read_witnesses_back:
  assumes "list_all (\<lambda>i. length (witness i) < 2 ^ 64 \<and> list_all script_fits (witness i)) is"
  shows "read_witnesses (map (\<lambda>i. i\<lparr>witness := []\<rparr>) is)
    (concat (map (\<lambda>i. write_vec write_script (witness i)) is) @ rest) = Inr (is, rest)"
  using assms
proof (induction "is")
  case (Cons i "is")
  then show ?case by (simp add: then_rd_def ret_rd_def script_vec.read_back)
qed (simp add: ret_rd_def)

lemma write_tx_in_witness: "write_tx_in (i\<lparr>witness := w\<rparr>) = write_tx_in i"
  by (simp add: write_tx_in_def)

lemma inputs_read_back:
  assumes "length is < 2 ^ 64" "list_all (\<lambda>i. script_fits (script_sig i)) is"
  shows "then_rd (read_vec read_tx_in) f (write_vec write_tx_in is @ rest) =
    f (map (\<lambda>i. i\<lparr>witness := []\<rparr>) is) rest"
proof -
  have "write_vec write_tx_in is = write_vec write_tx_in (map (\<lambda>i. i\<lparr>witness := []\<rparr>) is)"
    by (simp add: write_vec_def comp_def write_tx_in_witness)
  moreover have "list_all (\<lambda>i. script_fits (script_sig i) \<and> witness i = []) (map (\<lambda>i. i\<lparr>witness := []\<rparr>) is)"
    using assms(2) by (simp add: list_all_iff)
  ultimately show ?thesis
    using assms(1) tx_in_vec.then_read [of "map (\<lambda>i. i\<lparr>witness := []\<rparr>) is" f rest] by simp
qed

lemma no_inputs: "then_rd (read_vec read_tx_in) f (0 # rest) = f [] rest"
proof -
  have "read_compact (0 # rest) = Inr (0, rest)"
    using read_compact_append [of 0 rest] by (simp add: compact_size_def)
  then show ?thesis by (simp add: read_vec_def then_rd_def ret_rd_def)
qed

text \<open>What the reader does with the encoding of a transaction with witnesses, up to the witnesses.\<close>

lemma read_tx_segwit:
  assumes "length is < 2 ^ 64" "list_all (\<lambda>i. script_fits (script_sig i)) is"
    and "length os < 2 ^ 64 \<and> list_all (\<lambda>q. script_fits (script_pubkey q)) os"
  shows "read_tx (write_word 4 v @ 0 # 1 # write_vec write_tx_in is @ write_vec write_tx_out os @ rest) =
    then_rd (read_witnesses (map (\<lambda>i. i\<lparr>witness := []\<rparr>) is)) (\<lambda>ins.
      if ins \<noteq> [] \<and> list_all (\<lambda>i. witness i = []) ins
      then fail_rd ''witness flag set but no witnesses present''
      else then_rd (read_word 4) (\<lambda>lock.
        ret_rd \<lparr>tx_version = v, lock_time = lock, tx_input = ins, tx_output = os\<rparr>)) rest"
proof -
  have flag: "then_rd (read_le (Suc 0)) f (1 # rest) = f 1 rest" for f :: "nat \<Rightarrow> bitcoin_tx reader" and rest
    by (simp add: read_le_def read_exact_def then_rd_def ret_rd_def)
  show ?thesis
    by (simp add: read_tx_def no_inputs flag inputs_read_back [OF assms(1,2)] tx_out_vec.then_read [OF assms(3)])
qed

lemma read_tx_back:
  assumes "tx_fits t"
  shows "read_tx (encode_tx t @ rest) = Inr (t, rest)"
proof -
  have fits: "length (tx_input t) < 2 ^ 64" "list_all (\<lambda>i. script_fits (script_sig i)) (tx_input t)"
      "list_all (\<lambda>i. length (witness i) < 2 ^ 64 \<and> list_all script_fits (witness i)) (tx_input t)"
      "length (tx_output t) < 2 ^ 64 \<and> list_all (\<lambda>q. script_fits (script_pubkey q)) (tx_output t)"
    using assms by (auto simp: tx_fits_def list_all_iff)
  show ?thesis
  proof (cases "has_witness t")
    case True
    then have signed: "\<not> (tx_input t \<noteq> [] \<and> list_all (\<lambda>i. witness i = []) (tx_input t))"
      by (auto simp: has_witness_def list_all_iff list_ex_iff)
    have wit: "then_rd (read_witnesses (map (\<lambda>i. i\<lparr>witness := []\<rparr>) (tx_input t))) f
      (concat (map (\<lambda>i. write_vec write_script (witness i)) (tx_input t)) @ rest) = f (tx_input t) rest" for f rest
      by (simp add: then_rd_def read_witnesses_back [OF fits(3)])
    show ?thesis
      using True
      by (simp add: encode_tx_def read_tx_segwit [OF fits(1,2,4)] wit ret_rd_def if_not_P [OF signed] del: de_Morgan_conj)
  next
    case False
    then have "tx_input t \<noteq> []" "map (\<lambda>i. i\<lparr>witness := []\<rparr>) (tx_input t) = tx_input t"
      by (auto simp: has_witness_def list_ex_iff intro: map_idI)
    with False show ?thesis
      by (simp add: read_tx_def encode_tx_def inputs_read_back [OF fits(1,2)] tx_out_vec.then_read [OF fits(4)]
          ret_rd_def)
  qed
qed

interpretation tx_format: wire_format encode_tx read_tx tx_fits
  by unfold_locales (rule read_tx_back)

lemma decode_encode_tx: "tx_fits t \<Longrightarrow> decode_tx (encode_tx t) = Inr t"
  using read_tx_back [of t "[]"] by (simp add: decode_tx_def)

section \<open>Errors\<close>

lemma unknown_segwit_flag:
  assumes "unat (flag :: u8) \<noteq> 1"
  shows "decode_tx (write_word 4 (v :: u32) @ 0 # flag # rest) =
    Inl (Lib_Error (''unsupported segwit version: '' @ decimal (unat flag)))"
proof -
  have "then_rd (read_le (Suc 0)) f (flag # rest) = f (unat flag) rest" for f :: "nat \<Rightarrow> bitcoin_tx reader"
    by (simp add: read_le_def read_exact_def then_rd_def ret_rd_def)
  with assms show ?thesis by (simp add: decode_tx_def read_tx_def no_inputs fail_rd_def)
qed

lemma read_many_2: "read_many r 2 = read_many r (Suc (Suc 0))"
  by (simp only: numeral_2_eq_2)

text \<open>A transaction that ends within the second element of its witness.\<close>

lemma truncated_witness:
  assumes "script_fits (script_sig i)" "length os < 2 ^ 64 \<and> list_all (\<lambda>q. script_fits (script_pubkey q)) os"
    and "script_fits w" "length rest < n" "n < 2 ^ 64"
  shows "decode_tx (write_word 4 (v :: u32) @ 0 # 1 # write_vec write_tx_in [i] @ write_vec write_tx_out os @
      compact_size 2 @ write_script w @ compact_size n @ rest) =
    Inl (Lib_Error ''failed to fill whole buffer'')"
proof -
  have short: "read_script (compact_size n @ rest) = Inl (Lib_Error ''failed to fill whole buffer'')"
    using assms(4,5) by (simp add: read_script_def read_exact_def)
  have "read_vec read_script (compact_size 2 @ write_script w @ compact_size n @ rest) =
      Inl (Lib_Error ''failed to fill whole buffer'')"
    using assms(3) compact.then_read [of 2 "read_many read_script"] script_format.then_read [of w]
    by (simp add: read_vec_def read_many_2 then_rd_Inl short)
  then have "then_rd (read_witnesses [i\<lparr>witness := []\<rparr>]) f
      (compact_size 2 @ write_script w @ compact_size n @ rest) = Inl (Lib_Error ''failed to fill whole buffer'')" for f
    :: "tx_in list \<Rightarrow> bitcoin_tx reader"
    by (simp add: then_rd_Inl)
  then show ?thesis
    using read_tx_segwit [of "[i]" os v "compact_size 2 @ write_script w @ compact_size n @ rest"] assms(1,2)
    by (simp add: decode_tx_def)
qed

section \<open>Sizes\<close>

lemma length_compact_size:
  "length (compact_size n) = (if n < 253 then 1 else if n < 2 ^ 16 then 3 else if n < 2 ^ 32 then 5 else 9)"
  by (simp add: compact_size_def)

lemma length_write_tx_in:
  "length (write_tx_in i) = 40 + length (compact_size (length (script_sig i))) + length (script_sig i)"
  by (simp add: write_tx_in_def write_word_def write_script_def)

lemma length_write_tx_out:
  "length (write_tx_out q) = 8 + length (compact_size (length (script_pubkey q))) + length (script_pubkey q)"
  by (simp add: write_tx_out_def write_word_def write_script_def)

text \<open>The size of an unsigned transaction.\<close>

lemma length_encode_tx:
  assumes "tx_input t \<noteq> []" "list_all (\<lambda>i. witness i = []) (tx_input t)"
  shows "length (encode_tx t) = 8 +
    length (compact_size (length (tx_input t))) + sum_list (map (\<lambda>i. length (write_tx_in i)) (tx_input t)) +
    length (compact_size (length (tx_output t))) + sum_list (map (\<lambda>q. length (write_tx_out q)) (tx_output t))"
proof -
  have "\<not> has_witness t" using assms by (auto simp: has_witness_def list_all_iff list_ex_iff)
  then show ?thesis by (simp add: encode_tx_def write_word_def write_vec_def length_concat comp_def)
qed

end
