(* ===== verification/Reference_Env.thy ===== *)
theory Reference_Env
  imports Consensus_Encoding
begin

text \<open>
  One concrete environment \<open>ref_env\<close> that satisfies every law of the boundary, so that no
  hypothesis on the crates is empty and the theorems can be evaluated on concrete inputs. The
  encodings are the real ones (little endian integers, the script bytes of a data push, the
  consensus encoding of a transaction); hashing and signing are replaced by simple functions of the
  same types.
\<close>

section \<open>The environment\<close>

definition ref_op_return_script :: "bytes \<Rightarrow> script" where
  "ref_op_return_script b =
     (if length b < 76 then [0x6a, of_nat (length b)] @ b
      else if length b < 256 then [0x6a, 0x4c, of_nat (length b)] @ b
      else [0x6a, 0x4d] @ le_bytes 2 (length b) @ b)"

definition ref_script_iter :: "script \<Rightarrow> instruction list" where
  "ref_script_iter s =
     (if 2 \<le> length s \<and> s ! 0 = 0x6a then
        (if s ! 1 < 76 then [Instr_Op OP_RETURN, Push_Bytes (drop 2 s)]
         else if s ! 1 = 0x4c then [Instr_Op OP_RETURN, Push_Bytes (drop 3 s)]
         else [Instr_Op OP_RETURN, Push_Bytes (drop 4 s)])
      else [Instr_Other])"

definition ref_out_point_words :: "out_point \<Rightarrow> 256 word list" where
  "ref_out_point_words p = [case op_txid p of Sha256d w \<Rightarrow> w, ucast (op_vout p)]"

definition ref_txid :: "bitcoin_tx \<Rightarrow> sha256d" where
  "ref_txid t = Sha256d (foldl (\<lambda>a x. a * 31 + x) 7
     (concat (map (\<lambda>i. ref_out_point_words (previous_output i)) (tx_input t)) @
      concat (map (\<lambda>q. [ucast (txout_value q), of_nat (length (script_pubkey q))]) (tx_output t))))"

definition ref_key_byte :: "btc_public_key \<Rightarrow> u8" where
  "ref_key_byte k = (case k of Btc_Public_Key n \<Rightarrow> of_nat n)"

definition ref_redeem_to_script ::
  "btc_public_key list \<Rightarrow> nat \<Rightarrow> redeem_script_error + redeem_script" where
  "ref_redeem_to_script ks q =
     (if ks = [] then Inl NotEnoughPublicKeys
      else if q = 0 \<or> length ks < q \<or> 20 < q then Inl Redeem_Script_Other
      else Inr (Redeem_Script (of_nat q # map ref_key_byte ks)))"

definition ref_redeem_quorum :: "redeem_script \<Rightarrow> nat" where
  "ref_redeem_quorum r = (case r of Redeem_Script b \<Rightarrow> (case b of [] \<Rightarrow> 0 | x # _ \<Rightarrow> unat x))"

definition ref_to_v0_p2wsh :: "redeem_script \<Rightarrow> script" where
  "ref_to_v0_p2wsh r = (case r of Redeem_Script b \<Rightarrow> [0, 0x20] @ take 32 (b @ replicate 32 0))"

definition ref_network_tag :: "network \<Rightarrow> u8" where
  "ref_network_tag n = (case n of Bitcoin \<Rightarrow> 0 | Testnet \<Rightarrow> 1 | Regtest \<Rightarrow> 2)"

definition ref_address :: "redeem_script \<Rightarrow> network \<Rightarrow> address" where
  "ref_address r n = Address (ref_network_tag n # ref_to_v0_p2wsh r)"

definition ref_signature :: "nat \<Rightarrow> nat \<Rightarrow> input_signature" where
  "ref_signature k i = Input_Signature [of_nat k, of_nat i]"

definition ref_verify_input ::
  "redeem_script \<Rightarrow> bitcoin_tx \<times> nat \<Rightarrow> bitcoin_tx \<Rightarrow> btc_public_key \<Rightarrow> input_signature \<Rightarrow>
     lib_error option" where
  "ref_verify_input rs ti inp k sig =
     (case k of Btc_Public_Key n \<Rightarrow>
        if sig = ref_signature n (snd ti) then None else Some (Lib_Error ''signature''))"

definition ref_sign_input_with ::
  "redeem_script \<Rightarrow> bitcoin_tx \<times> nat \<Rightarrow> bitcoin_tx \<Rightarrow> btc_private_key \<Rightarrow>
     lib_error + input_signature" where
  "ref_sign_input_with rs ti inp k =
     (case k of Btc_Private_Key n \<Rightarrow> Inr (ref_signature n (snd ti)))"

definition ref_spend_input :: "redeem_script \<Rightarrow> tx_in \<Rightarrow> input_signature list \<Rightarrow> tx_in" where
  "ref_spend_input rs i sigs = i\<lparr>witness := map (\<lambda>g. case g of Input_Signature b \<Rightarrow> b) sigs\<rparr>"

definition ref_hash_from_slice :: "bytes \<Rightarrow> hash option" where
  "ref_hash_from_slice b = (if length b = 32 then Some (Hash (of_nat (le_val b))) else None)"

definition ref_hash_as_ref :: "hash \<Rightarrow> bytes" where
  "ref_hash_as_ref h = (case h of Hash w \<Rightarrow> le_bytes 32 (unat w))"

definition ref_sha256d_from_slice :: "bytes \<Rightarrow> sha256d option" where
  "ref_sha256d_from_slice b = (if length b = 32 then Some (Sha256d (of_nat (le_val b))) else None)"

definition ref_sha256d_bytes :: "sha256d \<Rightarrow> bytes" where
  "ref_sha256d_bytes h = (case h of Sha256d w \<Rightarrow> le_bytes 32 (unat w))"

definition ref_env :: "bool \<Rightarrow> env" where
  "ref_env dbg = \<lparr>
     debug_build = dbg,
     le_write_u64 = (\<lambda>v. le_bytes 8 (unat v)),
     le_read_u64 = (\<lambda>b. of_nat (le_val b)),
     le_write_u32 = (\<lambda>v. le_bytes 4 (unat v)),
     le_read_u32 = (\<lambda>b. of_nat (le_val b)),
     hash_from_slice = ref_hash_from_slice,
     hash_as_ref = ref_hash_as_ref,
     sha256d_hash_from_slice = ref_sha256d_from_slice,
     sha256d_bytes = ref_sha256d_bytes,
     op_return_script = ref_op_return_script,
     script_iter = ref_script_iter,
     txid_of = ref_txid,
     consensus_serialize = encode_tx,
     redeem_to_script = ref_redeem_to_script,
     redeem_quorum = ref_redeem_quorum,
     to_v0_p2wsh = ref_to_v0_p2wsh,
     p2wsh_address = ref_address,
     verify_input = ref_verify_input,
     sign_input_with = ref_sign_input_with,
     spend_input = ref_spend_input,
     byzantine_quorum = (\<lambda>n. n * 2 div 3 + 1)\<rparr>"

section \<open>It satisfies the laws\<close>

lemma ref_env_simps [simp]:
  "debug_build (ref_env dbg) = dbg"
  "le_write_u64 (ref_env dbg) = (\<lambda>v. le_bytes 8 (unat v))"
  "le_read_u64 (ref_env dbg) = (\<lambda>b. of_nat (le_val b))"
  "le_write_u32 (ref_env dbg) = (\<lambda>v. le_bytes 4 (unat v))"
  "le_read_u32 (ref_env dbg) = (\<lambda>b. of_nat (le_val b))"
  "hash_from_slice (ref_env dbg) = ref_hash_from_slice"
  "hash_as_ref (ref_env dbg) = ref_hash_as_ref"
  "sha256d_hash_from_slice (ref_env dbg) = ref_sha256d_from_slice"
  "sha256d_bytes (ref_env dbg) = ref_sha256d_bytes"
  "op_return_script (ref_env dbg) = ref_op_return_script"
  "script_iter (ref_env dbg) = ref_script_iter"
  "txid_of (ref_env dbg) = ref_txid"
  "consensus_serialize (ref_env dbg) = encode_tx"
  "redeem_to_script (ref_env dbg) = ref_redeem_to_script"
  "redeem_quorum (ref_env dbg) = ref_redeem_quorum"
  "to_v0_p2wsh (ref_env dbg) = ref_to_v0_p2wsh"
  "p2wsh_address (ref_env dbg) = ref_address"
  "verify_input (ref_env dbg) = ref_verify_input"
  "sign_input_with (ref_env dbg) = ref_sign_input_with"
  "spend_input (ref_env dbg) = ref_spend_input"
  "byzantine_quorum (ref_env dbg) = (\<lambda>n. n * 2 div 3 + 1)"
  by (simp_all add: ref_env_def)

lemma ref_word_roundtrip:
  fixes w :: "'n::len word"
  assumes "LENGTH('n) = 8 * n"
  shows "of_nat (le_val (le_bytes n (unat w))) = w"
proof -
  have "unat w < 256 ^ n"
    using unat_less_2p [of w] assms by (simp add: power_mult)
  then show ?thesis by (simp add: le_val_le_bytes)
qed

lemma ref_bytes_roundtrip:
  assumes "LENGTH('n::len) = 8 * n" "length b = n"
  shows "le_bytes n (unat (of_nat (le_val b) :: 'n word)) = b"
proof -
  have "le_val b < 2 ^ LENGTH('n)"
    using le_val_less [of b] assms by (simp add: power_mult)
  then have "unat (of_nat (le_val b) :: 'n word) = le_val b"
    by (simp add: unat_of_nat)
  then show ?thesis
    using le_bytes_le_val [of b] assms by simp
qed

lemma ref_byteorder_laws: "byteorder_laws (ref_env dbg)"
  by (auto simp: byteorder_laws_def ref_word_roundtrip ref_bytes_roundtrip)

lemma ref_hash_laws: "hash_laws (ref_env dbg)"
  unfolding hash_laws_def
  by (auto simp: ref_hash_from_slice_def ref_hash_as_ref_def ref_sha256d_from_slice_def
      ref_sha256d_bytes_def ref_word_roundtrip ref_bytes_roundtrip split: hash.split sha256d.split)

lemma unat_of_nat_u8: "n < 256 \<Longrightarrow> unat (of_nat n :: u8) = n"
  by (simp add: unat_of_nat)

lemma le_bytes_2: "le_bytes 2 v = [of_nat (v mod 256), of_nat (v div 256 mod 256)]"
  by (simp add: numeral_2_eq_2)

lemma ref_script_laws: "script_laws (ref_env dbg)"
proof -
  have "ref_script_iter (ref_op_return_script b) = [Instr_Op OP_RETURN, Push_Bytes b]"
    if "length b \<le> 520" for b
  proof (cases "length b < 76")
    case True
    then have "(of_nat (length b) :: u8) < 76"
      by (simp add: word_less_nat_alt unat_of_nat_u8)
    with True show ?thesis
      by (simp add: ref_script_iter_def ref_op_return_script_def)
  next
    case False
    then show ?thesis
      by (simp add: ref_script_iter_def ref_op_return_script_def drop_Cons' le_bytes_2)
  qed
  then show ?thesis by (simp add: script_laws_def)
qed

lemma ref_segwit_laws: "segwit_laws (ref_env dbg)"
proof -
  have strip: "ref_txid (strip_witness t) = ref_txid t" for t
    by (simp add: ref_txid_def strip_witness_def comp_def)
  have "ref_txid t = ref_txid u" if "strip_witness t = strip_witness u" for t u
    by (metis strip that)
  moreover have "(ref_spend_input rs i sigs)\<lparr>witness := []\<rparr> = i\<lparr>witness := []\<rparr>" for rs i sigs
    by (simp add: ref_spend_input_def)
  ultimately show ?thesis
    unfolding segwit_laws_def ref_env_simps by blast
qed

lemma ref_p2wsh_laws: "p2wsh_laws (ref_env dbg)"
  by (auto simp: p2wsh_laws_def ref_address_def ref_redeem_to_script_def ref_redeem_quorum_def
      unat_of_nat_u8 split: if_splits)

lemma ref_quorum_laws: "quorum_laws (ref_env dbg)"
  by (simp add: quorum_laws_def)

lemmas ref_laws = ref_byteorder_laws ref_hash_laws ref_script_laws ref_segwit_laws ref_p2wsh_laws
  ref_quorum_laws

lemma ref_crate_laws [simp]: "crate_laws (ref_env dbg)"
  by (simp add: crate_laws_def ref_laws)

interpretation reference: crates "ref_env dbg" for dbg
  by unfold_locales simp

end
