(* ===== verification/Payload.thy ===== *)
theory Payload
  imports Reference_Env
begin

text \<open>
  The anchoring payload of \<open>src/btc/payload.rs\<close>: the data an anchoring transaction carries in
  its \<open>OP_RETURN\<close> output, its byte layout (version 1), the builder that writes it and the
  parser \<open>Payload::from_script\<close>. \<open>payload_bytes\<close> is the layout of the table in the doc comment
  of \<open>Payload\<close>, written as one concatenation; the lemmas show that the buffer writes of the code
  produce exactly this layout and that the parser accepts exactly this layout.
\<close>

section \<open>Data\<close>

definition PAYLOAD_PREFIX :: bytes where
  "PAYLOAD_PREFIX = [0x45, 0x58, 0x4f, 0x4e, 0x55, 0x4d]"

definition PAYLOAD_HEADER_LEN :: nat where
  "PAYLOAD_HEADER_LEN = 8"

definition PAYLOAD_V1 :: u8 where
  "PAYLOAD_V1 = 1"

definition PAYLOAD_V1_KIND_REGULAR :: u8 where
  "PAYLOAD_V1_KIND_REGULAR = 0"

definition PAYLOAD_V1_KIND_RECOVER :: u8 where
  "PAYLOAD_V1_KIND_RECOVER = 1"

record payload =
  block_height :: u64
  block_hash :: hash
  prev_tx_chain :: "sha256d option"

datatype payload_v1 = V1_Regular u64 hash | V1_Recover u64 hash sha256d

record payload_v1_builder =
  builder_block_hash :: "hash option"
  builder_block_height :: "u64 option"
  builder_prev_tx_chain :: "sha256d option"

section \<open>PayloadV1\<close>

definition payload_v1_read :: "env \<Rightarrow> bytes \<Rightarrow> (payload_v1 option, 'e) outcome" where
  "payload_v1_read E bytes =
     bind_oc (index_at bytes 0) (\<lambda>kind.
     bind_oc (slice_from bytes 1) (\<lambda>data.
     if kind = PAYLOAD_V1_KIND_REGULAR then
       (if length data \<noteq> 40 then Ok None
        else
          bind_oc (subslice data 0 8) (\<lambda>hb.
          bind_oc (subslice data 8 40) (\<lambda>bb.
          bind_oc (unwrap_or_panic Unwrap_None (hash_from_slice E bb)) (\<lambda>hash.
          Ok (Some (V1_Regular (le_read_u64 E hb) hash))))))
     else if kind = PAYLOAD_V1_KIND_RECOVER then
       (if length data \<noteq> 72 then Ok None
        else
          bind_oc (subslice data 0 8) (\<lambda>hb.
          bind_oc (subslice data 8 40) (\<lambda>bb.
          bind_oc (unwrap_or_panic Unwrap_None (hash_from_slice E bb)) (\<lambda>hash.
          bind_oc (subslice data 40 72) (\<lambda>tb.
          bind_oc (unwrap_or_panic Unwrap_None (sha256d_hash_from_slice E tb)) (\<lambda>txid.
          Ok (Some (V1_Recover (le_read_u64 E hb) hash txid))))))))
     else Ok None))"

definition payload_v1_len :: "payload_v1 \<Rightarrow> nat" where
  "payload_v1_len p = (case p of V1_Regular _ _ \<Rightarrow> 40 | V1_Recover _ _ _ \<Rightarrow> 72)"

definition payload_v1_kind :: "payload_v1 \<Rightarrow> u8" where
  "payload_v1_kind p =
     (case p of V1_Regular _ _ \<Rightarrow> PAYLOAD_V1_KIND_REGULAR
      | V1_Recover _ _ _ \<Rightarrow> PAYLOAD_V1_KIND_RECOVER)"

text \<open>The write to a mutable slice: the new content of the slice.\<close>

definition payload_v1_write :: "env \<Rightarrow> payload_v1 \<Rightarrow> bytes \<Rightarrow> (bytes, 'e) outcome" where
  "payload_v1_write E p buf =
     bind_oc (store_at buf 0 (payload_v1_kind p)) (\<lambda>buf.
     bind_oc (slice_from buf 1) (\<lambda>data.
     if debug_build E \<and> length data \<noteq> payload_v1_len p
     then Panic (Assertion_Failed ''buf.len() == self.len()'')
     else
       map_ok (\<lambda>data. take 1 buf @ data)
       (case p of
          V1_Regular height hash \<Rightarrow>
            bind_oc (copy_into data 0 8 (le_write_u64 E height)) (\<lambda>data.
            copy_into data 8 40 (hash_as_ref E hash))
        | V1_Recover height hash txid \<Rightarrow>
            bind_oc (copy_into data 0 8 (le_write_u64 E height)) (\<lambda>data.
            bind_oc (copy_into data 8 40 (hash_as_ref E hash)) (\<lambda>data.
            copy_into data 40 72 (sha256d_bytes E txid))))))"

definition payload_v1_into_script :: "env \<Rightarrow> payload_v1 \<Rightarrow> (script, 'e) outcome" where
  "payload_v1_into_script E p =
     (let len = payload_v1_len p + PAYLOAD_HEADER_LEN; buf = replicate len 0 in
     bind_oc (copy_into buf 0 6 PAYLOAD_PREFIX) (\<lambda>buf.
     bind_oc (store_at buf 6 PAYLOAD_V1) (\<lambda>buf.
     bind_oc (slice_from buf 7) (\<lambda>data.
     bind_oc (payload_v1_write E p data) (\<lambda>data.
     Ok (op_return_script E (take 7 buf @ data)))))))"

section \<open>PayloadV1Builder\<close>

definition payload_builder_new :: payload_v1_builder where
  "payload_builder_new = \<lparr>builder_block_hash = None, builder_block_height = None,
     builder_prev_tx_chain = None\<rparr>"

definition payload_builder_block_height ::
  "payload_v1_builder \<Rightarrow> u64 \<Rightarrow> payload_v1_builder" where
  "payload_builder_block_height b height = b\<lparr>builder_block_height := Some height\<rparr>"

definition payload_builder_block_hash ::
  "payload_v1_builder \<Rightarrow> hash \<Rightarrow> payload_v1_builder" where
  "payload_builder_block_hash b hash = b\<lparr>builder_block_hash := Some hash\<rparr>"

definition payload_builder_prev_tx_chain ::
  "payload_v1_builder \<Rightarrow> sha256d option \<Rightarrow> payload_v1_builder" where
  "payload_builder_prev_tx_chain b txid = b\<lparr>builder_prev_tx_chain := txid\<rparr>"

definition payload_builder_into_script ::
  "env \<Rightarrow> payload_v1_builder \<Rightarrow> (script, 'e) outcome" where
  "payload_builder_into_script E b =
     bind_oc (unwrap_or_panic (Expect_None ''Block height is not set'') (builder_block_height b))
       (\<lambda>height.
     bind_oc (unwrap_or_panic (Expect_None ''Block hash is not set'') (builder_block_hash b))
       (\<lambda>hash.
     payload_v1_into_script E
       (case builder_prev_tx_chain b of
          Some txid \<Rightarrow> V1_Recover height hash txid
        | None \<Rightarrow> V1_Regular height hash)))"

section \<open>Payload::from_script\<close>

definition payload_from_v1 :: "payload_v1 \<Rightarrow> payload" where
  "payload_from_v1 v1 =
     (case v1 of
        V1_Regular height hash \<Rightarrow>
          \<lparr>block_height = height, block_hash = hash, prev_tx_chain = None\<rparr>
      | V1_Recover height hash txid \<Rightarrow>
          \<lparr>block_height = height, block_hash = hash, prev_tx_chain = Some txid\<rparr>)"

definition payload_from_push :: "env \<Rightarrow> bytes \<Rightarrow> (payload option, 'e) outcome" where
  "payload_from_push E bytes =
     (if length bytes < PAYLOAD_HEADER_LEN then Ok None
      else
        bind_oc (subslice bytes 0 6) (\<lambda>prefix.
        if prefix \<noteq> PAYLOAD_PREFIX then Ok None
        else
          bind_oc (index_at bytes 6) (\<lambda>version.
          if version = PAYLOAD_V1 then
            bind_oc (slice_from bytes 7) (\<lambda>rest.
            map_ok (map_option payload_from_v1) (payload_v1_read E rest))
          else Ok None)))"

definition payload_from_script :: "env \<Rightarrow> script \<Rightarrow> (payload option, 'e) outcome" where
  "payload_from_script E script =
     (case script_iter E script of
        [] \<Rightarrow> Ok None
      | instr # rest \<Rightarrow>
          if instr = Instr_Op OP_RETURN then
            (case rest of
               [] \<Rightarrow> Ok None
             | Push_Bytes bytes # _ \<Rightarrow> payload_from_push E bytes
             | _ \<Rightarrow> Ok None)
          else Ok None)"

section \<open>The layout\<close>

text \<open>
  The table of the doc comment: prefix, version, kind, height, hash, and for the recover kind
  the id of the lost chain's transaction.
\<close>

definition payload_v1_body :: "env \<Rightarrow> payload_v1 \<Rightarrow> bytes" where
  "payload_v1_body E p =
     (case p of
        V1_Regular height hash \<Rightarrow> le_write_u64 E height @ hash_as_ref E hash
      | V1_Recover height hash txid \<Rightarrow>
          le_write_u64 E height @ hash_as_ref E hash @ sha256d_bytes E txid)"

definition payload_v1_bytes :: "env \<Rightarrow> payload_v1 \<Rightarrow> bytes" where
  "payload_v1_bytes E p =
     PAYLOAD_PREFIX @ [PAYLOAD_V1, payload_v1_kind p] @ payload_v1_body E p"

definition payload_to_v1 :: "payload \<Rightarrow> payload_v1" where
  "payload_to_v1 p =
     (case prev_tx_chain p of
        None \<Rightarrow> V1_Regular (block_height p) (block_hash p)
      | Some txid \<Rightarrow> V1_Recover (block_height p) (block_hash p) txid)"

definition payload_bytes :: "env \<Rightarrow> payload \<Rightarrow> bytes" where
  "payload_bytes E p = payload_v1_bytes E (payload_to_v1 p)"

lemma payload_to_from_v1 [simp]: "payload_to_v1 (payload_from_v1 v) = v"
  by (cases v) (simp_all add: payload_to_v1_def payload_from_v1_def)

lemma payload_from_to_v1 [simp]: "payload_from_v1 (payload_to_v1 p) = p"
  by (cases p) (simp add: payload_to_v1_def payload_from_v1_def split: option.split)

lemmas payload_consts = PAYLOAD_PREFIX_def PAYLOAD_HEADER_LEN_def PAYLOAD_V1_def
  PAYLOAD_V1_KIND_REGULAR_def PAYLOAD_V1_KIND_RECOVER_def

lemma length_payload_v1_body:
  "byteorder_laws E \<Longrightarrow> hash_laws E \<Longrightarrow> length (payload_v1_body E p) = payload_v1_len p"
  by (cases p) (simp_all add: payload_v1_body_def payload_v1_len_def byteorder_lawsD hash_lawsD)

lemma length_payload_v1_bytes:
  "byteorder_laws E \<Longrightarrow> hash_laws E \<Longrightarrow> length (payload_v1_bytes E p) = payload_v1_len p + 8"
  by (simp add: payload_v1_bytes_def length_payload_v1_body PAYLOAD_PREFIX_def)

section \<open>Writing\<close>

lemma payload_v1_write_ok:
  assumes "byteorder_laws E" "hash_laws E" "length buf = payload_v1_len p + 1"
  shows "payload_v1_write E p buf = Ok (payload_v1_kind p # payload_v1_body E p)"
proof -
  obtain x data where buf: "buf = x # data" and len: "length data = payload_v1_len p"
    using assms(3) by (cases buf) auto
  show ?thesis
    using assms(1,2) len
    by (cases p)
      (simp_all add: buf payload_v1_write_def store_at_def slice_from_eq subslice_def copy_into_def
        payload_v1_body_def payload_v1_len_def payload_v1_kind_def byteorder_lawsD hash_lawsD)
qed

lemma payload_v1_into_script_ok:
  assumes "byteorder_laws E" "hash_laws E"
  shows "payload_v1_into_script E p = Ok (op_return_script E (payload_v1_bytes E p))"
proof -
  let ?n = "payload_v1_len p"
  have rep: "replicate (?n + 8) (0::u8) = replicate 6 0 @ 0 # replicate (?n + 1) 0"
    by (simp add: replicate_add [symmetric] eval_nat_numeral)
  show ?thesis
    unfolding payload_v1_into_script_def
    by (simp add: PAYLOAD_HEADER_LEN_def rep copy_into_def PAYLOAD_PREFIX_def store_at_def
        slice_from_eq subslice_def payload_v1_write_ok [OF assms] payload_v1_bytes_def)
qed

section \<open>Reading\<close>

lemma payload_v1_read_body:
  assumes "byteorder_laws E" "hash_laws E"
  shows "payload_v1_read E (payload_v1_kind v # payload_v1_body E v) = Ok (Some v)"
  using assms
  by (cases v)
    (simp_all add: payload_v1_read_def payload_v1_body_def payload_v1_kind_def index_at_def
      slice_from_eq subslice_def payload_consts byteorder_lawsD hash_lawsD)

text \<open>What \<open>read\<close> computes on a non-empty slice, with the slicing and the unwraps resolved.\<close>

definition payload_v1_parse :: "env \<Rightarrow> u8 \<Rightarrow> bytes \<Rightarrow> payload_v1 option" where
  "payload_v1_parse E k data =
     (if k = PAYLOAD_V1_KIND_REGULAR \<and> length data = 40 then
        Some (V1_Regular (le_read_u64 E (take 8 data)) (the (hash_from_slice E (drop 8 data))))
      else if k = PAYLOAD_V1_KIND_RECOVER \<and> length data = 72 then
        Some (V1_Recover (le_read_u64 E (take 8 data))
          (the (hash_from_slice E (take 32 (drop 8 data))))
          (the (sha256d_hash_from_slice E (drop 40 data))))
      else None)"

lemma unwrap_hash_from_slice:
  "hash_laws E \<Longrightarrow> length b = 32 \<Longrightarrow>
     unwrap_or_panic p (hash_from_slice E b) = Ok (the (hash_from_slice E b))"
  by (auto simp: hash_laws_def)

lemma unwrap_sha256d_from_slice:
  "hash_laws E \<Longrightarrow> length b = 32 \<Longrightarrow>
     unwrap_or_panic p (sha256d_hash_from_slice E b) = Ok (the (sha256d_hash_from_slice E b))"
  by (auto simp: hash_laws_def)

lemma hash_as_ref_the:
  "hash_laws E \<Longrightarrow> length b = 32 \<Longrightarrow> hash_as_ref E (the (hash_from_slice E b)) = b"
  by (auto simp: hash_laws_def)

lemma sha256d_bytes_the:
  "hash_laws E \<Longrightarrow> length b = 32 \<Longrightarrow> sha256d_bytes E (the (sha256d_hash_from_slice E b)) = b"
  by (auto simp: hash_laws_def)

lemma payload_v1_read_eq:
  "hash_laws E \<Longrightarrow> payload_v1_read E (k # data) = Ok (payload_v1_parse E k data)"
  by (auto simp: payload_v1_read_def payload_v1_parse_def index_at_def slice_from_eq subslice_def
      payload_consts unwrap_hash_from_slice unwrap_sha256d_from_slice)

lemma payload_v1_parse_SomeD:
  assumes "byteorder_laws E" "hash_laws E" "payload_v1_parse E k data = Some v"
  shows "k = payload_v1_kind v \<and> data = payload_v1_body E v"
proof -
  have split40: "take 8 data @ take 32 (drop 8 data) @ drop 40 data = data"
    using append_take_drop_id [of 32 "drop 8 data"] append_take_drop_id [of 8 data] by simp
  show ?thesis
    using assms split40
    by (auto simp: payload_v1_parse_def payload_v1_kind_def payload_v1_body_def byteorder_lawsD
        hash_as_ref_the sha256d_bytes_the split: if_splits)
qed

text \<open>What the parser computes on pushed data of at least eight bytes.\<close>

lemma payload_from_push_eq:
  assumes "hash_laws E" "8 \<le> length bytes"
  shows "payload_from_push E bytes =
    Ok (if take 6 bytes = PAYLOAD_PREFIX \<and> bytes ! 6 = PAYLOAD_V1
        then map_option payload_from_v1 (payload_v1_parse E (bytes ! 7) (drop 8 bytes)) else None)"
proof -
  have "drop 7 bytes = bytes ! 7 # drop 8 bytes"
    using assms(2) Cons_nth_drop_Suc [of 7 bytes] by simp
  with assms show ?thesis
    by (simp add: payload_from_push_def PAYLOAD_HEADER_LEN_def subslice_def slice_from_eq
        index_at_def get_nth_def payload_v1_read_eq)
qed

lemma payload_from_push_short: "length bytes < 8 \<Longrightarrow> payload_from_push E bytes = Ok None"
  by (simp add: payload_from_push_def PAYLOAD_HEADER_LEN_def)

lemma payload_from_push_bytes:
  assumes "byteorder_laws E" "hash_laws E"
  shows "payload_from_push E (payload_bytes E p) = Ok (Some p)"
  using assms
  by (simp add: payload_from_push_def payload_bytes_def payload_v1_bytes_def PAYLOAD_PREFIX_def
      PAYLOAD_HEADER_LEN_def subslice_def slice_from_eq index_at_def get_nth_def
      payload_v1_read_body)

lemma payload_from_push_SomeD:
  assumes laws: "byteorder_laws E" "hash_laws E"
    and some: "payload_from_push E bytes = Ok (Some p)"
  shows "bytes = payload_bytes E p"
proof -
  have len: "8 \<le> length bytes"
    using some by (cases "length bytes < 8") (simp_all add: payload_from_push_short)
  from some obtain v where v: "payload_v1_parse E (bytes ! 7) (drop 8 bytes) = Some v"
    and p: "p = payload_from_v1 v" and prefix: "take 6 bytes = PAYLOAD_PREFIX"
    and version: "bytes ! 6 = PAYLOAD_V1"
    by (auto simp: payload_from_push_eq [OF laws(2) len] split: if_splits)
  have "bytes = take 6 bytes @ bytes ! 6 # bytes ! 7 # drop 8 bytes"
    using len Cons_nth_drop_Suc [of 7 bytes] Cons_nth_drop_Suc [of 6 bytes]
      append_take_drop_id [of 6 bytes] by simp
  also have "\<dots> = payload_v1_bytes E v"
    using payload_v1_parse_SomeD [OF laws v] prefix version by (simp add: payload_v1_bytes_def)
  finally show ?thesis by (simp add: payload_bytes_def p)
qed

section \<open>The codec of pushed data\<close>

definition payload_decode :: "env \<Rightarrow> bytes \<Rightarrow> payload option" where
  "payload_decode E bytes =
     (case (payload_from_push E bytes :: (payload option, unit) outcome) of Ok r \<Rightarrow> r | _ \<Rightarrow> None)"

lemma payload_from_push_decode:
  "hash_laws E \<Longrightarrow> payload_from_push E bytes = Ok (payload_decode E bytes)"
  by (cases "length bytes < 8")
    (simp_all add: payload_decode_def payload_from_push_short payload_from_push_eq)

sublocale crates \<subseteq> payload_push: codec "payload_bytes E" "payload_decode E"
proof
  show "payload_decode E (payload_bytes E p) = Some p" for p
    using each_law(1,2) by (simp add: payload_decode_def payload_from_push_bytes)
  show "bytes = payload_bytes E p" if "payload_decode E bytes = Some p" for bytes p
    using payload_from_push_SomeD [OF each_law(1,2)] payload_from_push_decode [OF each_law(2)] that
    by metis
qed

context crates
begin

lemma payload_decode_iff: "payload_decode E b = Some p \<longleftrightarrow> b = payload_bytes E p"
  by (rule payload_push.decode_eq_Some_iff)

lemma payload_bytes_inject: "payload_bytes E p = payload_bytes E q \<longleftrightarrow> p = q"
  by (rule payload_push.encode_inject)

end

lemma payload_from_script_decode:
  "hash_laws E \<Longrightarrow> payload_from_script E script =
     Ok (case script_iter E script of
           Instr_Op OP_RETURN # Push_Bytes bytes # _ \<Rightarrow> payload_decode E bytes
         | _ \<Rightarrow> None)"
  by (auto simp: payload_from_script_def payload_from_push_decode
      split: list.split instruction.split opcode.split)

lemma payload_from_script_op_return:
  assumes "crate_laws E" "2 \<le> length b" "length b \<le> 520"
  shows "payload_from_script E (op_return_script E b) = Ok (payload_decode E b)"
proof -
  have "hash_laws E" "script_iter E (op_return_script E b) = [Instr_Op OP_RETURN, Push_Bytes b]"
    using assms by (simp_all add: crate_laws_def script_laws_def)
  then show ?thesis by (simp add: payload_from_script_decode)
qed

lemma length_payload_bytes:
  "crate_laws E \<Longrightarrow> length (payload_bytes E p) = (if prev_tx_chain p = None then 48 else 80)"
  by (simp add: payload_bytes_def length_payload_v1_bytes crate_laws_def payload_v1_len_def
      payload_to_v1_def split: option.split)

text \<open>The chain of builder calls that \<open>BtcAnchoringTransactionBuilder::create\<close> makes.\<close>

definition payload_script :: "env \<Rightarrow> payload \<Rightarrow> (script, 'e) outcome" where
  "payload_script E p = payload_builder_into_script E
     (payload_builder_prev_tx_chain
        (payload_builder_block_height
           (payload_builder_block_hash payload_builder_new (block_hash p)) (block_height p))
        (prev_tx_chain p))"

lemma payload_script_eq:
  assumes "crate_laws E"
  shows "payload_script E p = Ok (op_return_script E (payload_bytes E p))"
proof -
  have "payload_script E p = payload_v1_into_script E (payload_to_v1 p)"
    by (simp add: payload_script_def payload_builder_into_script_def payload_builder_new_def
        payload_builder_prev_tx_chain_def payload_builder_block_height_def
        payload_builder_block_hash_def payload_to_v1_def split: option.split)
  with assms show ?thesis
    by (simp add: payload_v1_into_script_ok crate_laws_def payload_bytes_def)
qed

section \<open>Properties\<close>

lemma payload_script_parses:
  assumes "crate_laws E"
  shows "bind_oc (payload_script E p) (payload_from_script E) = Ok (Some p)"
proof -
  have "payload_decode E (payload_bytes E p) = Some p"
    using assms by (simp add: crates.payload_decode_iff crates_def)
  then show ?thesis
    using assms
    by (simp add: payload_script_eq payload_from_script_op_return length_payload_bytes)
qed

text \<open>The bytes of a payload are those of the table in the doc comment of \<open>Payload\<close>.\<close>

lemma payload_bytes_layout:
  "payload_bytes E p = PAYLOAD_PREFIX @ [1, if prev_tx_chain p = None then 0 else 1] @
     le_write_u64 E (block_height p) @ hash_as_ref E (block_hash p) @
     (case prev_tx_chain p of None \<Rightarrow> [] | Some txid \<Rightarrow> sha256d_bytes E txid)"
  by (simp add: payload_bytes_def payload_v1_bytes_def payload_to_v1_def payload_v1_kind_def
      payload_v1_body_def payload_consts split: option.split)

text \<open>
  C34. Parsing is exact, and the layout is the documented one: \<open>Payload::from_script\<close> finds a payload in
  a script if and only if the script starts with \<open>OP_RETURN\<close> and a push of the prefix, the version, the
  kind, the height, the hash and, in a recover payload, the id of the lost chain, and of nothing else;
  so no truncated, extended or foreign push is read as a payload. The builder writes a push of the
  same bytes, 48 for a regular and 80 for a recover payload, and what it writes is read back.
\<close>

theorem payload_from_script_iff:
  assumes "crate_laws E"
  shows "let layout = PAYLOAD_PREFIX @ [1, if prev_tx_chain p = None then 0 else 1] @
      le_write_u64 E (block_height p) @ hash_as_ref E (block_hash p) @
      (case prev_tx_chain p of None \<Rightarrow> [] | Some txid \<Rightarrow> sha256d_bytes E txid) in
    (payload_from_script E script = (Ok (Some p) :: (_, 'e) outcome) \<longleftrightarrow>
      (\<exists>rest. script_iter E script = Instr_Op OP_RETURN # Push_Bytes layout # rest)) \<and>
    payload_script E p = (Ok (op_return_script E layout) :: (_, 'e) outcome) \<and>
    length layout = (if prev_tx_chain p = None then 48 else 80) \<and>
    bind_oc (payload_script E p) (payload_from_script E) = (Ok (Some p) :: (_, 'e) outcome)"
proof -
  have laws: "crates E" using assms by (simp add: crates_def)
  have dec: "payload_decode E b = Some p \<longleftrightarrow> b = payload_bytes E p" for b
    by (rule crates.payload_decode_iff [OF laws])
  have hash: "hash_laws E" using assms by (simp add: crate_laws_def)
  have "payload_from_script E script = (Ok (Some p) :: (_, 'e) outcome) \<longleftrightarrow>
      (\<exists>rest. script_iter E script = Instr_Op OP_RETURN # Push_Bytes (payload_bytes E p) # rest)"
    by (auto simp: payload_from_script_decode [OF hash] dec
        split: list.splits instruction.splits opcode.splits)
  then show ?thesis
    unfolding Let_def payload_bytes_layout [symmetric]
    using payload_script_eq [OF assms] length_payload_bytes [OF assms] payload_script_parses [OF assms] by blast
qed

text \<open>The script of a regular payload with the height 1234.\<close>

definition regular_script :: bytes where
  "regular_script = [0x6a, 0x30, 0x45, 0x58, 0x4f, 0x4e, 0x55, 0x4d, 1, 0, 0xd2, 0x04, 0, 0, 0, 0, 0, 0, 7,
     0, 0, 0, 0, 0, 0, 0, 0, 0, 0, 0, 0, 0, 0, 0, 0, 0, 0, 0, 0, 0, 0, 0, 0, 0, 0, 0, 0, 0, 0, 0]"

theorem payload_from_script_iff_witness:
  "payload_from_script (ref_env True) regular_script =
     (Ok (Some \<lparr>block_height = 1234, block_hash = Hash 7, prev_tx_chain = None\<rparr>) :: (_, unit) outcome) \<and>
   payload_script (ref_env True) \<lparr>block_height = 1234, block_hash = Hash 7, prev_tx_chain = None\<rparr> =
     (Ok regular_script :: (_, unit) outcome)"
  using payload_from_script_iff [OF ref_crate_laws [of True], where 'e = unit, of
      "\<lparr>block_height = 1234, block_hash = Hash 7, prev_tx_chain = None\<rparr>" regular_script]
  by (simp add: Let_def regular_script_def ref_script_iter_def ref_op_return_script_def payload_consts
      ref_hash_as_ref_def le_bytes_numeral)

text \<open>
  The parser is total: on no script, well-formed or hostile, does \<open>Payload::from_script\<close>
  panic; every slice, index and \<open>unwrap\<close> in it is in range.
\<close>

lemma payload_from_script_total:
  assumes "hash_laws E"
  shows "\<exists>r. (payload_from_script E script :: (payload option, 'e) outcome) = Ok r"
  using assms by (simp add: payload_from_script_decode)

end
