(* ===== verification/Btc_Transaction.thy ===== *)
theory Btc_Transaction
  imports Payload
begin

text \<open>
  The anchoring transaction and its builder, \<open>src/btc/transaction.rs\<close>. The wrapper
  \<open>btc::Transaction\<close> is the record of the wrapped Bitcoin transaction. The builder collects the
  previous anchoring transaction, funding transactions, payload and fee rate, and \<open>create\<close>
  turns them into an unsigned transaction and the list of the transactions it spends. The lemmas
  describe the result of \<open>create\<close> completely: its inputs, its two outputs, the conservation of
  value, and when each error is returned.
\<close>

type_synonym transaction = bitcoin_tx

section \<open>Transaction\<close>

definition tx_id :: "env \<Rightarrow> transaction \<Rightarrow> sha256d" where
  "tx_id E tx = txid_of E tx"

definition prev_tx_id :: "transaction \<Rightarrow> (sha256d, 'e) outcome" where
  "prev_tx_id tx = bind_oc (index_at (tx_input tx) 0) (\<lambda>i. Ok (op_txid (previous_output i)))"

definition find_out :: "transaction \<Rightarrow> script \<Rightarrow> (nat \<times> tx_out) option" where
  "find_out tx script = find_index_from 0 (\<lambda>out. script_pubkey out = script) (tx_output tx)"

definition anchoring_payload :: "env \<Rightarrow> transaction \<Rightarrow> (payload option, 'e) outcome" where
  "anchoring_payload E tx =
     (case get_nth (tx_output tx) 1 of
        None \<Rightarrow> Ok None
      | Some out \<Rightarrow> payload_from_script E (script_pubkey out))"

definition anchoring_metadata ::
  "env \<Rightarrow> transaction \<Rightarrow> ((script \<times> payload) option, 'e) outcome" where
  "anchoring_metadata E tx =
     bind_oc (anchoring_payload E tx) (\<lambda>r.
     case r of
       None \<Rightarrow> Ok None
     | Some payload \<Rightarrow>
         (case map_option script_pubkey (get_nth (tx_output tx) 0) of
            None \<Rightarrow> Ok None
          | Some script \<Rightarrow> Ok (Some (script, payload))))"

definition unspent_value :: "transaction \<Rightarrow> u64 option" where
  "unspent_value tx = map_option txout_value (get_nth (tx_output tx) 0)"

section \<open>BtcAnchoringTransactionBuilder\<close>

record tx_builder =
  builder_script_pubkey :: script
  builder_transit_to :: "script option"
  builder_prev_tx :: "transaction option"
  builder_recovery_tx :: "sha256d option"
  builder_additional_funds :: "(nat \<times> transaction) list"
  builder_fee :: "u64 option"
  builder_payload :: "(u64 \<times> hash) option"

datatype builder_error =
    Builder_InsufficientFunds u64 u64 \<comment> \<open>total fee, balance\<close>
  | Builder_NoInputs
  | Builder_UnsuitableOutput
  | Builder_UnsuitableFundingTx

definition tx_builder_new :: "env \<Rightarrow> redeem_script \<Rightarrow> tx_builder" where
  "tx_builder_new E redeem_script = \<lparr>
     builder_script_pubkey = to_v0_p2wsh E redeem_script,
     builder_transit_to = None, builder_prev_tx = None, builder_recovery_tx = None,
     builder_additional_funds = [], builder_fee = None, builder_payload = None\<rparr>"

definition set_transit_to :: "tx_builder \<Rightarrow> script \<Rightarrow> tx_builder" where
  "set_transit_to b script = b\<lparr>builder_transit_to := Some script\<rparr>"

definition set_prev_tx ::
  "env \<Rightarrow> tx_builder \<Rightarrow> transaction \<Rightarrow> (tx_builder, builder_error) outcome" where
  "set_prev_tx E b tx =
     bind_oc (anchoring_metadata E tx) (\<lambda>m.
     bind_oc (unwrap_or_panic Unwrap_None m) (\<lambda>metadata.
     if fst metadata \<noteq> builder_script_pubkey b then Err Builder_UnsuitableOutput
     else Ok (b\<lparr>builder_prev_tx := Some tx\<rparr>)))"

definition set_recover :: "tx_builder \<Rightarrow> sha256d \<Rightarrow> tx_builder" where
  "set_recover b last_tx = b\<lparr>builder_recovery_tx := Some last_tx\<rparr>"

definition add_additional_funds ::
  "tx_builder \<Rightarrow> transaction \<Rightarrow> (tx_builder, builder_error) outcome" where
  "add_additional_funds b tx =
     bind_oc (ok_or Builder_UnsuitableFundingTx (find_out tx (builder_script_pubkey b))) (\<lambda>out.
     Ok (b\<lparr>builder_additional_funds := builder_additional_funds b @ [(fst out, tx)]\<rparr>))"

definition set_fee :: "tx_builder \<Rightarrow> u64 \<Rightarrow> tx_builder" where
  "set_fee b fee = b\<lparr>builder_fee := Some fee\<rparr>"

definition set_payload :: "tx_builder \<Rightarrow> u64 \<Rightarrow> hash \<Rightarrow> tx_builder" where
  "set_payload b height hash = b\<lparr>builder_payload := Some (height, hash)\<rparr>"

section \<open>create\<close>

definition funding_txin :: "env \<Rightarrow> nat \<times> transaction \<Rightarrow> tx_in" where
  "funding_txin E it = \<lparr>
     previous_output = \<lparr>op_txid = txid_of E (snd it), op_vout = of_nat (fst it)\<rparr>,
     script_sig = [], sequence = 0xFFFFFFFF, witness = []\<rparr>"

text \<open>The loop over the transactions to spend.\<close>

fun create_inputs :: "env \<Rightarrow> tx_in list \<Rightarrow> transaction list \<Rightarrow> u64 \<Rightarrow> (nat \<times> transaction) list \<Rightarrow>
   (tx_in list \<times> transaction list \<times> u64, 'e) outcome" where
  "create_inputs E input input_transactions balance [] =
     Ok (input, input_transactions, balance)"
| "create_inputs E input input_transactions balance ((out_index, tx) # rest) =
     bind_oc (index_at (tx_output tx) out_index) (\<lambda>out.
     bind_oc (add_u64 (debug_build E) balance (txout_value out)) (\<lambda>balance.
     create_inputs E (input @ [funding_txin E (out_index, tx)]) (input_transactions @ [tx])
       balance rest))"

definition builder_sources :: "tx_builder \<Rightarrow> (nat \<times> transaction) list" where
  "builder_sources b =
     (case builder_prev_tx b of None \<Rightarrow> [] | Some tx \<Rightarrow> [(0, tx)]) @ builder_additional_funds b"

definition unsigned_tx :: "tx_in list \<Rightarrow> u64 \<Rightarrow> script \<Rightarrow> script \<Rightarrow> transaction" where
  "unsigned_tx input balance output data_script = \<lparr>
     tx_version = 2, lock_time = 0, tx_input = input,
     tx_output = [\<lparr>txout_value = balance, script_pubkey = output\<rparr>,
                  \<lparr>txout_value = 0, script_pubkey = data_script\<rparr>]\<rparr>"

definition create ::
  "env \<Rightarrow> tx_builder \<Rightarrow> (transaction \<times> transaction list, builder_error) outcome" where
  "create E b =
     bind_oc (create_inputs E [] [] 0 (builder_sources b)) (\<lambda>(input, input_transactions, balance).
     if input_transactions = [] then Err Builder_NoInputs
     else
       bind_oc (unwrap_or_panic (Expect_None ''Payload isn't set.'') (builder_payload b))
         (\<lambda>(height, hash).
       bind_oc (payload_script E
           \<lparr>block_height = height, block_hash = hash, prev_tx_chain = builder_recovery_tx b\<rparr>)
         (\<lambda>data_script.
       let output = (case builder_transit_to b of
                       Some script \<Rightarrow> script | None \<Rightarrow> builder_script_pubkey b);
           tx = unsigned_tx input balance output data_script;
           size_in_bytes = of_nat (length (consensus_serialize E tx)) :: u64
       in
       bind_oc (unwrap_or_panic (Expect_None ''Fee per byte isn't set.'') (builder_fee b)) (\<lambda>fee.
       bind_oc (mul_u64 (debug_build E) fee size_in_bytes) (\<lambda>total_fee.
       if total_fee > balance then Err (Builder_InsufficientFunds total_fee balance)
       else
         bind_oc (index_at (tx_output tx) 0) (\<lambda>out.
         bind_oc (sub_u64 (debug_build E) (txout_value out) total_fee) (\<lambda>value.
         Ok (tx\<lparr>tx_output := (tx_output tx)[0 := out\<lparr>txout_value := value\<rparr>]\<rparr>,
             input_transactions))))))))"

section \<open>Basic facts\<close>

lemma find_out_Some_iff:
  "find_out tx script = Some (i, out) \<longleftrightarrow>
     i < length (tx_output tx) \<and> tx_output tx ! i = out \<and> script_pubkey out = script \<and>
     (\<forall>j<i. script_pubkey (tx_output tx ! j) \<noteq> script)"
  by (simp add: find_out_def find_index_from_Some_iff)

definition tx_payload :: "env \<Rightarrow> transaction \<Rightarrow> payload option" where
  "tx_payload E tx = (case (anchoring_payload E tx :: (payload option, unit) outcome) of
     Ok r \<Rightarrow> r | _ \<Rightarrow> None)"

definition tx_metadata :: "env \<Rightarrow> transaction \<Rightarrow> (script \<times> payload) option" where
  "tx_metadata E tx = map_option (\<lambda>p. (script_pubkey (tx_output tx ! 0), p)) (tx_payload E tx)"

lemma anchoring_payload_eq: "hash_laws E \<Longrightarrow> anchoring_payload E tx = Ok (tx_payload E tx)"
  by (simp add: tx_payload_def anchoring_payload_def payload_from_script_decode split: option.split)

lemma tx_payload_length: "tx_payload E tx = Some p \<Longrightarrow> 2 \<le> length (tx_output tx)"
  by (cases "length (tx_output tx) \<le> 1")
    (auto simp: tx_payload_def anchoring_payload_def get_nth_def)

lemma anchoring_metadata_eq:
  assumes "hash_laws E"
  shows "anchoring_metadata E tx = Ok (tx_metadata E tx)"
proof (cases "tx_payload E tx")
  case None
  with assms show ?thesis
    by (simp add: anchoring_metadata_def anchoring_payload_eq tx_metadata_def)
next
  case (Some p)
  then have "get_nth (tx_output tx) 0 = Some (tx_output tx ! 0)"
    using tx_payload_length by (fastforce simp: get_nth_def)
  with assms Some show ?thesis
    by (simp add: anchoring_metadata_def anchoring_payload_eq tx_metadata_def)
qed

lemma tx_payload_cong:
  "tx_output tx = tx_output tx' \<Longrightarrow> tx_payload E tx = tx_payload E tx'"
  by (simp add: tx_payload_def anchoring_payload_def)

lemma tx_metadata_cong:
  "tx_output tx = tx_output tx' \<Longrightarrow> tx_metadata E tx = tx_metadata E tx'"
  by (simp add: tx_metadata_def tx_payload_cong [of tx tx'])

section \<open>What create returns\<close>

definition source_value :: "nat \<times> transaction \<Rightarrow> u64" where
  "source_value it = txout_value (tx_output (snd it) ! fst it)"

definition source_in_range :: "nat \<times> transaction \<Rightarrow> bool" where
  "source_in_range it \<longleftrightarrow> fst it < length (tx_output (snd it))"

lemma create_inputs_not_Err [simp]: "create_inputs E input txs bal xs \<noteq> Err e"
  by (induction E input txs bal xs rule: create_inputs.induct)
    (auto simp: outcome_simps index_at_def)

lemma create_inputs_OkD:
  assumes "(create_inputs E input txs bal xs :: (_, 'e) outcome) = Ok (input', txs', bal')"
  shows "input' = input @ map (funding_txin E) xs \<and> txs' = txs @ map snd xs \<and>
    (\<forall>it \<in> set xs. source_in_range it) \<and> bal' = bal + sum_list (map source_value xs) \<and>
    (debug_build E \<longrightarrow> unat bal' = unat bal + sum_list (map (\<lambda>it. unat (source_value it)) xs))"
  using assms
proof (induction xs arbitrary: input txs bal)
  case Nil
  then show ?case by simp
next
  case (Cons it xs)
  obtain i tx where it: "it = (i, tx)" by (cases it)
  from Cons.prems it obtain out bal1 where
      out: "get_nth (tx_output tx) i = Some out"
    and bal1: "bal1 = bal + txout_value out"
    and dbg: "debug_build E \<Longrightarrow> unat bal + unat (txout_value out) < 2 ^ 64"
    and rest: "(create_inputs E (input @ [funding_txin E (i, tx)]) (txs @ [tx]) bal1 xs
         :: (_, 'e) outcome) = Ok (input', txs', bal')"
    by (auto simp: outcome_simps index_at_def add_u64_def not_le split: if_splits)
  have i: "i < length (tx_output tx)" and v: "source_value it = txout_value out"
    using out by (auto simp: get_nth_eq_Some_iff source_value_def it)
  have b: "bal1 = bal + source_value it"
      "debug_build E \<Longrightarrow> unat bal1 = unat bal + unat (source_value it)"
    using bal1 dbg by (simp_all add: v unat_word_ariths)
  show ?case
    using Cons.IH [OF rest] i b by (auto simp: it source_in_range_def add.assoc)
qed

lemma create_inputs_exact_aux:
  assumes "\<forall>it \<in> set xs. source_in_range it"
    and "unat bal + sum_list (map (\<lambda>it. unat (source_value it)) xs) < 2 ^ 64"
  shows "create_inputs E input txs bal xs =
      Ok (input @ map (funding_txin E) xs, txs @ map snd xs, bal + sum_list (map source_value xs))
    \<and> unat (bal + sum_list (map source_value xs)) =
        unat bal + sum_list (map (\<lambda>it. unat (source_value it)) xs)"
  using assms
proof (induction xs arbitrary: input txs bal)
  case Nil
  then show ?case by simp
next
  case (Cons it xs)
  obtain i tx where it: "it = (i, tx)" by (cases it)
  have out: "get_nth (tx_output tx) i = Some (tx_output tx ! i)"
    using Cons.prems(1) by (simp add: it source_in_range_def get_nth_def)
  have "unat bal + unat (source_value it) < 2 ^ 64"
    using Cons.prems(2) by simp
  note add = add_u64_exact [OF this]
  show ?case
    using Cons.IH [of "bal + source_value it" "input @ [funding_txin E it]" "txs @ [tx]"]
      Cons.prems
    by (simp add: it index_at_def out source_value_def add.assoc
        add [unfolded it source_value_def, simplified])
qed

lemmas create_inputs_exact = create_inputs_exact_aux [THEN conjunct1]
  create_inputs_exact_aux [THEN conjunct2]

text \<open>
  The outcome of \<open>create\<close>, with the loop and the buffer writes resolved: \<open>finished_tx\<close> is the
  unsigned transaction once the fee is taken from its first output.
\<close>

definition builder_output :: "tx_builder \<Rightarrow> script" where
  "builder_output b =
     (case builder_transit_to b of Some script \<Rightarrow> script | None \<Rightarrow> builder_script_pubkey b)"

definition draft_tx :: "env \<Rightarrow> tx_builder \<Rightarrow> payload \<Rightarrow> u64 \<Rightarrow> transaction" where
  "draft_tx E b p bal = unsigned_tx (map (funding_txin E) (builder_sources b)) bal
     (builder_output b) (op_return_script E (payload_bytes E p))"

definition size_of_tx :: "env \<Rightarrow> transaction \<Rightarrow> u64" where
  "size_of_tx E tx = of_nat (length (consensus_serialize E tx))"

lemma create_eq:
  assumes "crate_laws E"
    and "builder_payload b = Some (height, hash)" and "builder_fee b = Some fee"
    and "p = \<lparr>block_height = height, block_hash = hash, prev_tx_chain = builder_recovery_tx b\<rparr>"
  shows "create E b =
     bind_oc (create_inputs E [] [] 0 (builder_sources b)) (\<lambda>(input, input_transactions, bal).
     if input_transactions = [] then Err Builder_NoInputs
     else bind_oc (mul_u64 (debug_build E) fee (size_of_tx E (draft_tx E b p bal))) (\<lambda>total_fee.
       if total_fee > bal then Err (Builder_InsufficientFunds total_fee bal)
       else Ok (draft_tx E b p (bal - total_fee), input_transactions)))"
proof (cases "create_inputs E [] [] 0 (builder_sources b)
    :: (tx_in list \<times> transaction list \<times> u64, builder_error) outcome")
  case (Ok r)
  obtain input txs bal where r: "r = (input, txs, bal)" by (cases r)
  have input: "input = map (funding_txin E) (builder_sources b)"
    using create_inputs_OkD [OF Ok [unfolded r]] by simp
  show ?thesis
    using assms
    by (simp add: create_def Ok r payload_script_eq Let_def input draft_tx_def builder_output_def
        unsigned_tx_def size_of_tx_def index_at_def sub_u64_def not_less
        cong: if_cong)
next
  case (Err e)
  then show ?thesis by (simp add: create_def)
next
  case (Panic q)
  then show ?thesis by (simp add: create_def)
qed

lemma draft_tx_simps [simp]:
  "tx_input (draft_tx E b p bal) = map (funding_txin E) (builder_sources b)"
  "tx_output (draft_tx E b p bal) =
     [\<lparr>txout_value = bal, script_pubkey = builder_output b\<rparr>,
      \<lparr>txout_value = 0, script_pubkey = op_return_script E (payload_bytes E p)\<rparr>]"
  by (simp_all add: draft_tx_def unsigned_tx_def)

lemma draft_tx_version:
  "tx_version (draft_tx E b p bal) = 2" "lock_time (draft_tx E b p bal) = 0"
  by (simp_all add: draft_tx_def unsigned_tx_def)

text \<open>The unsigned transaction before the fee is taken, recovered from the finished one.\<close>

lemma draft_tx_restore:
  "(draft_tx E b p bal)\<lparr>tx_output := (tx_output (draft_tx E b p bal))
     [0 := (tx_output (draft_tx E b p bal) ! 0)\<lparr>txout_value := bal'\<rparr>]\<rparr> = draft_tx E b p bal'"
  by (simp add: draft_tx_def unsigned_tx_def)

lemma tx_payload_draft_tx:
  assumes "crate_laws E"
  shows "tx_payload E (draft_tx E b p bal) = Some p"
proof -
  have "payload_decode E (payload_bytes E p) = Some p"
    using assms by (simp add: crates.payload_decode_iff crates_def)
  then show ?thesis
    using assms
    by (simp add: tx_payload_def anchoring_payload_def get_nth_def payload_from_script_op_return
        length_payload_bytes)
qed

lemma tx_metadata_draft_tx:
  "crate_laws E \<Longrightarrow> tx_metadata E (draft_tx E b p bal) = Some (builder_output b, p)"
  by (simp add: tx_metadata_def tx_payload_draft_tx)

lemma create_OkD:
  assumes laws: "crate_laws E" and ok: "create E b = Ok (tx, inputs)"
  obtains height hash fee p bal total where
    "builder_payload b = Some (height, hash)" "builder_fee b = Some fee"
    "p = \<lparr>block_height = height, block_hash = hash, prev_tx_chain = builder_recovery_tx b\<rparr>"
    "builder_sources b \<noteq> []" "\<forall>it \<in> set (builder_sources b). source_in_range it"
    "bal = sum_list (map source_value (builder_sources b))"
    "debug_build E \<longrightarrow> unat bal = sum_list (map (\<lambda>it. unat (source_value it)) (builder_sources b))"
    "total = fee * size_of_tx E (draft_tx E b p bal)"
    "debug_build E \<longrightarrow> unat total = unat fee * unat (size_of_tx E (draft_tx E b p bal))"
    "total \<le> bal" "tx = draft_tx E b p (bal - total)" "inputs = map snd (builder_sources b)"
proof -
  from ok obtain height hash where p: "builder_payload b = Some (height, hash)"
    by (auto simp: create_def outcome_simps split: if_splits)
  from ok laws obtain fee where f: "builder_fee b = Some fee"
    by (auto simp: create_def outcome_simps Let_def payload_script_eq split: if_splits)
  let ?p = "\<lparr>block_height = height, block_hash = hash, prev_tx_chain = builder_recovery_tx b\<rparr>"
  from ok obtain input txs bal where
    ci: "(create_inputs E [] [] 0 (builder_sources b) :: (_, builder_error) outcome) =
           Ok (input, txs, bal)"
    and txs: "txs \<noteq> []"
    and total: "\<exists>total. mul_u64 (debug_build E) fee (size_of_tx E (draft_tx E b ?p bal)) =
           (Ok total :: (_, builder_error) outcome) \<and> total \<le> bal \<and>
           tx = draft_tx E b ?p (bal - total) \<and> inputs = txs"
    unfolding create_eq [OF laws p f refl]
    by (auto simp: outcome_simps not_less split: if_splits)
  then obtain total where t: "mul_u64 (debug_build E) fee (size_of_tx E (draft_tx E b ?p bal)) =
           (Ok total :: (_, builder_error) outcome)" "total \<le> bal"
           "tx = draft_tx E b ?p (bal - total)" "inputs = txs" by blast
  have "total = fee * size_of_tx E (draft_tx E b ?p bal)"
    and "debug_build E \<longrightarrow> unat total = unat fee * unat (size_of_tx E (draft_tx E b ?p bal))"
    using t(1) by (auto simp: mul_u64_def unat_word_ariths split: if_splits)
  with p f t txs create_inputs_OkD [OF ci] show thesis
    by (intro that [of height hash fee ?p bal total]) auto
qed

section \<open>Properties of the builder\<close>

text \<open>
  C30. What a created transaction is: it spends output 0 of the previous anchoring transaction
  first, when there is one, and then the funding outputs that were added, in the order and with the
  output indices they were added with, each with an empty script and witness, and it returns
  exactly these transactions as its inputs; it has version 2 and no lock time and two outputs, the
  second is worth nothing, and its metadata are the target script (the transition script when
  there is one) and the payload that was set, with the recovery id. So the result is always
  recognised as an anchoring transaction.
\<close>

theorem create_shape:
  assumes "crate_laws E" and "create E b = Ok (tx, inputs)"
    and "builder_payload b = Some (height, hash)"
  shows "inputs = (case builder_prev_tx b of None \<Rightarrow> [] | Some prev \<Rightarrow> [prev]) @
      map snd (builder_additional_funds b) \<and> inputs \<noteq> [] \<and>
    tx_input tx = map (\<lambda>(i, t).
        \<lparr>previous_output = \<lparr>op_txid = txid_of E t, op_vout = of_nat i\<rparr>,
         script_sig = [], sequence = 0xFFFFFFFF, witness = []\<rparr>)
      ((case builder_prev_tx b of None \<Rightarrow> [] | Some prev \<Rightarrow> [(0, prev)]) @
       builder_additional_funds b) \<and>
    tx_version tx = 2 \<and> lock_time tx = 0 \<and>
    length (tx_output tx) = 2 \<and> txout_value (tx_output tx ! 1) = 0 \<and>
    anchoring_metadata E tx = (Ok (Some
      (case builder_transit_to b of None \<Rightarrow> builder_script_pubkey b | Some script \<Rightarrow> script,
       \<lparr>block_height = height, block_hash = hash, prev_tx_chain = builder_recovery_tx b\<rparr>))
      :: (_, 'e) outcome)"
proof -
  have txin: "funding_txin E = (\<lambda>(i, t).
      \<lparr>previous_output = \<lparr>op_txid = txid_of E t, op_vout = of_nat i\<rparr>,
       script_sig = [], sequence = 0xFFFFFFFF, witness = []\<rparr>)"
    by (auto simp: funding_txin_def)
  have "hash_laws E" using assms(1) by (simp add: crate_laws_def)
  then show ?thesis
    using assms(1,3)
    by - (rule create_OkD [OF assms(1,2)],
      simp add: anchoring_metadata_eq tx_metadata_draft_tx builder_output_def builder_sources_def
        txin draft_tx_version split: option.split)
qed

text \<open>A builder for the witnesses: one funding output of 2000 satoshis, ten per byte.\<close>

definition sample_funding :: "u64 \<Rightarrow> transaction" where
  "sample_funding v = \<lparr>tx_version = 2, lock_time = 0, tx_input = [], tx_output =
     [\<lparr>txout_value = v, script_pubkey = ref_to_v0_p2wsh (Redeem_Script [1, 7])\<rparr>]\<rparr>"

definition sample_builder :: "u64 \<Rightarrow> u64 \<Rightarrow> tx_builder" where
  "sample_builder v fee =
     (tx_builder_new (ref_env False) (Redeem_Script [1, 7]))\<lparr>
        builder_additional_funds := [(0, sample_funding v)],
        builder_fee := Some fee, builder_payload := Some (0, Hash 7)\<rparr>"

lemma sample_builder_simps:
  "builder_sources (sample_builder v fee) = [(0, sample_funding v)]"
  "builder_output (sample_builder v fee) = ref_to_v0_p2wsh (Redeem_Script [1, 7])"
  "builder_payload (sample_builder v fee) = Some (0, Hash 7)"
  "builder_fee (sample_builder v fee) = Some fee"
  "builder_recovery_tx (sample_builder v fee) = None"
  by (simp_all add: builder_sources_def builder_output_def sample_builder_def tx_builder_new_def)

text \<open>The size of a regular anchoring transaction that pays to a multi-signature address.\<close>

lemma ref_draft_size:
  assumes "builder_sources b \<noteq> []" "length (builder_sources b) < 253" "length (builder_output b) = 34"
    and "prev_tx_chain p = None"
  shows "size_of_tx (ref_env dbg) (draft_tx (ref_env dbg) b p bal) = of_nat (112 + 41 * length (builder_sources b))"
proof -
  let ?tx = "draft_tx (ref_env dbg) b p bal"
  have ins: "tx_input ?tx \<noteq> []" "list_all (\<lambda>i. witness i = []) (tx_input ?tx)"
    using assms(1) by (simp_all add: draft_tx_def unsigned_tx_def funding_txin_def list_all_iff)
  have "length (payload_bytes (ref_env dbg) p) = 48" using assms(4) by (simp add: length_payload_bytes)
  then have "length (encode_tx ?tx) = 112 + 41 * length (builder_sources b)"
    using assms(2,3)
    by (subst length_encode_tx [OF ins]) (simp add: draft_tx_def unsigned_tx_def length_compact_size comp_def
        length_write_tx_in length_write_tx_out funding_txin_def ref_op_return_script_def sum_list_triv)
  then show ?thesis by (simp add: size_of_tx_def)
qed

lemma sample_size: "size_of_tx (ref_env dbg) (draft_tx (ref_env dbg) (sample_builder v fee)
    \<lparr>block_height = 0, block_hash = Hash 7, prev_tx_chain = None\<rparr> bal) = 153"
  by (subst ref_draft_size) (simp_all add: sample_builder_simps ref_to_v0_p2wsh_def)

lemma sample_create:
  "create (ref_env dbg) (sample_builder v fee) =
     bind_oc (mul_u64 dbg fee 153) (\<lambda>total_fee.
       if total_fee > v then Err (Builder_InsufficientFunds total_fee v)
       else Ok (draft_tx (ref_env dbg) (sample_builder v fee)
         \<lparr>block_height = 0, block_hash = Hash 7, prev_tx_chain = None\<rparr> (v - total_fee),
         [sample_funding v]))"
proof -
  have out: "index_at (tx_output (sample_funding v)) 0 = Ok (tx_output (sample_funding v) ! 0)"
    by (simp add: index_at_def sample_funding_def)
  have val: "txout_value (tx_output (sample_funding v) ! 0) = v"
    by (simp add: sample_funding_def)
  have add: "add_u64 dbg 0 v = Ok v"
    using unat_less_2p [of v] by (simp add: add_u64_def)
  show ?thesis
    by (simp add: create_eq [OF ref_crate_laws sample_builder_simps(3,4) refl] out val add
        sample_builder_simps(1,5) sample_size cong: if_cong)
qed

text \<open>The same builder with a previous anchoring transaction, and a funding output at index 1.\<close>

definition chained_funding :: "transaction" where
  "chained_funding = \<lparr>tx_version = 2, lock_time = 0, tx_input = [], tx_output =
     [\<lparr>txout_value = 9, script_pubkey = []\<rparr>,
      \<lparr>txout_value = 500, script_pubkey = ref_to_v0_p2wsh (Redeem_Script [1, 7])\<rparr>]\<rparr>"

definition chained_builder :: "tx_builder" where
  "chained_builder = (sample_builder 2000 10)\<lparr>
     builder_prev_tx := Some (sample_funding 3000),
     builder_additional_funds := [(1, chained_funding), (0, sample_funding 2000)]\<rparr>"

lemma chained_builder_simps:
  "builder_sources chained_builder =
     [(0, sample_funding 3000), (1, chained_funding), (0, sample_funding 2000)]"
  "builder_output chained_builder = ref_to_v0_p2wsh (Redeem_Script [1, 7])"
  "builder_payload chained_builder = Some (0, Hash 7)"
  "builder_fee chained_builder = Some 10"
  "builder_recovery_tx chained_builder = None"
  by (simp_all add: builder_sources_def builder_output_def chained_builder_def sample_builder_def
      tx_builder_new_def)

lemma chained_size: "size_of_tx (ref_env dbg) (draft_tx (ref_env dbg) chained_builder
    \<lparr>block_height = 0, block_hash = Hash 7, prev_tx_chain = None\<rparr> bal) = 235"
  by (subst ref_draft_size) (simp_all add: chained_builder_simps ref_to_v0_p2wsh_def)

lemma chained_create:
  "create (ref_env dbg) chained_builder =
     Ok (draft_tx (ref_env dbg) chained_builder
        \<lparr>block_height = 0, block_hash = Hash 7, prev_tx_chain = None\<rparr> 3150,
         [sample_funding 3000, chained_funding, sample_funding 2000])"
  by (simp add: create_eq [OF ref_crate_laws chained_builder_simps(3,4) refl]
      chained_builder_simps(1,5) chained_size index_at_def get_nth_def sample_funding_def
      chained_funding_def add_u64_def mul_u64_def)

theorem create_shape_witness:
  "\<exists>tx. create (ref_env True) chained_builder =
       Ok (tx, [sample_funding 3000, chained_funding, sample_funding 2000]) \<and>
     map previous_output (tx_input tx) =
       [\<lparr>op_txid = txid_of (ref_env True) (sample_funding 3000), op_vout = 0\<rparr>,
        \<lparr>op_txid = txid_of (ref_env True) chained_funding, op_vout = 1\<rparr>,
        \<lparr>op_txid = txid_of (ref_env True) (sample_funding 2000), op_vout = 0\<rparr>] \<and>
     length (tx_output tx) = 2 \<and> txout_value (tx_output tx ! 1) = 0"
proof -
  note shape = create_shape [OF ref_crate_laws chained_create chained_builder_simps(3), of True]
  have funds: "builder_prev_tx chained_builder = Some (sample_funding 3000)"
    "builder_additional_funds chained_builder = [(1, chained_funding), (0, sample_funding 2000)]"
    by (simp_all add: chained_builder_def)
  show ?thesis
    unfolding chained_create using shape [unfolded funds]
    by (auto simp del: draft_tx_simps)
qed

text \<open>
  C31. Value is conserved: as long as the spent outputs' total and the fee of this transaction fit
  in 64 bits (which a debug build checks by itself), the value left in the first output plus the
  fee is exactly the sum of the spent outputs. The fee is the rate times the size of the unsigned
  transaction as it was before the fee was taken, that is with the whole sum in its first output.
\<close>

theorem create_conserves_value:
  assumes "crate_laws E" and "create E b = Ok (tx, inputs)"
    and "builder_fee b = Some fee"
    and "sources = (case builder_prev_tx b of None \<Rightarrow> [] | Some prev \<Rightarrow> [(0, prev)]) @
      builder_additional_funds b"
    and "spent = (\<Sum>(i, t) \<leftarrow> sources. unat (txout_value (tx_output t ! i)))"
    and "raw = tx\<lparr>tx_output :=
      (tx_output tx)[0 := (tx_output tx ! 0)\<lparr>txout_value := of_nat spent\<rparr>]\<rparr>"
    and "debug_build E \<or>
      (spent < 2 ^ 64 \<and> unat fee * unat (size_of_tx E raw) < 2 ^ 64)"
  shows "unat (txout_value (tx_output tx ! 0)) + unat fee * unat (size_of_tx E raw) = spent"
proof -
  have src: "builder_sources b = sources"
    using assms(4) by (simp add: builder_sources_def)
  have val: "(\<lambda>it. unat (source_value it)) = (\<lambda>(i, t). unat (txout_value (tx_output t ! i)))"
    by (auto simp: source_value_def)
  obtain fee' p bal fees where
    fee': "builder_fee b = Some fee'"
    and rng: "\<forall>it \<in> set (builder_sources b). source_in_range it"
    and bal: "bal = sum_list (map source_value (builder_sources b))"
      "debug_build E \<longrightarrow> unat bal = sum_list (map (\<lambda>it. unat (source_value it)) (builder_sources b))"
    and fees: "fees = fee' * size_of_tx E (draft_tx E b p bal)"
      "debug_build E \<longrightarrow> unat fees = unat fee' * unat (size_of_tx E (draft_tx E b p bal))"
    and le: "fees \<le> bal" and tx: "tx = draft_tx E b p (bal - fees)"
    by (rule create_OkD [OF assms(1,2)]) (rule that)
  have fee: "fee' = fee" using fee' assms(3) by simp
  have b: "unat bal = spent"
    using bal assms(5,7) create_inputs_exact(2) [OF rng, of 0] by (auto simp: src val)
  have "of_nat spent = bal" by (simp flip: b)
  then have raw: "raw = draft_tx E b p bal"
    using draft_tx_restore [of E b p "bal - fees" bal] by (simp add: assms(6) tx)
  have t: "unat fees = unat fee * unat (size_of_tx E raw)"
    using fees assms(7) mul_u64_exact(2) [of fee "size_of_tx E raw"] by (auto simp: fee raw)
  have "unat (bal - fees) + unat fees = unat bal"
    using le by (simp add: unat_sub word_le_nat_alt)
  with b t show ?thesis by (simp add: tx)
qed

text \<open>The witness spends 5500 satoshis at ten per byte, in a release and in a debug build.\<close>

theorem create_conserves_value_witness:
  "\<forall>dbg. \<exists>tx inputs. create (ref_env dbg) chained_builder = Ok (tx, inputs) \<and>
     unat (txout_value (tx_output tx ! 0)) = 3150 \<and>
     unat (txout_value (tx_output tx ! 0)) + 10 * 235 = 3000 + 500 + 2000"
proof
  fix dbg :: bool
  let ?tx = "draft_tx (ref_env dbg) chained_builder
    \<lparr>block_height = 0, block_hash = Hash 7, prev_tx_chain = None\<rparr> 3150"
  have spent: "(5500 :: nat) = (\<Sum>(i, t) \<leftarrow> builder_sources chained_builder.
      unat (txout_value (tx_output t ! i)))"
    by (simp add: chained_builder_simps sample_funding_def chained_funding_def)
  have size: "size_of_tx (ref_env dbg) (?tx\<lparr>tx_output :=
      (tx_output ?tx)[0 := (tx_output ?tx ! 0)\<lparr>txout_value := of_nat 5500\<rparr>]\<rparr>) = 235"
    by (subst draft_tx_restore) (rule chained_size)
  have "unat (txout_value (tx_output ?tx ! 0)) + unat (10 :: u64) * unat (235 :: u64) = 5500"
    using create_conserves_value [OF ref_crate_laws chained_create chained_builder_simps(4)
        builder_sources_def spent refl, of dbg] unfolding size by simp
  then have "unat (txout_value (tx_output ?tx ! 0)) + 10 * 235 = 3000 + 500 + 2000" by simp
  then show "\<exists>tx inputs. create (ref_env dbg) chained_builder = Ok (tx, inputs) \<and>
     unat (txout_value (tx_output tx ! 0)) = 3150 \<and>
     unat (txout_value (tx_output tx ! 0)) + 10 * 235 = 3000 + 500 + 2000"
    unfolding chained_create by simp
qed

text \<open>
  C32. The builder decides correctly between its three results: with amounts that fit in 64 bits
  and outputs that exist, \<open>create\<close> never panics, returns \<open>NoInputs\<close> exactly when there is nothing
  to spend, \<open>InsufficientFunds\<close> with the fee and the balance exactly when the fee for the
  unsigned transaction's size exceeds the sum of the inputs, and the transaction otherwise.
\<close>

theorem create_decides:
  assumes "crate_laws E"
    and "builder_payload b = Some (height, hash)" and "builder_fee b = Some fee"
    and "\<forall>it \<in> set (builder_sources b). source_in_range it"
    and "sum_list (map (\<lambda>it. unat (source_value it)) (builder_sources b)) < 2 ^ 64"
    and "unat fee * unat (size_of_tx E (draft_tx E b
        \<lparr>block_height = height, block_hash = hash, prev_tx_chain = builder_recovery_tx b\<rparr>
        (sum_list (map source_value (builder_sources b))))) < 2 ^ 64"
  shows "\<exists>bal total.
    unat bal = sum_list (map (\<lambda>it. unat (source_value it)) (builder_sources b)) \<and>
    unat total = unat fee * unat (size_of_tx E (draft_tx E b
        \<lparr>block_height = height, block_hash = hash, prev_tx_chain = builder_recovery_tx b\<rparr> bal)) \<and>
    create E b =
      (if builder_sources b = [] then Err Builder_NoInputs
       else if unat bal < unat total then Err (Builder_InsufficientFunds total bal)
       else Ok (draft_tx E b
          \<lparr>block_height = height, block_hash = hash, prev_tx_chain = builder_recovery_tx b\<rparr>
          (bal - total), map snd (builder_sources b)))"
proof -
  let ?p = "\<lparr>block_height = height, block_hash = hash, prev_tx_chain = builder_recovery_tx b\<rparr>"
  let ?bal = "sum_list (map source_value (builder_sources b))"
  let ?total = "fee * size_of_tx E (draft_tx E b ?p ?bal)"
  have ci: "create_inputs E [] [] 0 (builder_sources b) =
      Ok (map (funding_txin E) (builder_sources b), map snd (builder_sources b), ?bal)"
    and bal: "unat ?bal = sum_list (map (\<lambda>it. unat (source_value it)) (builder_sources b))"
    using assms(5) create_inputs_exact(2) [OF assms(4), of 0]
    by (simp_all add: create_inputs_exact(1) [OF assms(4)])
  have "create E b =
      (if builder_sources b = [] then Err Builder_NoInputs
       else if unat ?bal < unat ?total then Err (Builder_InsufficientFunds ?total ?bal)
       else Ok (draft_tx E b ?p (?bal - ?total), map snd (builder_sources b)))"
    by (simp add: create_eq [OF assms(1-3) refl] ci mul_u64_exact(1) [OF assms(6)]
        word_less_nat_alt)
  with bal mul_u64_exact(2) [OF assms(6)] show ?thesis by blast
qed

theorem create_decides_witness:
  "\<exists>bal total. unat (bal :: u64) = 200 \<and> unat (total :: u64) = 1530 \<and>
     create (ref_env True) (sample_builder 200 10) = Err (Builder_InsufficientFunds total bal)"
proof -
  have src: "source_value (0, sample_funding 200) = 200" "source_in_range (0, sample_funding 200)"
    by (simp_all add: source_value_def source_in_range_def sample_funding_def)
  have size: "size_of_tx (ref_env True) (draft_tx (ref_env True) (sample_builder 200 10)
      \<lparr>block_height = 0, block_hash = Hash 7,
       prev_tx_chain = builder_recovery_tx (sample_builder 200 10)\<rparr> bal) = 153" for bal
    by (simp add: sample_builder_simps(5) sample_size)
  have "\<exists>bal total. unat bal = 200 \<and> unat total = 1530 \<and>
      create (ref_env True) (sample_builder 200 10) =
        (if unat bal < unat total then Err (Builder_InsufficientFunds total bal)
         else Ok (draft_tx (ref_env True) (sample_builder 200 10)
           \<lparr>block_height = 0, block_hash = Hash 7,
            prev_tx_chain = builder_recovery_tx (sample_builder 200 10)\<rparr> (bal - total),
           [sample_funding 200]))"
    using create_decides [OF ref_crate_laws sample_builder_simps(3,4), of 200 10 True]
    unfolding size sample_builder_simps(1) by (simp add: src split del: if_split cong: if_cong)
  then show ?thesis by fastforce
qed

text \<open>
  C33. The multiplication of the fee rate by the size is not checked in a release build. Whenever
  the inputs exist and their sum fits in 64 bits but the fee for the unsigned transaction does not,
  a debug build panics, while a release build charges the fee modulo 2^64, which is less than the
  rate asks for: it answers \<open>InsufficientFunds\<close> with the reduced fee when even that exceeds the
  balance, and otherwise returns a transaction that pays only the reduced fee.
\<close>

theorem create_fee_wraps:
  assumes "crate_laws E"
    and "builder_payload b = Some (height, hash)" and "builder_fee b = Some fee"
    and "sources = (case builder_prev_tx b of None \<Rightarrow> [] | Some prev \<Rightarrow> [(0, prev)]) @
      builder_additional_funds b"
    and "sources \<noteq> []" and "\<forall>(i, t) \<in> set sources. i < length (tx_output t)"
    and "spent = (\<Sum>(i, t) \<leftarrow> sources. unat (txout_value (tx_output t ! i)))" and "spent < 2 ^ 64"
    and "p = \<lparr>block_height = height, block_hash = hash, prev_tx_chain = builder_recovery_tx b\<rparr>"
    and "due = unat fee * unat (size_of_tx E (draft_tx E b p (of_nat spent)))" and "2 ^ 64 \<le> due"
  shows "if debug_build E then create E b = Panic Arithmetic_Overflow
    else \<exists>charged. charged = due mod 2 ^ 64 \<and> charged < due \<and>
      create E b =
        (if spent < charged
         then Err (Builder_InsufficientFunds (of_nat charged) (of_nat spent))
         else Ok (draft_tx E b p (of_nat (spent - charged)), map snd sources))"
proof -
  have src: "builder_sources b = sources"
    using assms(4) by (simp add: builder_sources_def)
  have val: "(\<lambda>it. unat (source_value it)) = (\<lambda>(i, t). unat (txout_value (tx_output t ! i)))"
    by (auto simp: source_value_def)
  have rng: "\<forall>it \<in> set sources. source_in_range it"
    using assms(6) by (auto simp: source_in_range_def)
  have sum: "unat (0 :: u64) + sum_list (map (\<lambda>it. unat (source_value it)) sources) < 2 ^ 64"
    using assms(7,8) by (simp add: val)
  define bal where "bal = sum_list (map source_value sources)"
  have bal: "unat bal = spent"
    using create_inputs_exact(2) [OF rng sum] assms(7) by (simp add: val bal_def)
  define size where "size = size_of_tx E (draft_tx E b p bal)"
  have tot: "of_nat spent = bal" by (simp flip: bal)
  have due: "due = unat fee * unat size" using assms(10) by (simp add: size_def tot)
  define charged where "charged = due mod 2 ^ 64"
  have wrap: "unat (fee * size) = charged" by (simp add: charged_def due unat_word_ariths)
  have charge: "of_nat charged = fee * size" by (simp flip: wrap)
  have step: "create E b = bind_oc (mul_u64 (debug_build E) fee size) (\<lambda>total_fee.
      if total_fee > bal then Err (Builder_InsufficientFunds total_fee bal)
      else Ok (draft_tx E b p (bal - total_fee), map snd sources))"
    using assms(5)
    by (simp add: create_eq [OF assms(1-3,9)] src create_inputs_exact(1) [OF rng sum] bal_def
        size_def cong: if_cong)
  show ?thesis
  proof (cases "debug_build E")
    case True
    then show ?thesis using step assms(11) by (simp add: mul_u64_def due)
  next
    case False
    have "charged < 2 ^ 64" by (simp add: charged_def)
    then have less: "charged < due" using assms(11) by (rule less_le_trans)
    have paid: "of_nat (spent - charged) = bal - fee * size" if "\<not> spent < charged"
      using that by (simp add: of_nat_diff tot charge)
    have "create E b = (if spent < charged
        then Err (Builder_InsufficientFunds (of_nat charged) (of_nat spent))
        else Ok (draft_tx E b p (of_nat (spent - charged)), map snd sources))"
      using step False paid by (simp add: mul_u64_def charge tot word_less_nat_alt wrap bal)
    with less False charged_def show ?thesis by simp
  qed
qed

text \<open>
  At a rate of more than 6 * 10^18 satoshis per byte the sample builder's transaction of 153 bytes
  passes the balance test of a release build with a total fee of one satoshi.
\<close>

theorem create_fee_wraps_witness:
  "create (ref_env False) (sample_builder 2000 6028347736506389417) =
     Ok (draft_tx (ref_env False) (sample_builder 2000 6028347736506389417)
        \<lparr>block_height = 0, block_hash = Hash 7, prev_tx_chain = None\<rparr> 1999, [sample_funding 2000])
   \<and> create (ref_env True) (sample_builder 2000 6028347736506389417) = Panic Arithmetic_Overflow"
proof -
  let ?b = "sample_builder 2000 6028347736506389417"
  let ?p = "\<lparr>block_height = 0, block_hash = Hash 7, prev_tx_chain = None\<rparr>"
  have p: "?p = \<lparr>block_height = 0, block_hash = Hash 7, prev_tx_chain = builder_recovery_tx ?b\<rparr>"
    by (simp add: sample_builder_simps)
  have spent: "(2000 :: nat) = (\<Sum>(i, t) \<leftarrow> builder_sources ?b. unat (txout_value (tx_output t ! i)))"
    by (simp add: sample_builder_simps sample_funding_def)
  have src: "builder_sources ?b \<noteq> []" "\<forall>(i, t) \<in> set (builder_sources ?b). i < length (tx_output t)"
    by (simp_all add: sample_builder_simps sample_funding_def)
  have due: "922337203685477580801 = unat (6028347736506389417 :: u64) *
      unat (size_of_tx (ref_env dbg) (draft_tx (ref_env dbg) ?b ?p (of_nat 2000)))" for dbg
    by (simp add: sample_size)
  note wraps = create_fee_wraps [OF ref_crate_laws sample_builder_simps(3,4)
      builder_sources_def src spent _ p due]
  show ?thesis
    using wraps [of False] wraps [of True] by (simp add: sample_builder_simps)
qed

end
