(* ===== verification/Binary_Map.thy ===== *)
theory Binary_Map
  imports Externals
begin

text \<open>
  The ordered maps the service stores in its index entries, \<open>src/proto/binary_map.rs\<close>:
  \<open>BinaryMap\<close> wraps a standard \<open>BTreeMap\<close>, which is modelled as an association list with
  strictly increasing keys (iteration is in key order). First the \<open>BTreeMap\<close> operations with
  their contract as a locale, then the conversion to and from the Protobuf message, which is
  described exactly on every byte string. The byte
  encodings of keys and values, the generated message types and the Protobuf runtime are the
  parameters in the record \<open>map_codec\<close>.
\<close>

section \<open>BTreeMap\<close>

type_synonym ('k, 'v) binary_map = "('k \<times> 'v) list"

definition bmap_default :: "('k, 'v) binary_map" where
  "bmap_default = []"

fun bmap_insert :: "'k::linorder \<Rightarrow> 'v \<Rightarrow> ('k, 'v) binary_map \<Rightarrow> ('k, 'v) binary_map" where
  "bmap_insert k v [] = [(k, v)]"
| "bmap_insert k v ((j, w) # m) =
     (if k < j then (k, v) # (j, w) # m
      else if k = j then (k, v) # m
      else (j, w) # bmap_insert k v m)"

definition bmap_get :: "('k, 'v) binary_map \<Rightarrow> 'k \<Rightarrow> 'v option" where
  "bmap_get m k = map_of m k"

definition bmap_len :: "('k, 'v) binary_map \<Rightarrow> nat" where
  "bmap_len m = length m"

definition bmap_values :: "('k, 'v) binary_map \<Rightarrow> 'v list" where
  "bmap_values m = map snd m"

definition bmap_ordered :: "('k::linorder, 'v) binary_map \<Rightarrow> bool" where
  "bmap_ordered m \<longleftrightarrow> sorted_wrt (<) (map fst m)"

text \<open>
  What the service relies on of such a map: a lookup sees the last insert, the length counts the
  distinct keys, and the invariant is kept.
\<close>

locale counted_map =
  fixes empty_map :: 'm
    and insert_map :: "'k \<Rightarrow> 'v \<Rightarrow> 'm \<Rightarrow> 'm"
    and lookup :: "'m \<Rightarrow> 'k \<Rightarrow> 'v option"
    and size_of :: "'m \<Rightarrow> nat"
    and invar :: "'m \<Rightarrow> bool"
  assumes lookup_empty: "lookup empty_map k = None"
    and size_empty: "size_of empty_map = 0"
    and invar_empty: "invar empty_map"
    and lookup_insert: "invar m \<Longrightarrow> lookup (insert_map k v m) = (lookup m)(k \<mapsto> v)"
    and size_card: "invar m \<Longrightarrow> size_of m = card (dom (lookup m))"
    and finite_keys: "invar m \<Longrightarrow> finite (dom (lookup m))"
    and invar_insert: "invar m \<Longrightarrow> invar (insert_map k v m)"
begin

lemma size_insert:
  assumes "invar m"
  shows "size_of (insert_map k v m) = (if lookup m k = None then Suc (size_of m) else size_of m)"
  using assms finite_keys [OF assms]
  by (auto simp: size_card invar_insert lookup_insert card_insert_if)

lemma size_le_card:
  assumes "invar m" "finite K" "dom (lookup m) \<subseteq> K"
  shows "size_of m \<le> card K"
  using assms by (simp add: size_card card_mono)

text \<open>Entries for the keys of a list, one after the other.\<close>

lemma foldl_insert_invar:
  "invar m \<Longrightarrow> invar (foldl (\<lambda>m p. insert_map (fst p) (snd p) m) m ps)"
  by (induction ps arbitrary: m) (auto simp: invar_insert)

end

lemma bmap_ordered_Nil [simp]: "bmap_ordered []"
  by (simp add: bmap_ordered_def)

lemma bmap_ordered_Cons:
  "bmap_ordered ((k, v) # m) \<longleftrightarrow> (\<forall>j \<in> fst ` set m. k < j) \<and> bmap_ordered m"
  by (auto simp: bmap_ordered_def)

lemma keys_bmap_insert: "fst ` set (bmap_insert k v m) = insert k (fst ` set m)"
  by (induction k v m rule: bmap_insert.induct) auto

lemma bmap_ordered_insert: "bmap_ordered m \<Longrightarrow> bmap_ordered (bmap_insert k v m)"
  by (induction k v m rule: bmap_insert.induct)
    (auto simp: bmap_ordered_Cons keys_bmap_insert not_less intro: less_trans)

lemma map_of_bmap_insert: "map_of (bmap_insert k v m) = (map_of m)(k \<mapsto> v)"
  by (induction k v m rule: bmap_insert.induct) (auto simp: fun_eq_iff)

lemma bmap_ordered_distinct: "bmap_ordered m \<Longrightarrow> distinct (map fst m)"
  by (simp add: bmap_ordered_def strict_sorted_iff)

lemma bmap_get_eq_map_of: "bmap_get m = map_of m"
  by (simp add: fun_eq_iff bmap_get_def)

lemma bmap_keys: "dom (bmap_get m) = fst ` set m"
  by (simp add: bmap_get_eq_map_of dom_map_of_conv_image_fst)

interpretation btree: counted_map bmap_default bmap_insert bmap_get bmap_len bmap_ordered
proof
  show "bmap_len m = card (dom (bmap_get m))" if "bmap_ordered m" for m :: "('a \<times> 'b) list"
    using distinct_card [OF bmap_ordered_distinct [OF that]] by (simp add: bmap_len_def bmap_keys)
qed (simp_all add: bmap_default_def bmap_get_eq_map_of bmap_len_def map_of_bmap_insert
    bmap_ordered_insert finite_dom_map_of)

text \<open>Appending a key above all others, the shape in which an ordered list is rebuilt.\<close>

lemma bmap_insert_last:
  "\<forall>j \<in> fst ` set m. j < k \<Longrightarrow> bmap_insert k v m = m @ [(k, v)]"
  by (induction k v m rule: bmap_insert.induct) auto

lemma foldl_bmap_insert:
  "bmap_ordered (acc @ m) \<Longrightarrow> foldl (\<lambda>m p. bmap_insert (fst p) (snd p) m) acc m = acc @ m"
proof (induction m arbitrary: acc)
  case Nil
  then show ?case by simp
next
  case (Cons p m)
  have "\<forall>j \<in> fst ` set acc. j < fst p"
    using Cons.prems by (auto simp: bmap_ordered_def sorted_wrt_append)
  then have "bmap_insert (fst p) (snd p) acc = acc @ [p]"
    by (simp add: bmap_insert_last)
  with Cons show ?case by simp
qed

section \<open>Protobuf conversion\<close>

record key_value =
  kv_key :: bytes
  kv_value :: bytes

text \<open>
  \<open>BinaryValue\<close> for the key and the value type, the generated message \<open>internal::KeyValue\<close>
  with its derived conversions, and the encoding of a message of repeated pairs.
\<close>

record ('k, 'v, 'pb) map_codec =
  key_to_bytes :: "'k \<Rightarrow> bytes"
  key_from_bytes :: "bytes \<Rightarrow> lib_error + 'k"
  value_to_bytes :: "'v \<Rightarrow> bytes"
  value_from_bytes :: "bytes \<Rightarrow> lib_error + 'v"
  kv_to_pb :: "key_value \<Rightarrow> 'pb"
  kv_from_pb :: "'pb \<Rightarrow> lib_error + key_value"
  write_to_bytes :: "'pb list \<Rightarrow> bytes"
  merge_from_bytes :: "bytes \<Rightarrow> lib_error + 'pb list"
  crypto_hash :: "bytes \<Rightarrow> hash"

definition pair_to_key_value_pb :: "('k, 'v, 'pb) map_codec \<Rightarrow> 'k \<times> 'v \<Rightarrow> 'pb" where
  "pair_to_key_value_pb C pair =
     kv_to_pb C \<lparr>kv_key = key_to_bytes C (fst pair), kv_value = value_to_bytes C (snd pair)\<rparr>"

definition key_value_pb_to_pair ::
  "('k, 'v, 'pb) map_codec \<Rightarrow> 'pb \<Rightarrow> ('k \<times> 'v, lib_error) outcome" where
  "key_value_pb_to_pair C pb =
     bind_oc (of_sum (kv_from_pb C pb)) (\<lambda>kv.
     bind_oc (of_sum (key_from_bytes C (kv_key kv))) (\<lambda>key.
     bind_oc (of_sum (value_from_bytes C (kv_value kv))) (\<lambda>val.
     Ok (key, val))))"

definition binary_map_to_pb ::
  "('k, 'v, 'pb) map_codec \<Rightarrow> ('k, 'v) binary_map \<Rightarrow> 'pb list" where
  "binary_map_to_pb C m = map (pair_to_key_value_pb C) m"

text \<open>\<open>collect\<close> into a \<open>Result\<close> of a map: the first error stops it, a repeated key replaces.\<close>

fun collect_map :: "('k::linorder, 'v, 'pb) map_codec \<Rightarrow> ('k, 'v) binary_map \<Rightarrow> 'pb list \<Rightarrow>
   (('k, 'v) binary_map, lib_error) outcome" where
  "collect_map C m [] = Ok m"
| "collect_map C m (pb # pbs) =
     bind_oc (key_value_pb_to_pair C pb) (\<lambda>p. collect_map C (bmap_insert (fst p) (snd p) m) pbs)"

definition binary_map_from_pb ::
  "('k::linorder, 'v, 'pb) map_codec \<Rightarrow> 'pb list \<Rightarrow> (('k, 'v) binary_map, lib_error) outcome" where
  "binary_map_from_pb C pbs = collect_map C bmap_default pbs"

definition binary_map_to_bytes ::
  "('k, 'v, 'pb) map_codec \<Rightarrow> ('k, 'v) binary_map \<Rightarrow> bytes" where
  "binary_map_to_bytes C m = write_to_bytes C (binary_map_to_pb C m)"

definition binary_map_from_bytes ::
  "('k::linorder, 'v, 'pb) map_codec \<Rightarrow> bytes \<Rightarrow> (('k, 'v) binary_map, lib_error) outcome" where
  "binary_map_from_bytes C b =
     bind_oc (of_sum (merge_from_bytes C b)) (\<lambda>pb. binary_map_from_pb C pb)"

definition binary_map_object_hash ::
  "('k, 'v, 'pb) map_codec \<Rightarrow> ('k, 'v) binary_map \<Rightarrow> hash" where
  "binary_map_object_hash C m = crypto_hash C (binary_map_to_bytes C m)"

text \<open>The encodings the conversion relies on are read back as written.\<close>

definition map_codec_laws :: "('k, 'v, 'pb) map_codec \<Rightarrow> bool" where
  "map_codec_laws C \<longleftrightarrow>
     (\<forall>k. key_from_bytes C (key_to_bytes C k) = Inr k) \<and>
     (\<forall>v. value_from_bytes C (value_to_bytes C v) = Inr v) \<and>
     (\<forall>kv. kv_from_pb C (kv_to_pb C kv) = Inr kv) \<and>
     (\<forall>pbs. merge_from_bytes C (write_to_bytes C pbs) = Inr pbs)"

lemma key_value_roundtrip:
  "map_codec_laws C \<Longrightarrow> key_value_pb_to_pair C (pair_to_key_value_pb C p) = Ok p"
  by (simp add: key_value_pb_to_pair_def pair_to_key_value_pb_def map_codec_laws_def)

lemma collect_map_to_pb:
  "map_codec_laws C \<Longrightarrow> collect_map C acc (binary_map_to_pb C m) =
     Ok (foldl (\<lambda>m p. bmap_insert (fst p) (snd p) m) acc m)"
  by (induction m arbitrary: acc) (simp_all add: binary_map_to_pb_def key_value_roundtrip)

text \<open>
  Decoding any list of messages: it ends with a map exactly when every message converts, and the
  map is then the fold of insertions over the converted pairs. An ordered map is determined by its
  lookups, so the lookups describe the decoded map completely.
\<close>

lemma bmap_ordered_unique:
  assumes "bmap_ordered m" "bmap_ordered m'" "bmap_get m = bmap_get m'"
  shows "m = m'"
proof -
  have sd: "sorted (map fst x)" "distinct (map fst x)" if "bmap_ordered x" for x :: "('a \<times> 'b) list"
    using that by (auto simp: bmap_ordered_def strict_sorted_iff)
  have "p \<in> set m \<longleftrightarrow> p \<in> set m'" for p
    using assms(3) map_of_eq_Some_iff [OF sd(2) [OF assms(1)]]
      map_of_eq_Some_iff [OF sd(2) [OF assms(2)]]
    by (metis bmap_get_eq_map_of prod.collapse)
  then have sets: "set m = set m'" by blast
  have "inj_on fst (set m \<union> set m')"
    using sd(2) [OF assms(1)] sets by (simp add: distinct_map)
  then show ?thesis
    using map_sorted_distinct_set_unique sd [OF assms(1)] sd [OF assms(2)] sets by blast
qed

definition insert_pairs :: "('k::linorder, 'v) binary_map \<Rightarrow> ('k \<times> 'v) list \<Rightarrow> ('k, 'v) binary_map" where
  "insert_pairs m ps = foldl (\<lambda>m p. bmap_insert (fst p) (snd p) m) m ps"

lemma insert_pairs_ordered: "bmap_ordered m \<Longrightarrow> bmap_ordered (insert_pairs m ps)"
  by (simp add: insert_pairs_def btree.foldl_insert_invar)

lemma get_insert_pairs: "bmap_get (insert_pairs m ps) = bmap_get m ++ map_of (rev ps)"
  by (induction ps arbitrary: m)
    (auto simp: insert_pairs_def bmap_get_eq_map_of map_of_bmap_insert)

lemma insert_pairs_default:
  "bmap_ordered (insert_pairs bmap_default ps)"
  "bmap_get (insert_pairs bmap_default ps) = map_of (rev ps)"
  using get_insert_pairs [of "[]" ps]
  by (simp_all add: insert_pairs_ordered bmap_default_def bmap_get_eq_map_of)

lemma collect_map_Ok_iff:
  "collect_map C acc pbs = Ok m \<longleftrightarrow>
     (\<exists>ps. list_all2 (\<lambda>pb p. key_value_pb_to_pair C pb = Ok p) pbs ps \<and> m = insert_pairs acc ps)"
proof (induction C acc pbs rule: collect_map.induct)
  case (1 C acc)
  then show ?case by (auto simp: insert_pairs_def)
next
  case (2 C acc pb pbs)
  have step: "insert_pairs acc (p # ps) = insert_pairs (bmap_insert (fst p) (snd p) acc) ps" for p ps
    by (simp add: insert_pairs_def)
  show ?case
  proof (cases "key_value_pb_to_pair C pb")
    case (Ok p)
    have "collect_map C acc (pb # pbs) = Ok m \<longleftrightarrow> (\<exists>ps.
        list_all2 (\<lambda>pb p. key_value_pb_to_pair C pb = Ok p) pbs ps \<and> m = insert_pairs acc (p # ps))"
      by (simp add: 2 Ok step)
    also have "\<dots> \<longleftrightarrow> (\<exists>ps. list_all2 (\<lambda>pb p. key_value_pb_to_pair C pb = Ok p) (pb # pbs) ps \<and>
        m = insert_pairs acc ps)"
      unfolding list_all2_Cons1 by (metis Ok outcome.inject(1))
    finally show ?thesis .
  qed (auto simp: list_all2_Cons1)
qed

lemma collect_map_ErrD:
  "collect_map C acc pbs = Err e \<Longrightarrow> \<exists>pb \<in> set pbs. key_value_pb_to_pair C pb = Err e"
  by (induction C acc pbs rule: collect_map.induct) (auto simp: outcome_simps)

lemma of_sum_Err_iff: "of_sum s = Err e \<longleftrightarrow> s = Inl e"
  by (cases s) auto

lemma key_value_pb_to_pair_Ok_iff:
  "key_value_pb_to_pair C pb = Ok p \<longleftrightarrow>
     (\<exists>kv. kv_from_pb C pb = Inr kv \<and> key_from_bytes C (kv_key kv) = Inr (fst p) \<and>
       value_from_bytes C (kv_value kv) = Inr (snd p))"
  by (cases p) (auto simp: key_value_pb_to_pair_def outcome_simps)

lemma key_value_pb_to_pair_Err_iff:
  "key_value_pb_to_pair C pb = Err e \<longleftrightarrow> kv_from_pb C pb = Inl e \<or>
     (\<exists>kv. kv_from_pb C pb = Inr kv \<and> (key_from_bytes C (kv_key kv) = Inl e \<or>
       (\<exists>k. key_from_bytes C (kv_key kv) = Inr k) \<and> value_from_bytes C (kv_value kv) = Inl e))"
  by (auto simp: key_value_pb_to_pair_def outcome_simps of_sum_Err_iff)

lemma collect_map_no_panic [simp]: "collect_map C acc pbs \<noteq> Panic q"
  by (induction C acc pbs rule: collect_map.induct)
    (auto simp: outcome_simps key_value_pb_to_pair_def)

section \<open>Properties\<close>

text \<open>
  C39. A stored map survives its encoding: for any key and value encodings that round-trip, the bytes
  of an ordered map decode to the same map, and two ordered maps with the same bytes are equal.
\<close>

theorem binary_map_roundtrip:
  assumes "map_codec_laws C" and "bmap_ordered m"
  shows "binary_map_from_bytes C (binary_map_to_bytes C m) = Ok m"
  using assms foldl_bmap_insert [of "[]" m]
  by (simp add: binary_map_from_bytes_def binary_map_to_bytes_def binary_map_from_pb_def
      bmap_default_def collect_map_to_pb map_codec_laws_def)

text \<open>A concrete codec: byte strings with a marker before each byte, pairs with a marker each.\<close>

fun mark_bytes :: "bytes \<Rightarrow> bytes" where
  "mark_bytes [] = [0]"
| "mark_bytes (x # xs) = 1 # x # mark_bytes xs"

fun unmark_bytes :: "bytes \<Rightarrow> (bytes \<times> bytes) option" where
  "unmark_bytes [] = None"
| "unmark_bytes [x] = (if x = 0 then Some ([], []) else None)"
| "unmark_bytes (x # y # r) =
     (if x = 0 then Some ([], y # r)
      else map_option (\<lambda>(b, t). (y # b, t)) (unmark_bytes r))"

fun mark_pairs :: "key_value list \<Rightarrow> bytes" where
  "mark_pairs [] = []"
| "mark_pairs (kv # kvs) = mark_bytes (kv_key kv) @ mark_bytes (kv_value kv) @ mark_pairs kvs"

fun unmark_pairs :: "nat \<Rightarrow> bytes \<Rightarrow> key_value list option" where
  "unmark_pairs 0 b = None"
| "unmark_pairs (Suc n) b =
     (if b = [] then Some []
      else Option.bind (unmark_bytes b) (\<lambda>(k, r).
           Option.bind (unmark_bytes r) (\<lambda>(v, t).
           map_option (\<lambda>kvs. \<lparr>kv_key = k, kv_value = v\<rparr> # kvs) (unmark_pairs n t))))"

lemma unmark_mark_bytes: "unmark_bytes (mark_bytes b @ r) = Some (b, r)"
  by (induction b; cases r) auto

lemma mark_bytes_neq_Nil [simp]: "mark_bytes b \<noteq> []"
  by (cases b) auto

lemma unmark_mark_pairs: "length kvs < n \<Longrightarrow> unmark_pairs n (mark_pairs kvs) = Some kvs"
  by (induction n "mark_pairs kvs" arbitrary: kvs rule: unmark_pairs.induct)
    (case_tac kvs; simp add: unmark_mark_bytes)+

lemma length_mark_pairs: "length kvs \<le> length (mark_pairs kvs)"
proof (induction kvs)
  case Nil
  then show ?case by simp
next
  case (Cons kv kvs)
  then show ?case by (cases "kv_key kv") simp_all
qed

definition sample_codec :: "(u16, bytes, key_value) map_codec" where
  "sample_codec = \<lparr>
     key_to_bytes = (\<lambda>k. replicate (unat k) 0), key_from_bytes = (\<lambda>b. Inr (of_nat (length b))),
     value_to_bytes = (\<lambda>v. v), value_from_bytes = Inr,
     kv_to_pb = (\<lambda>kv. kv), kv_from_pb = Inr,
     write_to_bytes = mark_pairs,
     merge_from_bytes = (\<lambda>b. case unmark_pairs (Suc (length b)) b of
        None \<Rightarrow> Inl (Lib_Error ''message'') | Some kvs \<Rightarrow> Inr kvs),
     crypto_hash = (\<lambda>b. Hash (of_nat (length b)))\<rparr>"

lemma sample_codec_laws: "map_codec_laws sample_codec"
  by (simp add: map_codec_laws_def sample_codec_def unmark_mark_pairs length_mark_pairs
      le_imp_less_Suc del: unmark_pairs.simps)

theorem binary_map_roundtrip_witness:
  "map_codec_laws sample_codec \<and> bmap_ordered [(0 :: u16, [9, 8 :: u8]), (3, [])] \<and>
   binary_map_from_bytes sample_codec (binary_map_to_bytes sample_codec [(0, [9, 8]), (3, [])]) =
     Ok [(0, [9, 8]), (3, [])]"
proof -
  have "bmap_ordered [(0 :: u16, [9, 8 :: u8]), (3, [])]"
    by (simp add: bmap_ordered_def)
  with binary_map_roundtrip [OF sample_codec_laws this] sample_codec_laws show ?thesis by simp
qed

text \<open>
  C40. What \<open>from_bytes\<close> returns on any bytes: it never panics, and it returns a map exactly when
  the message is read and every one of its entries converts, its key and its value each from its
  own field; the map then holds for each key the value of the last entry with that key and nothing
  else. An error is one that reading the message gave, or the conversion of one of its entries.
\<close>

theorem binary_map_from_bytes_exact:
  shows "(binary_map_from_bytes C b = Ok m \<longleftrightarrow>
      (\<exists>pbs ps. merge_from_bytes C b = Inr pbs \<and>
        list_all2 (\<lambda>pb p. \<exists>kv. kv_from_pb C pb = Inr kv \<and>
          key_from_bytes C (kv_key kv) = Inr (fst p) \<and>
          value_from_bytes C (kv_value kv) = Inr (snd p)) pbs ps \<and>
        bmap_ordered m \<and> bmap_get m = map_of (rev ps)))
    \<and> (binary_map_from_bytes C b = Err e \<longrightarrow>
      merge_from_bytes C b = Inl e \<or>
      (\<exists>pbs pb. merge_from_bytes C b = Inr pbs \<and> pb \<in> set pbs \<and>
        (kv_from_pb C pb = Inl e \<or>
         (\<exists>kv. kv_from_pb C pb = Inr kv \<and>
           (key_from_bytes C (kv_key kv) = Inl e \<or> value_from_bytes C (kv_value kv) = Inl e)))))
    \<and> binary_map_from_bytes C b \<noteq> Panic q"
proof (intro conjI)
  have decoded: "m = insert_pairs bmap_default ps \<longleftrightarrow> bmap_ordered m \<and> bmap_get m = map_of (rev ps)"
    for ps
    by (metis bmap_ordered_unique insert_pairs_default)
  show "binary_map_from_bytes C b = Ok m \<longleftrightarrow>
      (\<exists>pbs ps. merge_from_bytes C b = Inr pbs \<and>
        list_all2 (\<lambda>pb p. \<exists>kv. kv_from_pb C pb = Inr kv \<and>
          key_from_bytes C (kv_key kv) = Inr (fst p) \<and>
          value_from_bytes C (kv_value kv) = Inr (snd p)) pbs ps \<and>
        bmap_ordered m \<and> bmap_get m = map_of (rev ps))"
    by (auto simp: binary_map_from_bytes_def binary_map_from_pb_def outcome_simps
        collect_map_Ok_iff key_value_pb_to_pair_Ok_iff decoded)
next
  show "binary_map_from_bytes C b = Err e \<longrightarrow>
      merge_from_bytes C b = Inl e \<or>
      (\<exists>pbs pb. merge_from_bytes C b = Inr pbs \<and> pb \<in> set pbs \<and>
        (kv_from_pb C pb = Inl e \<or>
         (\<exists>kv. kv_from_pb C pb = Inr kv \<and>
           (key_from_bytes C (kv_key kv) = Inl e \<or> value_from_bytes C (kv_value kv) = Inl e))))"
    by (auto simp: binary_map_from_bytes_def binary_map_from_pb_def outcome_simps
        of_sum_Err_iff key_value_pb_to_pair_Err_iff dest!: collect_map_ErrD)
next
  show "binary_map_from_bytes C b \<noteq> Panic q"
    by (auto simp: binary_map_from_bytes_def binary_map_from_pb_def outcome_simps)
qed

text \<open>
  The witness decodes a message with the keys out of order and one of them twice, and a message
  that is cut off.
\<close>

theorem binary_map_from_bytes_exact_witness:
  "binary_map_from_bytes sample_codec [1, 0, 0, 1, 9, 0, 0, 0, 1, 0, 0, 0] =
     Ok [(0, []), (1, [])] \<and>
   binary_map_from_bytes sample_codec [1, 0, 0] = Err (Lib_Error ''message'') \<and>
   merge_from_bytes sample_codec [1, 0, 0] = Inl (Lib_Error ''message'')"
proof -
  let ?b = "[1, 0, 0, 1, 9, 0, 0, 0, 1, 0, 0, 0]"
  let ?pbs = "[\<lparr>kv_key = [0], kv_value = [9]\<rparr>, \<lparr>kv_key = [], kv_value = []\<rparr>,
    \<lparr>kv_key = [0], kv_value = []\<rparr>]"
  have msg: "merge_from_bytes sample_codec ?b = Inr ?pbs"
    by (simp add: sample_codec_def)
  have all: "list_all2 (\<lambda>pb p. \<exists>kv. kv_from_pb sample_codec pb = Inr kv \<and>
      key_from_bytes sample_codec (kv_key kv) = Inr (fst p) \<and>
      value_from_bytes sample_codec (kv_value kv) = Inr (snd p)) ?pbs [(1, [9]), (0, []), (1, [])]"
    by (simp add: sample_codec_def)
  have map: "bmap_ordered [(0 :: u16, [] :: bytes), (1, [])]"
    "bmap_get [(0 :: u16, [] :: bytes), (1, [])] = map_of (rev [(1, [9]), (0, []), (1, [])])"
    by (auto simp: bmap_ordered_def bmap_get_eq_map_of fun_eq_iff)
  have ok: "binary_map_from_bytes sample_codec ?b = Ok [(0, []), (1, [])]"
    using binary_map_from_bytes_exact [of sample_codec ?b "[(0, []), (1, [])]"] msg all map by blast
  have err: "binary_map_from_bytes sample_codec [1, 0, 0] = Err (Lib_Error ''message'')"
    by (simp add: binary_map_from_bytes_def sample_codec_def)
  have "merge_from_bytes sample_codec [1, 0, 0] = Inl (Lib_Error ''message'')"
    using binary_map_from_bytes_exact [of sample_codec "[1, 0, 0]" _ "Lib_Error ''message''"] err
    by (auto simp: sample_codec_def)
  with ok err show ?thesis by blast
qed

end
