(* ===== verification/Anchoring_Config.thy ===== *)
theory Anchoring_Config
  imports Reference_Env
begin

text \<open>
  The consensus configuration (\<open>src/config.rs\<close>, with its data types from \<open>src/proto/mod.rs\<close>)
  and the anchoring state computed from it (\<open>src/blockchain/mod.rs\<close>): the keys of the anchoring
  nodes, the redeem script and address they determine, the quorum, the schedule of anchored
  heights, and whether the chain is in its regular workflow or in transition to another address.
\<close>

section \<open>Config\<close>

record anchoring_node_keys =
  service_key :: service_key
  bitcoin_key :: btc_public_key

record config =
  network :: network
  anchoring_keys :: "anchoring_node_keys list"
  anchoring_interval :: u64
  transaction_fee :: u64

definition config_default :: config where
  "config_default = \<lparr>network = Testnet, anchoring_keys = [], anchoring_interval = 5000,
     transaction_fee = 10\<rparr>"

definition MAX_NODES_COUNT :: nat where
  "MAX_NODES_COUNT = 20"

definition MIN_TOTAL_TX_FEE :: u64 where
  "MIN_TOTAL_TX_FEE = 1000"

definition MIN_TX_LEN :: u64 where
  "MIN_TX_LEN = 10 + 146 + 33 + 81"

definition MIN_TX_FEE :: u64 where
  "MIN_TX_FEE = MIN_TOTAL_TX_FEE div MIN_TX_LEN + 1"

definition with_public_keys ::
  "network \<Rightarrow> anchoring_node_keys list \<Rightarrow> (config, redeem_script_error) outcome" where
  "with_public_keys net keys =
     (if keys = [] then Err NotEnoughPublicKeys
      else Ok (config_default\<lparr>network := net, anchoring_keys := keys\<rparr>))"

definition find_bitcoin_key :: "config \<Rightarrow> service_key \<Rightarrow> (u16 \<times> btc_public_key) option" where
  "find_bitcoin_key c key =
     map_option (\<lambda>(n, x). (of_nat n, bitcoin_key x))
       (find_index_from 0 (\<lambda>x. service_key x = key) (anchoring_keys c))"

definition config_byzantine_quorum :: "env \<Rightarrow> config \<Rightarrow> nat" where
  "config_byzantine_quorum E c = byzantine_quorum E (length (anchoring_keys c))"

definition config_to_script :: "env \<Rightarrow> config \<Rightarrow> (redeem_script, redeem_script_error) outcome" where
  "config_to_script E c =
     of_sum (redeem_to_script E (map bitcoin_key (anchoring_keys c)) (config_byzantine_quorum E c))"

definition config_redeem_script :: "env \<Rightarrow> config \<Rightarrow> (redeem_script, 'e) outcome" where
  "config_redeem_script E c = unwrap_result (config_to_script E c)"

definition anchoring_address :: "env \<Rightarrow> config \<Rightarrow> (address, 'e) outcome" where
  "anchoring_address E c =
     bind_oc (config_redeem_script E c) (\<lambda>rs. Ok (p2wsh_address E rs (network c)))"

definition anchoring_out_script :: "env \<Rightarrow> config \<Rightarrow> (script, 'e) outcome" where
  "anchoring_out_script E c =
     bind_oc (config_redeem_script E c) (\<lambda>rs. Ok (to_v0_p2wsh E rs))"

definition previous_anchoring_height :: "env \<Rightarrow> config \<Rightarrow> u64 \<Rightarrow> (u64, 'e) outcome" where
  "previous_anchoring_height E c current_height =
     bind_oc (rem_u64 current_height (anchoring_interval c)) (\<lambda>r.
     sub_u64 (debug_build E) current_height r)"

definition following_anchoring_height :: "env \<Rightarrow> config \<Rightarrow> u64 \<Rightarrow> (u64, 'e) outcome" where
  "following_anchoring_height E c current_height =
     bind_oc (previous_anchoring_height E c current_height) (\<lambda>h.
     add_u64 (debug_build E) h (anchoring_interval c))"

datatype config_error =
    Empty_Anchoring_Keys
  | Too_Many_Anchoring_Nodes
  | Zero_Anchoring_Interval
  | Transaction_Fee_Too_Low
  | Redeem_Script_Error redeem_script_error

definition validate :: "env \<Rightarrow> config \<Rightarrow> (unit, config_error) outcome" where
  "validate E c =
     (if anchoring_keys c = [] then Err Empty_Anchoring_Keys
      else if \<not> length (anchoring_keys c) \<le> MAX_NODES_COUNT then Err Too_Many_Anchoring_Nodes
      else if \<not> 0 < anchoring_interval c then Err Zero_Anchoring_Interval
      else if \<not> MIN_TX_FEE \<le> transaction_fee c then Err Transaction_Fee_Too_Low
      else bind_oc (map_err Redeem_Script_Error (config_to_script E c)) (\<lambda>_. Ok ()))"

section \<open>BtcAnchoringState\<close>

datatype btc_anchoring_state = State_Regular config | State_Transition config config

definition state_redeem_script :: "env \<Rightarrow> btc_anchoring_state \<Rightarrow> (redeem_script, 'e) outcome" where
  "state_redeem_script E st =
     (case st of
        State_Regular actual_configuration \<Rightarrow> config_redeem_script E actual_configuration
      | State_Transition _ following_configuration \<Rightarrow>
          config_redeem_script E following_configuration)"

definition state_script_pubkey :: "env \<Rightarrow> btc_anchoring_state \<Rightarrow> (script, 'e) outcome" where
  "state_script_pubkey E st = bind_oc (state_redeem_script E st) (\<lambda>rs. Ok (to_v0_p2wsh E rs))"

definition actual_config_of :: "btc_anchoring_state \<Rightarrow> config" where
  "actual_config_of st =
     (case st of
        State_Regular actual_configuration \<Rightarrow> actual_configuration
      | State_Transition actual_configuration _ \<Rightarrow> actual_configuration)"

definition following_config_of :: "btc_anchoring_state \<Rightarrow> config option" where
  "following_config_of st =
     (case st of
        State_Regular _ \<Rightarrow> None
      | State_Transition _ following_configuration \<Rightarrow> Some following_configuration)"

definition state_output_address :: "env \<Rightarrow> btc_anchoring_state \<Rightarrow> (address, 'e) outcome" where
  "state_output_address E st =
     bind_oc (state_redeem_script E st) (\<lambda>rs. Ok (p2wsh_address E rs (network (actual_config_of st))))"

definition is_regular :: "btc_anchoring_state \<Rightarrow> bool" where
  "is_regular st = (case st of State_Regular _ \<Rightarrow> True | _ \<Rightarrow> False)"

definition is_transition :: "btc_anchoring_state \<Rightarrow> bool" where
  "is_transition st = (case st of State_Transition _ _ \<Rightarrow> True | _ \<Rightarrow> False)"

definition state_following_anchoring_height ::
  "env \<Rightarrow> btc_anchoring_state \<Rightarrow> u64 option \<Rightarrow> (u64, 'e) outcome" where
  "state_following_anchoring_height E st latest_anchored_height =
     (case latest_anchored_height of
        None \<Rightarrow> Ok 0
      | Some height \<Rightarrow>
          (case st of
             State_Regular actual_configuration \<Rightarrow>
               following_anchoring_height E actual_configuration height
           | State_Transition _ _ \<Rightarrow> Ok height))"

section \<open>Validated configurations\<close>

text \<open>
  A valid configuration determines its redeem script: \<open>redeem_of\<close> and \<open>out_script_of\<close> are the
  values the code's \<open>unwrap\<close> yields.
\<close>

definition valid_config :: "env \<Rightarrow> config \<Rightarrow> bool" where
  "valid_config E c \<longleftrightarrow> validate E c = Ok ()"

definition redeem_of :: "env \<Rightarrow> config \<Rightarrow> redeem_script" where
  "redeem_of E c =
     projr (redeem_to_script E (map bitcoin_key (anchoring_keys c)) (config_byzantine_quorum E c))"

definition out_script_of :: "env \<Rightarrow> config \<Rightarrow> script" where
  "out_script_of E c = to_v0_p2wsh E (redeem_of E c)"

lemma valid_configD:
  assumes "valid_config E c"
  shows "anchoring_keys c \<noteq> []" "length (anchoring_keys c) \<le> 20" "0 < anchoring_interval c"
    "MIN_TX_FEE \<le> transaction_fee c" "config_to_script E c = Ok (redeem_of E c)"
  using assms
  by (auto simp: valid_config_def validate_def MAX_NODES_COUNT_def redeem_of_def config_to_script_def
      outcome_simps split: if_splits)

lemma valid_config_scripts:
  assumes "valid_config E c"
  shows "config_redeem_script E c = Ok (redeem_of E c)"
    "anchoring_out_script E c = Ok (out_script_of E c)"
    "anchoring_address E c = Ok (p2wsh_address E (redeem_of E c) (network c))"
  using valid_configD(5) [OF assms]
  by (simp_all add: config_redeem_script_def anchoring_out_script_def anchoring_address_def
      out_script_of_def)

lemma redeem_quorum_of:
  "p2wsh_laws E \<Longrightarrow> valid_config E c \<Longrightarrow>
     redeem_quorum E (redeem_of E c) = config_byzantine_quorum E c"
  using valid_configD(5) [of E c]
  by (auto simp: p2wsh_laws_def config_to_script_def outcome_simps)

lemma quorum_bounds:
  assumes "quorum_laws E" "valid_config E c"
  shows "0 < config_byzantine_quorum E c"
    "config_byzantine_quorum E c \<le> length (anchoring_keys c)"
    "2 * length (anchoring_keys c) < 3 * config_byzantine_quorum E c"
proof -
  have n: "0 < length (anchoring_keys c)" using valid_configD(1) [OF assms(2)] by simp
  have q: "config_byzantine_quorum E c = length (anchoring_keys c) * 2 div 3 + 1"
    using assms(1) by (simp add: config_byzantine_quorum_def quorum_laws_def)
  show "0 < config_byzantine_quorum E c" by (simp add: q)
  show "config_byzantine_quorum E c \<le> length (anchoring_keys c)" using n q by linarith
  show "2 * length (anchoring_keys c) < 3 * config_byzantine_quorum E c" using q by linarith
qed

lemma find_bitcoin_key_Some_iff:
  assumes "length (anchoring_keys c) \<le> 20"
  shows "find_bitcoin_key c key = Some (n, pk) \<longleftrightarrow>
    unat n < length (anchoring_keys c) \<and> service_key (anchoring_keys c ! unat n) = key \<and>
    bitcoin_key (anchoring_keys c ! unat n) = pk \<and>
    (\<forall>j < unat n. service_key (anchoring_keys c ! j) \<noteq> key)"
proof -
  have small: "unat (of_nat i :: u16) = i" if "i < length (anchoring_keys c)" for i
    using that assms by (simp add: unat_of_nat)
  have "find_bitcoin_key c key = Some (n, pk) \<longleftrightarrow>
      (\<exists>i. i < length (anchoring_keys c) \<and> n = of_nat i \<and>
        service_key (anchoring_keys c ! i) = key \<and> bitcoin_key (anchoring_keys c ! i) = pk \<and>
        (\<forall>j < i. service_key (anchoring_keys c ! j) \<noteq> key))"
    by (fastforce simp: find_bitcoin_key_def find_index_from_Some_iff)
  moreover have "of_nat (unat n) = n" by simp
  ultimately show ?thesis
    using small by metis
qed

section \<open>The schedule of anchored heights\<close>

lemma previous_anchoring_height_eq:
  assumes "0 < anchoring_interval c"
  shows "previous_anchoring_height E c h = Ok (h - h mod anchoring_interval c)"
    "unat (h - h mod anchoring_interval c) =
       unat h div unat (anchoring_interval c) * unat (anchoring_interval c)"
proof -
  have le: "h mod anchoring_interval c \<le> h"
    by (simp add: word_le_nat_alt unat_mod)
  show "previous_anchoring_height E c h = Ok (h - h mod anchoring_interval c)"
    using assms le by (auto simp: previous_anchoring_height_def rem_u64_def sub_u64_def not_less)
  show "unat (h - h mod anchoring_interval c) =
       unat h div unat (anchoring_interval c) * unat (anchoring_interval c)"
    unfolding unat_sub [OF le] unat_mod by (rule minus_mod_eq_div_mult)
qed

definition next_anchoring_height :: "config \<Rightarrow> u64 \<Rightarrow> u64" where
  "next_anchoring_height c h = h - h mod anchoring_interval c + anchoring_interval c"

text \<open>Below half the range no schedule overflows: the height is the next multiple.\<close>

lemma following_anchoring_height_eq:
  assumes "0 < anchoring_interval c" "unat h < 2 ^ 63"
  shows "following_anchoring_height E c h = Ok (next_anchoring_height c h)"
    "unat (next_anchoring_height c h) =
       (unat h div unat (anchoring_interval c) + 1) * unat (anchoring_interval c)"
proof -
  let ?i = "unat (anchoring_interval c)"
  let ?p = "h - h mod anchoring_interval c"
  have pos: "0 < ?i" using assms(1) by (simp add: word_less_nat_alt)
  have p: "unat ?p = unat h div ?i * ?i"
    using previous_anchoring_height_eq(2) [OF assms(1)] .
  have "unat ?p + ?i < 2 ^ 64"
  proof (cases "unat h div ?i = 0")
    case True
    then show ?thesis using p unat_less_2p [of "anchoring_interval c"] by simp
  next
    case False
    then have "?i \<le> unat h div ?i * ?i" by simp
    moreover have "unat h div ?i * ?i \<le> unat h" by simp
    ultimately have "unat ?p + ?i \<le> 2 * unat h" using p by linarith
    with assms(2) show ?thesis by simp
  qed
  note add = add_u64_exact [OF this]
  show "following_anchoring_height E c h = Ok (next_anchoring_height c h)"
    by (simp add: following_anchoring_height_def previous_anchoring_height_eq(1) [OF assms(1)]
        add(1) next_anchoring_height_def)
  show "unat (next_anchoring_height c h) = (unat h div ?i + 1) * ?i"
    using add(2) p by (simp add: next_anchoring_height_def)
qed

lemma next_anchoring_height_greater:
  assumes "0 < anchoring_interval c" "unat h < 2 ^ 63"
  shows "h < next_anchoring_height c h"
proof -
  have "0 < unat (anchoring_interval c)"
    using assms(1) by (simp add: word_less_nat_alt)
  then have "unat h < (unat h div unat (anchoring_interval c) + 1) * unat (anchoring_interval c)"
    using dividend_less_div_times [of "unat (anchoring_interval c)" "unat h"] by simp
  then show ?thesis
    using following_anchoring_height_eq(2) [OF assms] by (simp add: word_less_nat_alt)
qed

section \<open>Properties\<close>

text \<open>
  C35. The schedule: with a positive interval and a height below half of the 64-bit range, neither
  height computation panics or wraps in any build; \<open>previous_anchoring_height\<close> is the largest
  multiple of the interval that does not exceed the height, and \<open>following_anchoring_height\<close> the
  smallest multiple above it. At a multiple of the interval \<open>previous_anchoring_height\<close> is therefore
  the height itself, although its documentation speaks of a height below the given one.
\<close>

theorem anchoring_schedule:
  assumes "0 < anchoring_interval c" and "unat h < 2 ^ 63"
  shows "\<exists>p f. previous_anchoring_height E c h = (Ok p :: (u64, 'e) outcome) \<and>
    following_anchoring_height E c h = (Ok f :: (u64, 'e) outcome) \<and>
    unat (anchoring_interval c) dvd unat p \<and> unat (anchoring_interval c) dvd unat f \<and>
    unat p \<le> unat h \<and> unat h < unat f \<and>
    (unat (anchoring_interval c) dvd unat h \<longrightarrow> p = h) \<and>
    (\<forall>k. unat (anchoring_interval c) dvd k \<longrightarrow> k \<le> unat p \<or> unat f \<le> k)"
proof -
  let ?i = "unat (anchoring_interval c)"
  let ?p = "h - h mod anchoring_interval c"
  let ?f = "next_anchoring_height c h"
  have p: "unat ?p = unat h div ?i * ?i" and f: "unat ?f = (unat h div ?i + 1) * ?i"
    using previous_anchoring_height_eq(2) [OF assms(1)] following_anchoring_height_eq(2) [OF assms]
    by simp_all
  have gap: "k \<le> unat ?p \<or> unat ?f \<le> k" if dvd: "?i dvd k" for k
  proof -
    from dvd obtain m where k: "k = ?i * m" by (elim dvdE)
    show ?thesis
    proof (cases "m \<le> unat h div ?i")
      case True
      then have "k \<le> unat ?p" by (simp add: k p)
      then show ?thesis ..
    next
      case False
      then have "unat h div ?i + 1 \<le> m" by simp
      then have "(unat h div ?i + 1) * ?i \<le> m * ?i" by (rule mult_le_mono1)
      then show ?thesis by (simp add: k f mult.commute)
    qed
  qed
  have "h < ?f" by (rule next_anchoring_height_greater [OF assms])
  then have "unat h < unat ?f" by (simp add: word_less_nat_alt)
  moreover have "?p = h" if "?i dvd unat h"
    using that by (simp add: word_unat_eq_iff p)
  ultimately show ?thesis
    using gap p f
    by - (rule exI [of _ ?p], rule exI [of _ ?f],
      simp add: previous_anchoring_height_eq(1) [OF assms(1)] following_anchoring_height_eq(1) [OF assms])
qed

definition sample_config :: "nat \<Rightarrow> config" where
  "sample_config n = \<lparr>network = Testnet,
     anchoring_keys = map (\<lambda>i. \<lparr>service_key = Service_Key i, bitcoin_key = Btc_Public_Key i\<rparr>) [0..<n],
     anchoring_interval = 5, transaction_fee = 10\<rparr>"

theorem anchoring_schedule_witness:
  "\<exists>p f. previous_anchoring_height (ref_env True) (sample_config 4) 13 =
       (Ok p :: (u64, unit) outcome) \<and>
     following_anchoring_height (ref_env True) (sample_config 4) 13 =
       (Ok f :: (u64, unit) outcome) \<and> unat p \<le> 13 \<and> 13 < unat f \<and>
     previous_anchoring_height (ref_env True) (sample_config 4) 15 = (Ok 15 :: (u64, unit) outcome)"
  using anchoring_schedule [of "sample_config 4" 13 "ref_env True", where ?'e = unit]
    anchoring_schedule [of "sample_config 4" 15 "ref_env True", where ?'e = unit]
  by (auto simp: sample_config_def)

text \<open>
  C36. What validation guarantees: a configuration that passes \<open>validate\<close> has between one and
  twenty nodes and a positive interval, its redeem script, output script and address are computed
  without a panic, and its quorum is the redeem script's: more than two thirds of the nodes and no
  more than all of them.
\<close>

theorem validate_guarantees:
  assumes "crate_laws E" and "validate E c = Ok ()"
  shows "\<exists>rs. config_redeem_script E c = (Ok rs :: (redeem_script, 'e) outcome) \<and>
    anchoring_out_script E c = (Ok (to_v0_p2wsh E rs) :: (script, 'e) outcome) \<and>
    anchoring_address E c = (Ok (p2wsh_address E rs (network c)) :: (address, 'e) outcome) \<and>
    0 < anchoring_interval c \<and> 1 \<le> length (anchoring_keys c) \<and> length (anchoring_keys c) \<le> 20 \<and>
    redeem_quorum E rs = config_byzantine_quorum E c \<and>
    2 * length (anchoring_keys c) < 3 * redeem_quorum E rs \<and>
    redeem_quorum E rs \<le> length (anchoring_keys c)"
proof -
  have valid: "valid_config E c" using assms(2) by (simp add: valid_config_def)
  have laws: "p2wsh_laws E" "quorum_laws E" using assms(1) by (simp_all add: crate_laws_def)
  show ?thesis
    using valid_configD [OF valid] redeem_quorum_of [OF laws(1) valid]
      quorum_bounds [OF laws(2) valid]
    by (intro exI [of _ "redeem_of E c"])
      (simp add: valid_config_scripts [OF valid] out_script_of_def Suc_le_eq)
qed

lemma sample_config_valid:
  assumes "0 < n" "n \<le> 20"
  shows "valid_config (ref_env dbg) (sample_config n)"
proof -
  have "n * 2 div 3 + 1 \<le> n" "n * 2 div 3 + 1 \<le> 20" using assms by linarith+
  with assms show ?thesis
    by (simp add: valid_config_def validate_def sample_config_def MAX_NODES_COUNT_def
        MIN_TX_FEE_def MIN_TOTAL_TX_FEE_def MIN_TX_LEN_def config_to_script_def
        config_byzantine_quorum_def ref_redeem_to_script_def not_less)
qed

theorem validate_guarantees_witness:
  "validate (ref_env True) (sample_config 4) = Ok () \<and>
   (\<exists>rs. config_redeem_script (ref_env True) (sample_config 4) =
       (Ok rs :: (redeem_script, unit) outcome) \<and> redeem_quorum (ref_env True) rs = 3)"
proof -
  have v: "validate (ref_env True) (sample_config 4) = Ok ()"
    using sample_config_valid [of 4] by (simp add: valid_config_def)
  have "config_byzantine_quorum (ref_env True) (sample_config 4) = 3"
    by (simp add: config_byzantine_quorum_def sample_config_def)
  with validate_guarantees [OF ref_crate_laws v, where ?'e = unit] v show ?thesis by auto
qed

text \<open>
  A signer is identified without confusion: in a validated configuration the node id that
  \<open>find_bitcoin_key\<close> returns is the position of the first entry with the given service key, not
  truncated by the cast to 16 bits, and the Bitcoin key is the one of that entry; it returns
  nothing exactly when no entry has the key.
\<close>

lemma find_bitcoin_key_correct:
  assumes "validate E c = Ok ()"
  shows "(find_bitcoin_key c key = Some (n, pk) \<longleftrightarrow>
      unat n < length (anchoring_keys c) \<and> service_key (anchoring_keys c ! unat n) = key \<and>
      bitcoin_key (anchoring_keys c ! unat n) = pk \<and>
      (\<forall>j < unat n. service_key (anchoring_keys c ! j) \<noteq> key)) \<and>
    (find_bitcoin_key c key = None \<longleftrightarrow> key \<notin> service_key ` set (anchoring_keys c))"
proof -
  have "length (anchoring_keys c) \<le> 20"
    using assms by (intro valid_configD(2) [of E]) (simp add: valid_config_def)
  moreover have "find_bitcoin_key c key = None \<longleftrightarrow> key \<notin> service_key ` set (anchoring_keys c)"
    by (auto simp: find_bitcoin_key_def find_index_from_None_iff)
  ultimately show ?thesis
    by (simp add: find_bitcoin_key_Some_iff)
qed

end
