(* ===== verification/Data_Layout.thy ===== *)
theory Data_Layout
  imports Reference_Env
begin

text \<open>
  The keys of the schema's maps, \<open>src/blockchain/data_layout/mod.rs\<close>, with \<open>Sha256d\<close> of
  \<open>src/btc/mod.rs\<close> and its key encoding from \<open>src/proto/mod.rs\<close>. A map of the schema is indexed
  by the bytes its keys are written as, so two keys must never share an encoding: the encoding of
  \<open>TxInputId\<close> is shown to be an exact codec of the byte strings of length 36.
\<close>

section \<open>Sha256d\<close>

definition SHA256D_LEN :: nat where
  "SHA256D_LEN = 32"

definition sha256d_from_slice :: "env \<Rightarrow> bytes \<Rightarrow> sha256d option" where
  "sha256d_from_slice E b = sha256d_hash_from_slice E b"

definition sha256d_new :: "env \<Rightarrow> bytes \<Rightarrow> (sha256d, 'e) outcome" where
  "sha256d_new E b = unwrap_or_panic Unwrap_None (sha256d_from_slice E b)"

definition sha256d_key_size :: "sha256d \<Rightarrow> nat" where
  "sha256d_key_size d = SHA256D_LEN"

text \<open>A write returns the buffer after the call and the number of bytes it reports.\<close>

definition sha256d_key_write :: "env \<Rightarrow> sha256d \<Rightarrow> bytes \<Rightarrow> (bytes \<times> nat, 'e) outcome" where
  "sha256d_key_write E d buffer =
     bind_oc (copy_into buffer 0 (length buffer) (sha256d_bytes E d)) (\<lambda>buffer.
     Ok (buffer, sha256d_key_size d))"

definition sha256d_key_read :: "env \<Rightarrow> bytes \<Rightarrow> (sha256d, 'e) outcome" where
  "sha256d_key_read E buffer = unwrap_or_panic Unwrap_None (sha256d_from_slice E buffer)"

section \<open>A cursor over a byte slice\<close>

text \<open>
  \<open>std::io::Cursor\<close>, as the pair of the slice and the position. \<open>read\<close> and \<open>write\<close> transfer what
  fits and never fail; \<open>read_exact\<close> and \<open>write_all\<close>, on which the integers are read and written,
  fail when not every byte could be transferred.
\<close>

type_synonym cursor = "bytes \<times> nat"

definition cursor_read :: "cursor \<Rightarrow> bytes \<Rightarrow> bytes \<times> cursor" where
  "cursor_read cur buf =
     (case cur of (inp, pos) \<Rightarrow>
        let got = take (length buf) (drop pos inp)
        in (got @ drop (length got) buf, (inp, pos + length got)))"

definition cursor_read_exact :: "cursor \<Rightarrow> nat \<Rightarrow> (bytes \<times> cursor) option" where
  "cursor_read_exact cur n =
     (case cur of (inp, pos) \<Rightarrow>
        if n \<le> length (drop pos inp) then Some (take n (drop pos inp), (inp, pos + n)) else None)"

definition cursor_write :: "cursor \<Rightarrow> bytes \<Rightarrow> nat \<times> cursor" where
  "cursor_write cur src =
     (case cur of (out, pos) \<Rightarrow>
        let n = min (length src) (length out - pos)
        in (n, (take pos out @ take n src @ drop (pos + n) out, pos + n)))"

definition cursor_write_all :: "cursor \<Rightarrow> bytes \<Rightarrow> cursor option" where
  "cursor_write_all cur src =
     (case cursor_write cur src of (n, cur) \<Rightarrow> if n = length src then Some cur else None)"

section \<open>TxInputId\<close>

record tx_input_id =
  id_txid :: sha256d
  id_input :: u32

definition tx_input_id_new :: "sha256d \<Rightarrow> u32 \<Rightarrow> tx_input_id" where
  "tx_input_id_new t i = \<lparr>id_txid = t, id_input = i\<rparr>"

definition tx_input_id_size :: "tx_input_id \<Rightarrow> nat" where
  "tx_input_id_size k = sha256d_key_size (id_txid k) + 4"

definition tx_input_id_read :: "env \<Rightarrow> bytes \<Rightarrow> (tx_input_id, 'e) outcome" where
  "tx_input_id_read E inp =
     (case cursor_read (inp, 0) (replicate 32 0) of (txid, reader) \<Rightarrow>
      bind_oc (sha256d_new E txid) (\<lambda>txid.
      bind_oc (unwrap_or_panic Unwrap_None (cursor_read_exact reader 4)) (\<lambda>(b, reader).
      Ok \<lparr>id_txid = txid, id_input = le_read_u32 E b\<rparr>)))"

definition tx_input_id_write :: "env \<Rightarrow> tx_input_id \<Rightarrow> bytes \<Rightarrow> (bytes \<times> nat, 'e) outcome" where
  "tx_input_id_write E k out =
     (case cursor_write (out, 0) (sha256d_bytes E (id_txid k)) of (n, writer) \<Rightarrow>
      bind_oc (unwrap_or_panic Unwrap_None
          (cursor_write_all writer (le_write_u32 E (id_input k)))) (\<lambda>writer.
      Ok (fst writer, tx_input_id_size k)))"

text \<open>\<open>crypto::hash\<close> is a function of another crate, hence an argument.\<close>

definition tx_input_id_object_hash ::
  "env \<Rightarrow> (bytes \<Rightarrow> hash) \<Rightarrow> tx_input_id \<Rightarrow> (hash, 'e) outcome" where
  "tx_input_id_object_hash E crypto_hash k =
     bind_oc (tx_input_id_write E k (replicate 36 0)) (\<lambda>(bytes, n). Ok (crypto_hash bytes))"

section \<open>The encodings are exact codecs\<close>

definition tx_input_id_bytes :: "env \<Rightarrow> tx_input_id \<Rightarrow> bytes" where
  "tx_input_id_bytes E k = sha256d_bytes E (id_txid k) @ le_write_u32 E (id_input k)"

lemma tx_input_id_write_eq:
  assumes "byteorder_laws E" "hash_laws E" "length out = 36"
  shows "tx_input_id_write E k out = Ok (tx_input_id_bytes E k, 36)"
proof -
  note len = hash_lawsD(3) [OF assms(2)] byteorder_lawsD(3) [OF assms(1)]
  show ?thesis
    using assms(3)
    by (simp add: tx_input_id_write_def cursor_write_def cursor_write_all_def Let_def len
        tx_input_id_bytes_def tx_input_id_size_def sha256d_key_size_def SHA256D_LEN_def)
qed

lemma tx_input_id_read_eq:
  assumes "hash_laws E" "36 \<le> length inp"
  shows "tx_input_id_read E inp =
    Ok \<lparr>id_txid = the (sha256d_hash_from_slice E (take 32 inp)),
        id_input = le_read_u32 E (take 4 (drop 32 inp))\<rparr>"
proof -
  have "length (take 32 inp) = 32" using assms(2) by simp
  then obtain d where "sha256d_hash_from_slice E (take 32 inp) = Some d"
    by (rule sha256d_from_slice_32 [OF assms(1)])
  then show ?thesis
    using assms(2)
    by (simp add: tx_input_id_read_def cursor_read_def cursor_read_exact_def Let_def
        sha256d_new_def sha256d_from_slice_def min_def)
qed

lemma tx_input_id_read_bytes:
  assumes "byteorder_laws E" "hash_laws E"
  shows "tx_input_id_read E (tx_input_id_bytes E k) = Ok k"
  using assms
  by (subst tx_input_id_read_eq) (simp_all add: tx_input_id_bytes_def hash_lawsD byteorder_lawsD)

definition tx_input_id_decode :: "env \<Rightarrow> bytes \<Rightarrow> tx_input_id option" where
  "tx_input_id_decode E b =
     (if length b = 36
      then (case (tx_input_id_read E b :: (tx_input_id, unit) outcome) of Ok k \<Rightarrow> Some k | _ \<Rightarrow> None)
      else None)"

sublocale crates \<subseteq> input_key: codec "tx_input_id_bytes E" "tx_input_id_decode E"
proof
  note len = hash_lawsD(3) [OF each_law(2)] byteorder_lawsD(3) [OF each_law(1)]
  show "tx_input_id_decode E (tx_input_id_bytes E k) = Some k" for k
    using each_law(1,2)
    by (simp add: tx_input_id_decode_def tx_input_id_read_eq tx_input_id_bytes_def len
        hash_lawsD byteorder_lawsD)
  show "b = tx_input_id_bytes E k" if "tx_input_id_decode E b = Some k" for b k
  proof -
    have b: "length b = 36"
      using that by (simp add: tx_input_id_decode_def split: if_splits)
    have k: "k = \<lparr>id_txid = the (sha256d_hash_from_slice E (take 32 b)),
        id_input = le_read_u32 E (take 4 (drop 32 b))\<rparr>"
      using that b by (simp add: tx_input_id_decode_def tx_input_id_read_eq [OF each_law(2)])
    obtain d where d: "sha256d_hash_from_slice E (take 32 b) = Some d" "sha256d_bytes E d = take 32 b"
      by (rule sha256d_from_slice_32 [OF each_law(2), of "take 32 b"]) (use b in simp_all)
    have "le_write_u32 E (le_read_u32 E (drop 32 b)) = drop 32 b"
      using b by (intro byteorder_lawsD(6) [OF each_law(1)]) simp
    with k d b show ?thesis by (simp add: tx_input_id_bytes_def)
  qed
qed

context crates
begin

lemma tx_input_id_bytes_inject: "tx_input_id_bytes E j = tx_input_id_bytes E k \<longleftrightarrow> j = k"
  by (rule input_key.encode_inject)

lemma tx_input_id_decode_iff: "tx_input_id_decode E b = Some k \<longleftrightarrow> b = tx_input_id_bytes E k"
  by (rule input_key.decode_eq_Some_iff)

end

section \<open>Properties\<close>

text \<open>
  C37. The key of an input's signatures: written into a buffer of the size it announces, a
  \<open>TxInputId\<close> reads back as itself, and two identifiers with the same bytes are the same, so
  signatures for different inputs or transactions never share an entry; the object hash is the
  hash of these bytes.
\<close>

theorem tx_input_id_key:
  assumes "crate_laws E"
  shows "\<exists>b. tx_input_id_write E k (replicate (tx_input_id_size k) 0) =
      (Ok (b, tx_input_id_size k) :: (_, 'e) outcome) \<and> length b = tx_input_id_size k \<and>
    tx_input_id_read E b = (Ok k :: (_, 'e) outcome) \<and>
    tx_input_id_object_hash E crypto k = (Ok (crypto b) :: (_, 'e) outcome) \<and>
    (\<forall>j n. tx_input_id_write E j (replicate (tx_input_id_size j) 0) =
       (Ok (b, n) :: (_, 'e) outcome) \<longrightarrow> j = k)"
proof -
  have laws: "byteorder_laws E" "hash_laws E" using assms by (simp_all add: crate_laws_def)
  have size: "tx_input_id_size j = 36" for j
    by (simp add: tx_input_id_size_def sha256d_key_size_def SHA256D_LEN_def)
  have len: "length (tx_input_id_bytes E k) = 36"
    by (simp add: tx_input_id_bytes_def hash_lawsD [OF laws(2)] byteorder_lawsD [OF laws(1)])
  from len show ?thesis
    by (intro exI [of _ "tx_input_id_bytes E k"])
      (simp add: size tx_input_id_write_eq [OF laws] tx_input_id_read_bytes [OF laws] tx_input_id_object_hash_def
        crates.tx_input_id_bytes_inject [unfolded crates_def, OF assms])
qed

theorem tx_input_id_key_witness:
  "\<exists>b. tx_input_id_write (ref_env True) (tx_input_id_new (Sha256d 7) 2) (replicate 36 0) =
      (Ok (b, 36) :: (_, unit) outcome) \<and>
    tx_input_id_read (ref_env True) b =
      (Ok (tx_input_id_new (Sha256d 7) 2) :: (_, unit) outcome)"
  using tx_input_id_key [of "ref_env True" "tx_input_id_new (Sha256d 7) 2" undefined,
      where ?'e = unit]
  by (auto simp: tx_input_id_size_def sha256d_key_size_def SHA256D_LEN_def)

text \<open>
  \<open>Sha256d\<close> as a key: writing into a buffer of its size and reading back gives the same
  hash; a buffer of any other size panics, on writing as on reading.
\<close>

lemma sha256d_key_roundtrip:
  assumes "hash_laws E"
  shows "(length buffer = sha256d_key_size d \<longrightarrow>
       sha256d_key_write E d buffer = (Ok (sha256d_bytes E d, 32) :: (_, 'e) outcome) \<and>
       sha256d_key_read E (sha256d_bytes E d) = (Ok d :: (_, 'e) outcome)) \<and>
    (length buffer \<noteq> sha256d_key_size d \<longrightarrow>
       sha256d_key_write E d buffer = (Panic Slice_Length_Mismatch :: (_, 'e) outcome) \<and>
       sha256d_key_read E buffer = (Panic Unwrap_None :: (_, 'e) outcome))"
proof -
  have none: "sha256d_hash_from_slice E b = None" if "length b \<noteq> 32" for b
    using assms that by (simp add: hash_laws_def)
  show ?thesis
    using none [of buffer]
    by (simp add: sha256d_key_write_def sha256d_key_read_def sha256d_from_slice_def copy_into_def
        sha256d_key_size_def SHA256D_LEN_def hash_lawsD [OF assms])
qed

end
