(* ===== verification/Schema.thy ===== *)
theory Schema
  imports Btc_Transaction Binary_Map Anchoring_Config Data_Layout
begin

text \<open>
  The information schema of the service, \<open>src/blockchain/schema.rs\<close>: the persistent state, the
  anchoring state derived from it, the proposal of the next anchoring transaction, and the two
  updates that end a round, \<open>push_anchoring_transaction\<close> and \<open>set_funding_transaction\<close>. An index
  of the database is the value it holds: a \<open>ProofListIndex\<close> is a list, a \<open>ProofMapIndex\<close> a map and
  an \<open>Entry\<close> an optional value. The core schema of the blockchain is reached through one function
  only, \<open>block_hash_by_height\<close>, which is the argument \<open>core\<close>.
\<close>

section \<open>The state\<close>

type_synonym input_signatures = "(u16, input_signature) binary_map"
type_synonym transaction_confirmations = "(btc_public_key, unit) binary_map"
type_synonym core_schema = "u64 \<Rightarrow> hash option"

record schema =
  transactions_chain :: "transaction list"
  spent_funding_transactions :: "sha256d \<rightharpoonup> transaction"
  transaction_signatures :: "tx_input_id \<rightharpoonup> input_signatures"
  actual_config_entry :: "config option"
  following_config_entry :: "config option"
  unconfirmed_funding_transactions :: "sha256d \<rightharpoonup> transaction_confirmations"
  unspent_funding_entry :: "transaction option"

definition empty_schema :: schema where
  "empty_schema = \<lparr>transactions_chain = [], spent_funding_transactions = Map.empty,
     transaction_signatures = Map.empty, actual_config_entry = None, following_config_entry = None,
     unconfirmed_funding_transactions = Map.empty, unspent_funding_entry = None\<rparr>"

definition last_opt :: "'a list \<Rightarrow> 'a option" where
  "last_opt xs = (if xs = [] then None else Some (last xs))"

definition unwrap_or_default :: "'a \<Rightarrow> 'a option \<Rightarrow> 'a" where
  "unwrap_or_default d x = (case x of None \<Rightarrow> d | Some v \<Rightarrow> v)"

section \<open>Reading the state\<close>

definition actual_config :: "schema \<Rightarrow> (config, 'e) outcome" where
  "actual_config s =
     unwrap_or_panic (Expect_None ''Actual configuration of anchoring is absent.'')
       (actual_config_entry s)"

definition following_config :: "schema \<Rightarrow> config option" where
  "following_config s = following_config_entry s"

definition input_signatures :: "schema \<Rightarrow> tx_input_id \<Rightarrow> input_signatures" where
  "input_signatures s input = unwrap_or_default bmap_default (transaction_signatures s input)"

definition unspent_funding_transaction :: "schema \<Rightarrow> transaction option" where
  "unspent_funding_transaction s = unspent_funding_entry s"

definition actual_state :: "env \<Rightarrow> schema \<Rightarrow> (btc_anchoring_state, 'e) outcome" where
  "actual_state E s =
     bind_oc (actual_config s) (\<lambda>actual_configuration.
     case following_config s of
       None \<Rightarrow> Ok (State_Regular actual_configuration)
     | Some following_configuration \<Rightarrow>
         bind_oc (config_redeem_script E actual_configuration) (\<lambda>r1.
         bind_oc (config_redeem_script E following_configuration) (\<lambda>r2.
         if r1 \<noteq> r2 then Ok (State_Transition actual_configuration following_configuration)
         else Ok (State_Regular actual_configuration))))"

definition latest_anchored_height :: "env \<Rightarrow> schema \<Rightarrow> (u64 option, 'e) outcome" where
  "latest_anchored_height E s =
     (case last_opt (transactions_chain s) of
        None \<Rightarrow> Ok None
      | Some tx \<Rightarrow>
          bind_oc (anchoring_metadata E tx) (\<lambda>m.
          bind_oc (unwrap_or_panic
              (Expect_None ''Expected payload in the anchoring transaction.'') m) (\<lambda>metadata.
          Ok (Some (block_height (snd metadata))))))"

section \<open>The proposal\<close>

text \<open>
  The part of \<open>proposed_anchoring_transaction\<close> that puts the last anchoring transaction \<open>tx\<close> into
  the builder: \<open>None\<close> is the early return while the chain waits for its transition to end.
\<close>

definition attach_last_tx ::
  "env \<Rightarrow> btc_anchoring_state \<Rightarrow> transaction option \<Rightarrow> tx_builder \<Rightarrow> transaction \<Rightarrow>
     (tx_builder option, builder_error) outcome" where
  "attach_last_tx E st unspent_funding builder tx =
     bind_oc
       (if is_transition st then
          bind_oc (index_at (tx_output tx) 0) (\<lambda>out.
          bind_oc (state_script_pubkey E st) (\<lambda>outgoing_script_pubkey.
          if script_pubkey out = outgoing_script_pubkey then Ok None
          else Ok (Some (set_transit_to builder outgoing_script_pubkey))))
        else Ok (Some builder)) (\<lambda>r.
     case r of
       None \<Rightarrow> Ok None
     | Some builder \<Rightarrow>
         (case set_prev_tx E builder tx of
            Ok builder \<Rightarrow> Ok (Some builder)
          | Err e \<Rightarrow> if unspent_funding = None then Err e
                     else Ok (Some (set_recover builder (tx_id E tx)))
          | Panic p \<Rightarrow> Panic p))"

text \<open>
  The result \<open>Option<Result<..>>\<close> is transposed, as every caller does first: \<open>Ok None\<close> is no
  proposal, \<open>Err e\<close> a proposal that could not be built, \<open>Ok (Some p)\<close> the proposal \<open>p\<close>.
\<close>

definition proposed_anchoring_transaction ::
  "env \<Rightarrow> core_schema \<Rightarrow> schema \<Rightarrow> btc_anchoring_state \<Rightarrow>
     ((transaction \<times> transaction list) option, builder_error) outcome" where
  "proposed_anchoring_transaction E core s st =
     (let config = actual_config_of st;
          unspent_funding = unspent_funding_entry s in
      bind_oc (config_redeem_script E config) (\<lambda>redeem_script.
      let builder = tx_builder_new E redeem_script in
      bind_oc (case last_opt (transactions_chain s) of
                 None \<Rightarrow> Ok (Some builder)
               | Some tx \<Rightarrow> attach_last_tx E st unspent_funding builder tx) (\<lambda>r.
      case r of
        None \<Rightarrow> Ok None
      | Some builder \<Rightarrow>
          bind_oc (case unspent_funding of
                     None \<Rightarrow> Ok builder
                   | Some tx \<Rightarrow> add_additional_funds builder tx) (\<lambda>builder.
          bind_oc (latest_anchored_height E s) (\<lambda>latest.
          bind_oc (state_following_anchoring_height E st latest) (\<lambda>anchoring_height.
          case core anchoring_height of
            None \<Rightarrow> Ok None
          | Some anchoring_block_hash \<Rightarrow>
              map_ok Some (create E (set_fee
                (set_payload builder anchoring_height anchoring_block_hash)
                (transaction_fee config)))))))))"

definition actual_proposed_anchoring_transaction ::
  "env \<Rightarrow> core_schema \<Rightarrow> schema \<Rightarrow>
     ((transaction \<times> transaction list) option, builder_error) outcome" where
  "actual_proposed_anchoring_transaction E core s =
     bind_oc (actual_state E s) (\<lambda>st. proposed_anchoring_transaction E core s st)"

section \<open>Updates\<close>

definition push_anchoring_transaction :: "env \<Rightarrow> schema \<Rightarrow> transaction \<Rightarrow> (schema, 'e) outcome" where
  "push_anchoring_transaction E s tx =
     (let s = (case unspent_funding_entry s of
                 None \<Rightarrow> s
               | Some funding \<Rightarrow> s\<lparr>unspent_funding_entry := None,
                   spent_funding_transactions :=
                     (spent_funding_transactions s)(tx_id E funding \<mapsto> funding)\<rparr>) in
      bind_oc
        (case following_config s of
           None \<Rightarrow> Ok s
         | Some config \<Rightarrow>
             bind_oc (anchoring_metadata E tx) (\<lambda>m.
             bind_oc (unwrap_or_panic
                 (Expect_None ''Unable to find metadata in the anchoring transaction.'') m)
               (\<lambda>metadata.
             bind_oc (anchoring_out_script E config) (\<lambda>script.
             if script \<noteq> fst metadata
             then Panic (Assertion_Failed ''Malformed output address in the anchoring transaction.'')
             else Ok (s\<lparr>following_config_entry := None, actual_config_entry := Some config\<rparr>)))))
        (\<lambda>s. Ok (s\<lparr>transactions_chain := transactions_chain s @ [tx]\<rparr>)))"

definition set_funding_transaction :: "env \<Rightarrow> schema \<Rightarrow> transaction \<Rightarrow> (schema, 'e) outcome" where
  "set_funding_transaction E s tx =
     (if debug_build E \<and> spent_funding_transactions s (tx_id E tx) \<noteq> None
      then Panic (Assertion_Failed ''Funding transaction must be unspent.'')
      else Ok (s\<lparr>unconfirmed_funding_transactions :=
                   (unconfirmed_funding_transactions s)(tx_id E tx \<mapsto> bmap_default),
                 unspent_funding_entry := Some tx\<rparr>))"

end
