(* ===== verification/Service.thy ===== *)
theory Service
  imports Schema
begin

text \<open>
  The service: the error codes of \<open>src/blockchain/errors.rs\<close>, the transactions \<open>sign_input\<close> and
  \<open>add_funds\<close> of \<open>src/blockchain/transactions.rs\<close>, and the hooks \<open>initialize\<close>, \<open>verify_config\<close> and
  \<open>apply_config\<close> of \<open>src/service.rs\<close>. Each operation takes the execution context and the schema
  and returns the schema after the call; when it fails or panics, the runtime discards the changes,
  so there is no schema in the result.
\<close>

section \<open>Errors\<close>

datatype error =
    UnauthorizedAnchoringKey
  | NoSuchInput
  | InputVerificationFailed
  | AnchoringBuilderError
  | UnexpectedProposalTxId
  | AlreadyUsedFundingTx
  | UnsuitableFundingTx

fun error_code :: "error \<Rightarrow> u8" where
  "error_code UnauthorizedAnchoringKey = 0"
| "error_code NoSuchInput = 1"
| "error_code InputVerificationFailed = 2"
| "error_code AnchoringBuilderError = 3"
| "error_code UnexpectedProposalTxId = 4"
| "error_code AlreadyUsedFundingTx = 5"
| "error_code UnsuitableFundingTx = 6"

text \<open>What an error's description was made of.\<close>

datatype description = No_Description | Of_Builder_Error builder_error | Of_Lib_Error lib_error

text \<open>\<open>ExecutionError\<close>: two of the runtime's common errors, or an error of the service.\<close>

datatype malformed = Malformed_Config_Bytes lib_error | Malformed_Config config_error

datatype execution_error =
    Common_UnauthorizedCaller
  | Common_MalformedArguments malformed
  | Service_Error error description

definition anchoring_builder_error :: "builder_error \<Rightarrow> execution_error" where
  "anchoring_builder_error e = Service_Error AnchoringBuilderError (Of_Builder_Error e)"

section \<open>Messages and the execution context\<close>

record sign_input_msg =
  si_txid :: sha256d
  si_input :: u32
  si_input_signature :: input_signature

record add_funds_msg =
  af_transaction :: transaction

text \<open>
  What the service asks of its \<open>ExecutionContext\<close>: \<open>caller().author()\<close>, whether
  \<open>caller().as_supervisor()\<close> is present, and \<open>data().for_core()\<close>.
\<close>

record exec_context =
  caller_author :: "service_key option"
  caller_is_supervisor :: bool
  for_core :: core_schema

section \<open>Transactions\<close>

definition verify_signature ::
  "env \<Rightarrow> sign_input_msg \<Rightarrow> redeem_script \<Rightarrow> btc_public_key \<Rightarrow> transaction \<Rightarrow> transaction list \<Rightarrow>
     (unit, execution_error) outcome" where
  "verify_signature E arg input_signer public_key proposal inputs =
     bind_oc (ok_or (Service_Error NoSuchInput No_Description)
         (get_nth inputs (unat (si_input arg)))) (\<lambda>input_transaction.
     case verify_input E input_signer (proposal, unat (si_input arg)) input_transaction public_key
         (si_input_signature arg) of
       None \<Rightarrow> Ok ()
     | Some e \<Rightarrow> Err (Service_Error InputVerificationFailed (Of_Lib_Error e)))"

definition confirm_by_node ::
  "transaction_confirmations \<Rightarrow> btc_public_key \<Rightarrow> transaction_confirmations" where
  "confirm_by_node m public_key = bmap_insert public_key () m"

definition has_enough_confirmations :: "env \<Rightarrow> transaction_confirmations \<Rightarrow> config \<Rightarrow> bool" where
  "has_enough_confirmations E m config \<longleftrightarrow> bmap_len m = config_byzantine_quorum E config"

text \<open>The loop that spends every input; \<open>None\<close> is the early return for a missing quorum.\<close>

fun finalize_inputs ::
  "env \<Rightarrow> redeem_script \<Rightarrow> schema \<Rightarrow> sha256d \<Rightarrow> nat \<Rightarrow> transaction \<Rightarrow> nat list \<Rightarrow>
     (transaction option, 'e) outcome" where
  "finalize_inputs E signer s proposal_id quorum finalized_tx [] = Ok (Some finalized_tx)"
| "finalize_inputs E signer s proposal_id quorum finalized_tx (index # rest) =
     (let signatures_for_input = input_signatures s (tx_input_id_new proposal_id (of_nat index)) in
      if bmap_len signatures_for_input \<noteq> quorum then Ok None
      else bind_oc (index_at (tx_input finalized_tx) index) (\<lambda>i.
        finalize_inputs E signer s proposal_id quorum
          (finalized_tx\<lparr>tx_input := (tx_input finalized_tx)
             [index := spend_input E signer i (bmap_values signatures_for_input)]\<rparr>) rest))"

text \<open>
  The second half of \<open>sign_input\<close>, from the point where all preconditions hold and the signature
  of the node can be used.
\<close>

definition use_signature ::
  "env \<Rightarrow> schema \<Rightarrow> redeem_script \<Rightarrow> nat \<Rightarrow> u16 \<Rightarrow> transaction \<Rightarrow> transaction list \<Rightarrow> sign_input_msg \<Rightarrow>
     (schema, execution_error) outcome" where
  "use_signature E s input_signer quorum anchoring_node_id proposal expected_inputs arg =
     (let input_id = tx_input_id_new (tx_id E proposal) (si_input arg);
          signatures = input_signatures s input_id;
          input_signature_len = bmap_len signatures in
      if input_signature_len < quorum then
        let s = s\<lparr>transaction_signatures := (transaction_signatures s)
              (input_id \<mapsto> bmap_insert anchoring_node_id (si_input_signature arg) signatures)\<rparr>;
            input_signature_len = input_signature_len + 1 in
        if input_signature_len = quorum then
          bind_oc (finalize_inputs E input_signer s (tx_id E proposal) quorum proposal
              [0..<length expected_inputs]) (\<lambda>f.
          case f of
            None \<Rightarrow> Ok s
          | Some finalized_tx \<Rightarrow>
              bind_oc (anchoring_metadata E finalized_tx) (\<lambda>m.
              bind_oc (unwrap_or_panic Unwrap_None m) (\<lambda>_.
              push_anchoring_transaction E s finalized_tx)))
        else Ok s
      else Ok s)"

definition sign_input ::
  "env \<Rightarrow> exec_context \<Rightarrow> schema \<Rightarrow> sign_input_msg \<Rightarrow> (schema, execution_error) outcome" where
  "sign_input E ctx s arg =
     bind_oc (ok_or Common_UnauthorizedCaller (caller_author ctx)) (\<lambda>author.
     bind_oc (actual_config s) (\<lambda>config.
     bind_oc (ok_or (Service_Error UnauthorizedAnchoringKey No_Description)
         (find_bitcoin_key config author)) (\<lambda>(anchoring_node_id, public_key).
     bind_oc (map_err anchoring_builder_error
         (actual_proposed_anchoring_transaction E (for_core ctx) s)) (\<lambda>r.
     case r of
       None \<Rightarrow>
         bind_oc (unwrap_or_panic Unwrap_None (last_opt (transactions_chain s))) (\<lambda>latest.
         if tx_id E latest = si_txid arg then Ok s
         else Err (Service_Error UnexpectedProposalTxId No_Description))
     | Some (proposal, expected_inputs) \<Rightarrow>
         if tx_id E proposal \<noteq> si_txid arg
         then Err (Service_Error UnexpectedProposalTxId No_Description)
         else
           bind_oc (config_redeem_script E config) (\<lambda>redeem_script.
           let quorum = redeem_quorum E redeem_script in
           bind_oc (verify_signature E arg redeem_script public_key proposal expected_inputs) (\<lambda>_.
           use_signature E s redeem_script quorum anchoring_node_id proposal expected_inputs
             arg))))))"

definition add_funds ::
  "env \<Rightarrow> exec_context \<Rightarrow> schema \<Rightarrow> add_funds_msg \<Rightarrow> (schema, execution_error) outcome" where
  "add_funds E ctx s arg =
     bind_oc (ok_or Common_UnauthorizedCaller (caller_author ctx)) (\<lambda>author.
     bind_oc (actual_config s) (\<lambda>config.
     bind_oc (ok_or (Service_Error UnauthorizedAnchoringKey No_Description)
         (find_bitcoin_key config author)) (\<lambda>(_, public_key).
     bind_oc (anchoring_out_script E config) (\<lambda>script.
     bind_oc (ok_or (Service_Error UnsuitableFundingTx No_Description)
         (find_out (af_transaction arg) script)) (\<lambda>_.
     let funding_txid = tx_id E (af_transaction arg) in
     if spent_funding_transactions s funding_txid \<noteq> None
     then Err (Service_Error AlreadyUsedFundingTx No_Description)
     else
       let confirmations = confirm_by_node (unwrap_or_default bmap_default
             (unconfirmed_funding_transactions s funding_txid)) public_key in
       if has_enough_confirmations E confirmations config
       then set_funding_transaction E s (af_transaction arg)
       else Ok (s\<lparr>unconfirmed_funding_transactions :=
              (unconfirmed_funding_transactions s)(funding_txid \<mapsto> confirmations)\<rparr>))))))"

section \<open>Service hooks\<close>

text \<open>\<open>Config::from_bytes\<close> is derived by a macro of another crate, hence an argument.\<close>

definition initialize ::
  "env \<Rightarrow> (bytes \<Rightarrow> lib_error + config) \<Rightarrow> schema \<Rightarrow> bytes \<Rightarrow> (schema, execution_error) outcome" where
  "initialize E config_from_bytes s params =
     bind_oc (map_err (\<lambda>e. Common_MalformedArguments (Malformed_Config_Bytes e))
         (of_sum (config_from_bytes params))) (\<lambda>config.
     bind_oc (map_err (\<lambda>e. Common_MalformedArguments (Malformed_Config e)) (validate E config)) (\<lambda>_.
     Ok (s\<lparr>actual_config_entry := Some config\<rparr>)))"

definition verify_config ::
  "env \<Rightarrow> exec_context \<Rightarrow> config \<Rightarrow> (unit, execution_error) outcome" where
  "verify_config E ctx params =
     (if \<not> caller_is_supervisor ctx then Err Common_UnauthorizedCaller
      else map_err (\<lambda>e. Common_MalformedArguments (Malformed_Config e)) (validate E params))"

definition apply_config ::
  "env \<Rightarrow> exec_context \<Rightarrow> schema \<Rightarrow> config \<Rightarrow> (schema, execution_error) outcome" where
  "apply_config E ctx s params =
     (if \<not> caller_is_supervisor ctx then Err Common_UnauthorizedCaller
      else
        bind_oc (actual_config s) (\<lambda>actual.
        bind_oc (anchoring_address E actual) (\<lambda>a.
        bind_oc (anchoring_address E params) (\<lambda>b.
        if a = b then Ok (s\<lparr>actual_config_entry := Some params\<rparr>)
        else Ok (s\<lparr>following_config_entry := Some params\<rparr>)))))"

end
