(* ===== verification/Schema_Invariant.thy ===== *)
theory Schema_Invariant
  imports Service
begin

text \<open>
  The invariant of the service's state. It says that both configurations are valid, that every
  transaction of the anchoring chain anchors a block of the blockchain and spends the output of
  its predecessor, that the chain ends at the address of the actual configuration, and that the
  funding transaction that is kept has not been spent. Under the invariant the proposal is computed
  by one \<open>create\<close> call on a builder that is written out (\<open>proposal_builder\<close>): the branches of
  \<open>proposed_anchoring_transaction\<close> that report an unsuitable output or try to recover are dead.
\<close>

section \<open>The blockchain the service runs on\<close>

text \<open>The genesis block exists, and heights are far from the end of the 64-bit range.\<close>

definition core_laws :: "core_schema \<Rightarrow> bool" where
  "core_laws core \<longleftrightarrow> core 0 \<noteq> None \<and> (\<forall>h. core h \<noteq> None \<longrightarrow> unat h < 2 ^ 63)"

lemma core_lawsD: "core_laws core \<Longrightarrow> core h = Some hash \<Longrightarrow> unat h < 2 ^ 63"
  by (auto simp: core_laws_def)

section \<open>The invariant\<close>

definition anchored :: "env \<Rightarrow> transaction \<Rightarrow> payload" where
  "anchored E tx = snd (the (tx_metadata E tx))"

definition anchors_block :: "env \<Rightarrow> core_schema \<Rightarrow> transaction \<Rightarrow> bool" where
  "anchors_block E core tx \<longleftrightarrow> tx_input tx \<noteq> [] \<and> tx_metadata E tx \<noteq> None \<and>
     prev_tx_chain (anchored E tx) = None \<and>
     core (block_height (anchored E tx)) = Some (block_hash (anchored E tx))"

definition spends_tail :: "env \<Rightarrow> transaction \<Rightarrow> transaction \<Rightarrow> bool" where
  "spends_tail E a b \<longleftrightarrow>
     (case tx_input b of
        [] \<Rightarrow> False
      | i # _ \<Rightarrow> previous_output i = \<lparr>op_txid = tx_id E a, op_vout = 0\<rparr>)"

definition chain_link :: "env \<Rightarrow> transaction \<Rightarrow> transaction \<Rightarrow> bool" where
  "chain_link E a b \<longleftrightarrow> spends_tail E a b \<and>
     block_height (anchored E a) \<le> block_height (anchored E b)"

definition spent_txids :: "transaction \<Rightarrow> sha256d set" where
  "spent_txids tx = (\<lambda>i. op_txid (previous_output i)) ` set (tx_input tx)"

definition configs_ok :: "env \<Rightarrow> schema \<Rightarrow> bool" where
  "configs_ok E s \<longleftrightarrow> actual_config_entry s \<noteq> None \<and>
     (\<forall>c. actual_config_entry s = Some c \<longrightarrow> valid_config E c) \<and>
     (\<forall>c. following_config_entry s = Some c \<longrightarrow> valid_config E c)"

definition chain_ok :: "env \<Rightarrow> core_schema \<Rightarrow> schema \<Rightarrow> bool" where
  "chain_ok E core s \<longleftrightarrow> (\<forall>tx \<in> set (transactions_chain s). anchors_block E core tx) \<and>
     successively (chain_link E) (transactions_chain s)"

definition tail_ok :: "env \<Rightarrow> schema \<Rightarrow> bool" where
  "tail_ok E s \<longleftrightarrow> (transactions_chain s \<noteq> [] \<longrightarrow>
     fst (the (tx_metadata E (last (transactions_chain s)))) =
       out_script_of E (the (actual_config_entry s)))"

definition funding_ok :: "env \<Rightarrow> schema \<Rightarrow> bool" where
  "funding_ok E s \<longleftrightarrow>
     (\<forall>f. unspent_funding_entry s = Some f \<longrightarrow>
        find_out f (out_script_of E (the (actual_config_entry s))) \<noteq> None \<and>
        spent_funding_transactions s (tx_id E f) = None) \<and>
     (\<forall>k f. spent_funding_transactions s k = Some f \<longrightarrow>
        tx_id E f = k \<and> (\<exists>tx \<in> set (transactions_chain s). k \<in> spent_txids tx))"

text \<open>A stored signature verified, when it was accepted, for a proposal with the id it is kept under.\<close>

definition sig_justified :: "env \<Rightarrow> tx_input_id \<Rightarrow> u16 \<Rightarrow> input_signature \<Rightarrow> bool" where
  "sig_justified E key n sig \<longleftrightarrow> (\<exists>c proposal prev. valid_config E c \<and>
     unat n < length (anchoring_keys c) \<and> tx_id E proposal = id_txid key \<and>
     verify_input E (redeem_of E c) (proposal, unat (id_input key)) prev
       (bitcoin_key (anchoring_keys c ! unat n)) sig = None)"

definition maps_ok :: "env \<Rightarrow> schema \<Rightarrow> bool" where
  "maps_ok E s \<longleftrightarrow>
     (\<forall>key m. transaction_signatures s key = Some m \<longrightarrow>
        bmap_ordered m \<and> (\<forall>(n, sig) \<in> set m. sig_justified E key n sig)) \<and>
     (\<forall>k m. unconfirmed_funding_transactions s k = Some m \<longrightarrow> bmap_ordered m)"

definition schema_inv :: "env \<Rightarrow> core_schema \<Rightarrow> schema \<Rightarrow> bool" where
  "schema_inv E core s \<longleftrightarrow> configs_ok E s \<and> chain_ok E core s \<and> tail_ok E s \<and> funding_ok E s \<and>
     maps_ok E s"

lemmas schema_inv_defs = schema_inv_def configs_ok_def chain_ok_def tail_ok_def funding_ok_def
  maps_ok_def

lemma schema_inv_config:
  assumes "schema_inv E core s"
  obtains c where "actual_config_entry s = Some c" "valid_config E c"
    "\<And>f. following_config_entry s = Some f \<Longrightarrow> valid_config E f"
  using assms by (auto simp: schema_inv_def configs_ok_def)

lemma schema_inv_tail:
  assumes "schema_inv E core s" "actual_config_entry s = Some c" "transactions_chain s \<noteq> []"
  shows "tx_metadata E (last (transactions_chain s)) =
      Some (out_script_of E c, anchored E (last (transactions_chain s)))"
    "core (block_height (anchored E (last (transactions_chain s)))) =
      Some (block_hash (anchored E (last (transactions_chain s))))"
proof -
  let ?t = "last (transactions_chain s)"
  have t: "anchors_block E core ?t"
    using assms by (simp add: schema_inv_def chain_ok_def)
  have "fst (the (tx_metadata E ?t)) = out_script_of E c"
    using assms by (simp add: schema_inv_def tail_ok_def)
  with t show "tx_metadata E ?t = Some (out_script_of E c, anchored E ?t)"
    by (cases "tx_metadata E ?t") (auto simp: anchors_block_def anchored_def)
  show "core (block_height (anchored E ?t)) = Some (block_hash (anchored E ?t))"
    using t by (simp add: anchors_block_def)
qed

lemma schema_inv_funding:
  assumes "schema_inv E core s" "actual_config_entry s = Some c" "unspent_funding_entry s = Some f"
  obtains i out where "find_out f (out_script_of E c) = Some (i, out)"
    "spent_funding_transactions s (tx_id E f) = None"
  using assms by (auto simp: schema_inv_def funding_ok_def)

text \<open>The invariant does not depend on where the blockchain goes on.\<close>

lemma schema_inv_core_mono:
  assumes "schema_inv E core s" "core \<subseteq>\<^sub>m core'"
  shows "schema_inv E core' s"
proof -
  have "anchors_block E core' tx" if "anchors_block E core tx" for tx
    using that assms(2) by (auto simp: anchors_block_def map_le_def dom_def)
  with assms(1) show ?thesis by (auto simp: schema_inv_def chain_ok_def)
qed

section \<open>The proposal under the invariant\<close>

definition in_transition :: "env \<Rightarrow> schema \<Rightarrow> config \<Rightarrow> bool" where
  "in_transition E s c =
     (case following_config_entry s of None \<Rightarrow> False | Some f \<Rightarrow> redeem_of E c \<noteq> redeem_of E f)"

text \<open>Two different redeem scripts with one output script; no transition can be made then.\<close>

definition transition_stuck :: "env \<Rightarrow> schema \<Rightarrow> config \<Rightarrow> bool" where
  "transition_stuck E s c \<longleftrightarrow> in_transition E s c \<and> transactions_chain s \<noteq> [] \<and>
     out_script_of E (the (following_config_entry s)) = out_script_of E c"

definition proposal_height :: "env \<Rightarrow> schema \<Rightarrow> config \<Rightarrow> u64" where
  "proposal_height E s c =
     (if transactions_chain s = [] then 0
      else let h = block_height (anchored E (last (transactions_chain s)))
           in if in_transition E s c then h else next_anchoring_height c h)"

definition funding_source :: "script \<Rightarrow> transaction \<Rightarrow> nat \<times> transaction" where
  "funding_source script f = (fst (the (find_out f script)), f)"

definition proposal_builder :: "env \<Rightarrow> schema \<Rightarrow> config \<Rightarrow> u64 \<Rightarrow> hash \<Rightarrow> tx_builder" where
  "proposal_builder E s c h hash = \<lparr>
     builder_script_pubkey = out_script_of E c,
     builder_transit_to = (if in_transition E s c \<and> transactions_chain s \<noteq> []
        then Some (out_script_of E (the (following_config_entry s))) else None),
     builder_prev_tx = last_opt (transactions_chain s),
     builder_recovery_tx = None,
     builder_additional_funds = (case unspent_funding_entry s of
        None \<Rightarrow> [] | Some f \<Rightarrow> [funding_source (out_script_of E c) f]),
     builder_fee = Some (transaction_fee c),
     builder_payload = Some (h, hash)\<rparr>"

lemma actual_state_eq:
  assumes "schema_inv E core s" "actual_config_entry s = Some c"
  shows "actual_state E s = Ok (if in_transition E s c
    then State_Transition c (the (following_config_entry s)) else State_Regular c)"
proof -
  have "valid_config E c" "\<And>f. following_config_entry s = Some f \<Longrightarrow> valid_config E f"
    using assms by (auto simp: schema_inv_def configs_ok_def)
  then show ?thesis
    using assms(2)
    by (auto simp: actual_state_def actual_config_def following_config_def in_transition_def
        valid_config_scripts split: option.split)
qed

lemma latest_anchored_height_eq:
  assumes "hash_laws E" "schema_inv E core s"
  shows "latest_anchored_height E s = Ok (map_option (\<lambda>t. block_height (anchored E t))
     (last_opt (transactions_chain s)))"
proof (cases "transactions_chain s = []")
  case True
  then show ?thesis by (simp add: latest_anchored_height_def last_opt_def)
next
  case False
  obtain c where "actual_config_entry s = Some c" using assms(2) by (rule schema_inv_config)
  with assms False show ?thesis
    by (simp add: latest_anchored_height_def last_opt_def anchoring_metadata_eq
        schema_inv_tail(1) [OF assms(2)])
qed

lemma attach_last_tx_eq:
  assumes "hash_laws E" "schema_inv E core s" "actual_config_entry s = Some c"
    and "transactions_chain s \<noteq> []" "builder_script_pubkey b = out_script_of E c"
    and "actual_state E s = (Ok st :: (_, builder_error) outcome)"
  shows "attach_last_tx E st u b (last (transactions_chain s)) =
    (if transition_stuck E s c then Ok None
     else Ok (Some (b\<lparr>builder_prev_tx := Some (last (transactions_chain s)),
       builder_transit_to := if in_transition E s c
         then Some (out_script_of E (the (following_config_entry s)))
         else builder_transit_to b\<rparr>)))"
proof -
  let ?t = "last (transactions_chain s)"
  have st: "st = (if in_transition E s c
      then State_Transition c (the (following_config_entry s)) else State_Regular c)"
    using assms(6) by (simp add: actual_state_eq [OF assms(2,3)])
  have meta: "anchoring_metadata E ?t =
      (Ok (Some (out_script_of E c, anchored E ?t)) :: (_, builder_error) outcome)"
    by (simp add: anchoring_metadata_eq assms(1) schema_inv_tail(1) [OF assms(2-4)])
  have "script_pubkey (tx_output ?t ! 0) = out_script_of E c" "2 \<le> length (tx_output ?t)"
    using schema_inv_tail(1) [OF assms(2-4)] tx_payload_length [of E ?t]
    by (auto simp: tx_metadata_def)
  then have out: "\<exists>out. index_at (tx_output ?t) 0 = (Ok out :: (_, builder_error) outcome) \<and>
      script_pubkey out = out_script_of E c"
    by (cases "tx_output ?t") (auto simp: index_at_def)
  show ?thesis
  proof (cases "in_transition E s c")
    case True
    then obtain f where f: "following_config_entry s = Some f"
      by (auto simp: in_transition_def split: option.splits)
    then have "valid_config E f" using assms(2) by (auto simp: schema_inv_def configs_ok_def)
    then have "state_script_pubkey E st = (Ok (out_script_of E f) :: (_, builder_error) outcome)"
      by (simp add: st True f state_script_pubkey_def state_redeem_script_def valid_config_scripts
          out_script_of_def)
    with True f meta out assms(4,5) show ?thesis
      by (auto simp: attach_last_tx_def st is_transition_def transition_stuck_def set_prev_tx_def
          set_transit_to_def)
  next
    case False
    with meta assms(5) show ?thesis
      by (simp add: attach_last_tx_def st is_transition_def transition_stuck_def set_prev_tx_def)
  qed
qed

lemma following_height_eq:
  assumes "schema_inv E core s" "core_laws core" "actual_config_entry s = Some c"
    and "actual_state E s = (Ok st :: (_, 'f) outcome)"
  shows "state_following_anchoring_height E st
      (map_option (\<lambda>t. block_height (anchored E t)) (last_opt (transactions_chain s))) =
    (Ok (proposal_height E s c) :: (_, 'e) outcome)"
proof -
  have st: "st = (if in_transition E s c
      then State_Transition c (the (following_config_entry s)) else State_Regular c)"
    using assms(4) by (simp add: actual_state_eq [OF assms(1,3)])
  have "0 < anchoring_interval c"
    using assms(1,3) by (auto simp: schema_inv_def configs_ok_def intro: valid_configD(3))
  then have "following_anchoring_height E c (block_height (anchored E (last (transactions_chain s)))) =
      (Ok (next_anchoring_height c (block_height (anchored E (last (transactions_chain s)))))
         :: (_, 'e) outcome)"
    if "transactions_chain s \<noteq> []"
    using following_anchoring_height_eq(1) core_lawsD [OF assms(2)]
      schema_inv_tail(2) [OF assms(1,3) that] by blast
  then show ?thesis
    by (simp add: st state_following_anchoring_height_def last_opt_def proposal_height_def Let_def)
qed

text \<open>The builder of the proposal after the last transaction was attached, and after the funds.\<close>

definition attached_builder :: "env \<Rightarrow> schema \<Rightarrow> config \<Rightarrow> tx_builder" where
  "attached_builder E s c = (tx_builder_new E (redeem_of E c))\<lparr>
     builder_prev_tx := last_opt (transactions_chain s),
     builder_transit_to := if in_transition E s c \<and> transactions_chain s \<noteq> []
       then Some (out_script_of E (the (following_config_entry s))) else None\<rparr>"

definition funded_builder :: "env \<Rightarrow> schema \<Rightarrow> config \<Rightarrow> tx_builder" where
  "funded_builder E s c = (attached_builder E s c)\<lparr>builder_additional_funds :=
     (case unspent_funding_entry s of None \<Rightarrow> [] | Some f \<Rightarrow> [funding_source (out_script_of E c) f])\<rparr>"

lemma attach_eq:
  assumes "hash_laws E" "schema_inv E core s" "actual_config_entry s = Some c"
    and "actual_state E s = (Ok st :: (_, builder_error) outcome)"
  shows "(case last_opt (transactions_chain s) of
       None \<Rightarrow> Ok (Some (tx_builder_new E (redeem_of E c)))
     | Some tx \<Rightarrow> attach_last_tx E st (unspent_funding_entry s) (tx_builder_new E (redeem_of E c)) tx) =
    (if transition_stuck E s c then Ok None else Ok (Some (attached_builder E s c)))"
proof (cases "transactions_chain s = []")
  case True
  then show ?thesis by (simp add: last_opt_def transition_stuck_def tx_builder_new_def attached_builder_def)
next
  case False
  have b: "builder_script_pubkey (tx_builder_new E (redeem_of E c)) = out_script_of E c"
    by (simp add: tx_builder_new_def out_script_of_def)
  from False show ?thesis
    by (simp add: last_opt_def attach_last_tx_eq [OF assms(1-3) False b assms(4)])
      (simp add: attached_builder_def tx_builder_new_def last_opt_def)
qed

lemma add_funds_to_builder_eq:
  assumes "schema_inv E core s" "actual_config_entry s = Some c"
  shows "(case unspent_funding_entry s of
       None \<Rightarrow> Ok (attached_builder E s c)
     | Some tx \<Rightarrow> add_additional_funds (attached_builder E s c) tx) = Ok (funded_builder E s c)"
proof (cases "unspent_funding_entry s")
  case None
  then show ?thesis by (simp add: tx_builder_new_def attached_builder_def funded_builder_def)
next
  case (Some f)
  then obtain i out where "find_out f (out_script_of E c) = Some (i, out)"
    by (rule schema_inv_funding [OF assms])
  with Some show ?thesis
    by (simp add: add_additional_funds_def funding_source_def attached_builder_def funded_builder_def)
      (simp add: tx_builder_new_def out_script_of_def)
qed

text \<open>
  The proposal: under the invariant it is one call of \<open>create\<close>, once the block to be anchored
  exists.
\<close>

lemma actual_proposed_eq:
  assumes "crate_laws E" "core_laws core" "schema_inv E core s" "actual_config_entry s = Some c"
  shows "actual_proposed_anchoring_transaction E core s =
    (if transition_stuck E s c then Ok None
     else case core (proposal_height E s c) of
       None \<Rightarrow> Ok None
     | Some hash \<Rightarrow>
         map_ok Some (create E (proposal_builder E s c (proposal_height E s c) hash)))"
proof -
  have hl: "hash_laws E" using assms(1) by (simp add: crate_laws_def)
  obtain st where st: "actual_state E s = (Ok st :: (_, builder_error) outcome)"
    using actual_state_eq [OF assms(3,4)] by blast
  have actual: "actual_config_of st = c"
    using st by (auto simp: actual_state_eq [OF assms(3,4)] actual_config_of_def split: if_splits)
  have redeem: "config_redeem_script E c = (Ok (redeem_of E c) :: (_, builder_error) outcome)"
    using assms(3,4) by (auto simp: schema_inv_def configs_ok_def intro: valid_config_scripts)
  have builder: "set_fee (set_payload (funded_builder E s c) h hash) (transaction_fee c) =
      proposal_builder E s c h hash" for h hash
    by (simp add: proposal_builder_def set_fee_def set_payload_def tx_builder_new_def
        out_script_of_def funded_builder_def attached_builder_def)
  show ?thesis
    unfolding actual_proposed_anchoring_transaction_def st bind_oc.simps
      proposed_anchoring_transaction_def actual Let_def redeem attach_eq [OF hl assms(3,4) st]
    by (cases "transition_stuck E s c")
      (simp_all only: bind_oc.simps if_True if_False simp_thms option.case
        add_funds_to_builder_eq [OF assms(3,4)] builder
        latest_anchored_height_eq [OF hl assms(3)] following_height_eq [OF assms(3,2,4) st])
qed

section \<open>What a proposal is\<close>

definition target_config :: "env \<Rightarrow> schema \<Rightarrow> config \<Rightarrow> config" where
  "target_config E s c =
     (if in_transition E s c \<and> transactions_chain s \<noteq> [] then the (following_config_entry s) else c)"

lemma proposal_builder_sources:
  "builder_sources (proposal_builder E s c h hash) =
     (if transactions_chain s = [] then [] else [(0, last (transactions_chain s))]) @
     (case unspent_funding_entry s of
        None \<Rightarrow> [] | Some f \<Rightarrow> [funding_source (out_script_of E c) f])"
  by (simp add: builder_sources_def proposal_builder_def last_opt_def)

lemma proposal_builder_output:
  "builder_output (proposal_builder E s c h hash) = out_script_of E (target_config E s c)"
  by (simp add: builder_output_def proposal_builder_def target_config_def)

text \<open>The shape of a proposal that was made; \<open>proposal_tx\<close> collects what later steps use of it.\<close>

definition proposal_tx ::
  "env \<Rightarrow> core_schema \<Rightarrow> schema \<Rightarrow> config \<Rightarrow> transaction \<Rightarrow> bool" where
  "proposal_tx E core s c tx \<longleftrightarrow>
     anchors_block E core tx \<and> block_height (anchored E tx) = proposal_height E s c \<and>
     fst (the (tx_metadata E tx)) = out_script_of E (target_config E s c) \<and>
     (transactions_chain s \<noteq> [] \<longrightarrow> spends_tail E (last (transactions_chain s)) tx) \<and>
     (\<forall>f. unspent_funding_entry s = Some f \<longrightarrow> tx_id E f \<in> spent_txids tx)"

lemma proposal_OkD:
  assumes "crate_laws E" "core_laws core" "schema_inv E core s" "actual_config_entry s = Some c"
    and "actual_proposed_anchoring_transaction E core s = Ok (Some (tx, inputs))"
  obtains hash where "core (proposal_height E s c) = Some hash" "\<not> transition_stuck E s c"
    "create E (proposal_builder E s c (proposal_height E s c) hash) = Ok (tx, inputs)"
  using assms(5) unfolding actual_proposed_eq [OF assms(1-4)]
  by (auto simp: outcome_simps split: if_splits option.splits)

lemma proposal_is_proposal_tx:
  assumes "crate_laws E" "core_laws core" "schema_inv E core s" "actual_config_entry s = Some c"
    and "actual_proposed_anchoring_transaction E core s = Ok (Some (tx, inputs))"
  shows "proposal_tx E core s c tx" "length (tx_input tx) = length inputs"
    "inputs = (if transactions_chain s = [] then [] else [last (transactions_chain s)]) @
       (case unspent_funding_entry s of None \<Rightarrow> [] | Some f \<Rightarrow> [f])"
proof -
  obtain hash where core: "core (proposal_height E s c) = Some hash"
    and create: "create E (proposal_builder E s c (proposal_height E s c) hash) = Ok (tx, inputs)"
    by (rule proposal_OkD [OF assms])
  let ?b = "proposal_builder E s c (proposal_height E s c) hash"
  let ?p = "\<lparr>block_height = proposal_height E s c, block_hash = hash, prev_tx_chain = None\<rparr>"
  obtain v where tx: "tx = draft_tx E ?b ?p v" and inputs: "inputs = map snd (builder_sources ?b)"
    and src: "builder_sources ?b \<noteq> []"
    using create_OkD [OF assms(1) create] by (simp add: proposal_builder_def) blast
  have meta: "tx_metadata E tx = Some (out_script_of E (target_config E s c), ?p)"
    by (simp add: tx tx_metadata_draft_tx [OF assms(1)] proposal_builder_output)
  have "spends_tail E (last (transactions_chain s)) tx" if "transactions_chain s \<noteq> []"
    using that by (simp add: tx spends_tail_def proposal_builder_sources funding_txin_def tx_id_def)
  moreover have "tx_id E f \<in> spent_txids tx" if "unspent_funding_entry s = Some f" for f
    using that
    by (simp add: tx spent_txids_def proposal_builder_sources funding_txin_def tx_id_def
        funding_source_def)
  ultimately show "proposal_tx E core s c tx"
    using src by (simp add: proposal_tx_def anchors_block_def anchored_def meta core) (simp add: tx)
  show "length (tx_input tx) = length inputs" by (simp add: tx inputs)
  show "inputs = (if transactions_chain s = [] then [] else [last (transactions_chain s)]) @
       (case unspent_funding_entry s of None \<Rightarrow> [] | Some f \<Rightarrow> [f])"
    by (simp add: inputs proposal_builder_sources funding_source_def split: option.split)
qed

lemma proposal_inputs_nonempty:
  assumes "crate_laws E" "core_laws core" "schema_inv E core s" "actual_config_entry s = Some c"
    and "actual_proposed_anchoring_transaction E core s = Ok (Some (tx, inputs))"
  shows "inputs \<noteq> []"
proof -
  obtain hash where create:
      "create E (proposal_builder E s c (proposal_height E s c) hash) = Ok (tx, inputs)"
    by (rule proposal_OkD [OF assms])
  show ?thesis by (rule create_OkD [OF assms(1) create]) simp
qed

lemma proposal_inputs:
  assumes "crate_laws E" "core_laws core" "schema_inv E core s" "actual_config_entry s = Some c"
    and "actual_proposed_anchoring_transaction E core s = Ok (Some (tx, inputs))"
  shows "map (\<lambda>i. op_txid (previous_output i)) (tx_input tx) = map (tx_id E) inputs"
proof -
  obtain hash where create:
      "create E (proposal_builder E s c (proposal_height E s c) hash) = Ok (tx, inputs)"
    by (rule proposal_OkD [OF assms])
  show ?thesis
    by (rule create_OkD [OF assms(1) create]) (simp add: funding_txin_def tx_id_def)
qed

text \<open>In a release build the proposal's \<open>create\<close> has a transaction or one of two errors.\<close>

lemma proposal_sources_in_range:
  assumes "schema_inv E core s" "actual_config_entry s = Some c"
  shows "\<forall>it \<in> set (builder_sources (proposal_builder E s c h hash)). source_in_range it"
proof -
  have "source_in_range (0, last (transactions_chain s))" if "transactions_chain s \<noteq> []"
    using schema_inv_tail(1) [OF assms that] tx_payload_length [of E "last (transactions_chain s)"]
    by (auto simp: source_in_range_def tx_metadata_def)
  moreover have "source_in_range (funding_source (out_script_of E c) f)"
    if f: "unspent_funding_entry s = Some f" for f
  proof -
    obtain i out where out: "find_out f (out_script_of E c) = Some (i, out)"
      by (rule schema_inv_funding [OF assms f])
    then have "i < length (tx_output f)" by (simp add: find_out_Some_iff)
    with out show ?thesis by (simp add: source_in_range_def funding_source_def)
  qed
  ultimately show ?thesis
    by (auto simp: proposal_builder_sources split: option.splits if_splits)
qed

lemma create_inputs_release:
  assumes "\<not> debug_build E" "\<forall>it \<in> set xs. source_in_range it"
  shows "\<exists>r. create_inputs E input txs bal xs = (Ok r :: (_, 'e) outcome)"
  using assms(2)
proof (induction xs arbitrary: input txs bal)
  case Nil
  then show ?case by simp
next
  case (Cons it xs)
  obtain i tx where it: "it = (i, tx)" by (cases it)
  with Cons assms(1) show ?case
    by (simp add: index_at_def get_nth_def source_in_range_def add_u64_def)
qed

lemma create_proposal_result:
  assumes "crate_laws E" "schema_inv E core s" "actual_config_entry s = Some c" "\<not> debug_build E"
  shows "if transactions_chain s = [] \<and> unspent_funding_entry s = None
    then create E (proposal_builder E s c h hash) = Err Builder_NoInputs
    else (\<exists>r. create E (proposal_builder E s c h hash) = Ok r) \<or>
      (\<exists>fee balance. create E (proposal_builder E s c h hash) =
         Err (Builder_InsufficientFunds fee balance) \<and> balance < fee)"
proof -
  let ?b = "proposal_builder E s c h hash"
  have b: "builder_payload ?b = Some (h, hash)" "builder_fee ?b = Some (transaction_fee c)"
    by (simp_all add: proposal_builder_def)
  obtain input txs bal where ci:
      "create_inputs E [] [] 0 (builder_sources ?b) = (Ok (input, txs, bal) :: (_, builder_error) outcome)"
    using create_inputs_release [OF assms(4) proposal_sources_in_range [OF assms(2,3)]] by force
  have txs: "txs = map snd (builder_sources ?b)" using create_inputs_OkD [OF ci] by simp
  have none: "builder_sources ?b = [] \<longleftrightarrow> transactions_chain s = [] \<and> unspent_funding_entry s = None"
    by (auto simp: proposal_builder_sources split: if_splits option.splits)
  show ?thesis
    using none assms(4)
    by (auto simp: create_eq [OF assms(1) b refl] ci txs mul_u64_def)
qed

lemma proposal_no_panic:
  assumes "crate_laws E" "core_laws core" "schema_inv E core s" "actual_config_entry s = Some c"
    and "\<not> debug_build E"
  shows "actual_proposed_anchoring_transaction E core s \<noteq> Panic p"
proof -
  have "map_ok Some (create E (proposal_builder E s c h hash)) \<noteq> Panic p" for h hash
    using create_proposal_result [OF assms(1,3-5), of h hash] by (auto split: if_splits)
  then show ?thesis by (simp add: actual_proposed_eq [OF assms(1-4)] split: option.split)
qed

lemma no_proposal_established:
  assumes "crate_laws E" "core_laws core" "schema_inv E core s" "actual_config_entry s = Some c"
    and "\<not> debug_build E" "actual_proposed_anchoring_transaction E core s = Ok None"
  shows "transactions_chain s \<noteq> []"
proof
  assume chain: "transactions_chain s = []"
  then obtain hash where "core (proposal_height E s c) = Some hash"
    using assms(2) by (auto simp: proposal_height_def core_laws_def)
  with chain have "map_ok Some (create E (proposal_builder E s c (proposal_height E s c) hash)) = Ok None"
    using assms(6) by (simp add: actual_proposed_eq [OF assms(1-4)] transition_stuck_def)
  then show False by (simp add: outcome_simps)
qed

text \<open>All results that the proposal can have.\<close>

lemma proposal_result:
  assumes "crate_laws E" "core_laws core" "schema_inv E core s" "actual_config_entry s = Some c"
    and "\<not> debug_build E"
  shows "case actual_proposed_anchoring_transaction E core s of
      Ok None \<Rightarrow> transactions_chain s \<noteq> []
    | Ok (Some _) \<Rightarrow> transactions_chain s \<noteq> [] \<or> unspent_funding_entry s \<noteq> None
    | Err Builder_NoInputs \<Rightarrow> transactions_chain s = [] \<and> unspent_funding_entry s = None
    | Err (Builder_InsufficientFunds fee balance) \<Rightarrow> balance < fee \<and>
        (transactions_chain s \<noteq> [] \<or> unspent_funding_entry s \<noteq> None)
    | _ \<Rightarrow> False"
proof (cases "transition_stuck E s c \<or> core (proposal_height E s c) = None")
  case True
  then have none: "actual_proposed_anchoring_transaction E core s = Ok None"
    by (auto simp: actual_proposed_eq [OF assms(1-4)])
  then show ?thesis using no_proposal_established [OF assms none] by simp
next
  case False
  then obtain hash where "core (proposal_height E s c) = Some hash" by blast
  with False have "actual_proposed_anchoring_transaction E core s =
      map_ok Some (create E (proposal_builder E s c (proposal_height E s c) hash))"
    by (simp add: actual_proposed_eq [OF assms(1-4)])
  with create_proposal_result [OF assms(1,3-5), of "proposal_height E s c" hash] show ?thesis
    by (auto split: if_splits)
qed

text \<open>The script a proposal pays to, as the code computes it.\<close>

lemma target_script:
  assumes "schema_inv E core s" "actual_config_entry s = Some c"
    and "actual_state E s = (Ok st :: (_, 'f) outcome)"
  shows "(if transactions_chain s = [] then anchoring_out_script E (actual_config_of st)
     else state_script_pubkey E st) = Ok (out_script_of E (target_config E s c))"
proof -
  have st: "st = (if in_transition E s c
      then State_Transition c (the (following_config_entry s)) else State_Regular c)"
    using assms(3) by (simp add: actual_state_eq [OF assms(1,2)])
  have "valid_config E c" "in_transition E s c \<Longrightarrow> valid_config E (the (following_config_entry s))"
    using assms(1,2) by (auto simp: schema_inv_def configs_ok_def in_transition_def split: option.splits)
  then show ?thesis
    by (auto simp: st state_script_pubkey_def state_redeem_script_def actual_config_of_def
        target_config_def valid_config_scripts out_script_of_def)
qed

text \<open>Signing changes nothing but the witness, and what a proposal is does not depend on it.\<close>

lemma strip_witness_eqD:
  assumes "strip_witness a = strip_witness b"
  shows "tx_output a = tx_output b"
    "map previous_output (tx_input a) = map previous_output (tx_input b)"
proof -
  have out: "tx_output (strip_witness t) = tx_output t"
    and inp: "map previous_output (tx_input (strip_witness t)) = map previous_output (tx_input t)" for t
    by (simp_all add: strip_witness_def)
  show "tx_output a = tx_output b" using assms out by metis
  show "map previous_output (tx_input a) = map previous_output (tx_input b)" using assms inp by metis
qed

lemma proposal_tx_strip_witness:
  assumes "strip_witness a = strip_witness b" "proposal_tx E core s c a"
  shows "proposal_tx E core s c b"
proof -
  have prev: "map previous_output (tx_input a) = map previous_output (tx_input b)"
    by (rule strip_witness_eqD(2) [OF assms(1)])
  have "tx_metadata E a = tx_metadata E b"
    by (rule tx_metadata_cong) (rule strip_witness_eqD(1) [OF assms(1)])
  moreover have "spends_tail E t a = spends_tail E t b" for t
    using prev by (auto simp: spends_tail_def split: list.split)
  moreover have "spent_txids t = op_txid ` set (map previous_output (tx_input t))" for t
    by (auto simp: spent_txids_def)
  with prev have "spent_txids a = spent_txids b" by presburger
  moreover have "tx_input a = [] \<longleftrightarrow> tx_input b = []"
    using prev by (metis map_is_Nil_conv)
  ultimately show ?thesis
    using assms(2) by (auto simp: proposal_tx_def anchors_block_def anchored_def)
qed

section \<open>The end of a round\<close>

text \<open>
  Pushing a signed proposal succeeds unless a following configuration is waiting to which the
  proposal does not pay, and it keeps the invariant.
\<close>

definition pushed :: "env \<Rightarrow> schema \<Rightarrow> transaction \<Rightarrow> schema" where
  "pushed E s tx = s\<lparr>
     transactions_chain := transactions_chain s @ [tx],
     spent_funding_transactions := (case unspent_funding_entry s of
        None \<Rightarrow> spent_funding_transactions s
      | Some f \<Rightarrow> (spent_funding_transactions s)(tx_id E f \<mapsto> f)),
     actual_config_entry := (case following_config_entry s of
        None \<Rightarrow> actual_config_entry s | Some f \<Rightarrow> Some f),
     following_config_entry := None, unspent_funding_entry := None\<rparr>"

lemma push_chain:
  "push_anchoring_transaction E s tx = (Ok s' :: (_, 'e) outcome) \<Longrightarrow>
     transactions_chain s' = transactions_chain s @ [tx]"
  by (auto simp: push_anchoring_transaction_def Let_def outcome_simps split: option.splits if_splits)

lemma push_not_Err: "hash_laws E \<Longrightarrow> push_anchoring_transaction E s tx \<noteq> Err e"
  by (auto simp: push_anchoring_transaction_def Let_def outcome_simps anchoring_out_script_def
      config_redeem_script_def anchoring_metadata_eq split: option.splits)

lemma push_eq:
  assumes "hash_laws E" "configs_ok E s" "tx_metadata E tx = Some (script, p)"
  shows "push_anchoring_transaction E s tx =
    (case following_config_entry s of
       None \<Rightarrow> Ok (pushed E s tx)
     | Some f \<Rightarrow> if out_script_of E f = script then Ok (pushed E s tx)
        else Panic (Assertion_Failed ''Malformed output address in the anchoring transaction.''))"
proof (cases "following_config_entry s")
  case None
  then show ?thesis
    by (simp add: push_anchoring_transaction_def Let_def following_config_def pushed_def
        split: option.split)
next
  case (Some f)
  then have "valid_config E f" using assms(2) by (auto simp: configs_ok_def)
  with Some assms(1,3) show ?thesis
    by (auto simp: push_anchoring_transaction_def Let_def following_config_def pushed_def
        anchoring_metadata_eq valid_config_scripts split: option.split)
qed

lemma proposal_height_mono:
  assumes "core_laws core" "schema_inv E core s" "actual_config_entry s = Some c"
    and "transactions_chain s \<noteq> []"
  shows "block_height (anchored E (last (transactions_chain s))) \<le> proposal_height E s c"
proof -
  have "0 < anchoring_interval c"
    using assms(2,3) by (auto simp: schema_inv_def configs_ok_def intro: valid_configD(3))
  then show ?thesis
    using next_anchoring_height_greater core_lawsD [OF assms(1) schema_inv_tail(2) [OF assms(2-4)]]
      assms(4) by (fastforce simp: proposal_height_def Let_def)
qed

lemma chain_ok_push:
  assumes "core_laws core" "schema_inv E core s" "actual_config_entry s = Some c"
    and "proposal_tx E core s c tx"
  shows "chain_ok E core (pushed E s tx)"
proof -
  have link: "chain_link E (last (transactions_chain s)) tx" if "transactions_chain s \<noteq> []"
    using assms(4) that proposal_height_mono [OF assms(1-3) that]
    by (simp add: proposal_tx_def chain_link_def)
  have "anchors_block E core tx" using assms(4) by (simp add: proposal_tx_def)
  with link assms(2) show ?thesis
    by (auto simp: schema_inv_def chain_ok_def pushed_def successively_append_iff)
qed

lemma funding_ok_push:
  assumes "funding_ok E s"
    and "\<And>f. unspent_funding_entry s = Some f \<Longrightarrow> tx_id E f \<in> spent_txids tx"
  shows "funding_ok E (pushed E s tx)"
proof -
  have "tx_id E f = k \<and> (\<exists>t \<in> set (transactions_chain s @ [tx]). k \<in> spent_txids t)"
    if "spent_funding_transactions (pushed E s tx) k = Some f" for k f
  proof (cases "unspent_funding_entry s = Some f \<and> k = tx_id E f")
    case True
    with assms(2) show ?thesis by simp
  next
    case False
    with that have "spent_funding_transactions s k = Some f"
      by (simp add: pushed_def split: option.splits if_splits)
    with assms(1) show ?thesis by (auto simp: funding_ok_def)
  qed
  then show ?thesis by (simp add: funding_ok_def pushed_def)
qed

lemma push_inv:
  assumes "crate_laws E" "core_laws core" "schema_inv E core s" "actual_config_entry s = Some c"
    and "proposal_tx E core s c tx"
    and "push_anchoring_transaction E s tx = (Ok s' :: (schema, 'e) outcome)"
  shows "s' = pushed E s tx" "schema_inv E core s'"
proof -
  have cfg: "configs_ok E s" using assms(3) by (simp add: schema_inv_def)
  have hl: "hash_laws E" using assms(1) by (simp add: crate_laws_def)
  let ?script = "out_script_of E (target_config E s c)"
  have meta: "tx_metadata E tx = Some (?script, anchored E tx)"
    using assms(5) by (auto simp: proposal_tx_def anchors_block_def anchored_def)
  have push: "s' = pushed E s tx" and paid: "following_config_entry s = Some f \<Longrightarrow>
      out_script_of E f = ?script" for f
    using assms(6) by (auto simp: push_eq [OF hl cfg meta] split: option.splits if_splits)
  show "s' = pushed E s tx" by (rule push)
  have "configs_ok E s'" using cfg by (auto simp: push pushed_def configs_ok_def split: option.splits)
  moreover have "chain_ok E core s'" using chain_ok_push [OF assms(2-5)] by (simp add: push)
  moreover have "tail_ok E s'"
  proof (cases "following_config_entry s")
    case None
    with assms(4) meta show ?thesis
      by (simp add: push pushed_def tail_ok_def target_config_def in_transition_def)
  next
    case (Some f)
    with meta paid [OF Some] show ?thesis by (simp add: push pushed_def tail_ok_def)
  qed
  moreover have "funding_ok E s'"
    unfolding push using assms(3,5) by (intro funding_ok_push) (auto simp: schema_inv_def proposal_tx_def)
  moreover have "maps_ok E s'" using assms(3) by (simp add: push pushed_def schema_inv_def maps_ok_def)
  ultimately show "schema_inv E core s'" by (simp add: schema_inv_def)
qed

text \<open>A proposal can be pushed unless a change of address precedes the first transaction.\<close>

lemma push_proposal:
  assumes "crate_laws E" "configs_ok E s" "actual_config_entry s = Some c"
    and "following_config_entry s = None \<or> transactions_chain s \<noteq> []"
    and "proposal_tx E core s c tx"
  shows "push_anchoring_transaction E s tx = Ok (pushed E s tx)"
proof -
  have hl: "hash_laws E" using assms(1) by (simp add: crate_laws_def)
  have meta: "tx_metadata E tx = Some (out_script_of E (target_config E s c), anchored E tx)"
    using assms(5) by (auto simp: proposal_tx_def anchors_block_def anchored_def)
  show ?thesis
  proof (cases "following_config_entry s")
    case None
    then show ?thesis by (simp add: push_eq [OF hl assms(2) meta])
  next
    case (Some f)
    with assms(4) have "out_script_of E f = out_script_of E (target_config E s c)"
      by (auto simp: target_config_def in_transition_def out_script_of_def)
    with Some show ?thesis by (simp add: push_eq [OF hl assms(2) meta])
  qed
qed

end
