(* ===== verification/Service_Steps.thy ===== *)
theory Service_Steps
  imports Schema_Invariant
begin

text \<open>
  The service as a state machine. A state is the blockchain's core schema together with the
  service's schema; a step is a \<open>sign_input\<close> or \<open>add_funds\<close> transaction that was executed, a
  verified configuration that the supervisor applies, or a new block. (A transaction that fails or
  panics is no step: its changes are discarded.) The states reachable from \<open>initialize\<close> satisfy the
  invariant, so the properties of the chain hold in every execution, in whatever order the
  transactions of the nodes arrive.
\<close>

section \<open>The effect of sign_input\<close>

definition with_signature :: "schema \<Rightarrow> tx_input_id \<Rightarrow> u16 \<Rightarrow> input_signature \<Rightarrow> schema" where
  "with_signature s key n sig = s\<lparr>transaction_signatures :=
     (transaction_signatures s)(key \<mapsto> bmap_insert n sig (input_signatures s key))\<rparr>"

lemma with_signature_simps [simp]:
  "transactions_chain (with_signature s key n sig) = transactions_chain s"
  "spent_funding_transactions (with_signature s key n sig) = spent_funding_transactions s"
  "actual_config_entry (with_signature s key n sig) = actual_config_entry s"
  "following_config_entry (with_signature s key n sig) = following_config_entry s"
  "unconfirmed_funding_transactions (with_signature s key n sig) =
     unconfirmed_funding_transactions s"
  "unspent_funding_entry (with_signature s key n sig) = unspent_funding_entry s"
  by (simp_all add: with_signature_def)

lemma input_signatures_with_signature:
  "input_signatures (with_signature s key n sig) k =
     (if k = key then bmap_insert n sig (input_signatures s key) else input_signatures s k)"
  by (simp add: input_signatures_def with_signature_def unwrap_or_default_def)

lemma input_signatures_ok:
  assumes "maps_ok E s"
  shows "bmap_ordered (input_signatures s key)"
    "\<forall>(n, sig) \<in> set (input_signatures s key). sig_justified E key n sig"
  using assms
  by (cases "transaction_signatures s key";
      force simp: input_signatures_def unwrap_or_default_def maps_ok_def bmap_default_def)+

lemma strip_witness_spend:
  assumes "segwit_laws E"
  shows "strip_witness (tx\<lparr>tx_input := (tx_input tx)[i := spend_input E signer (tx_input tx ! i) sigs]\<rparr>) =
    strip_witness tx"
proof -
  let ?w = "\<lambda>i :: tx_in. i\<lparr>witness := []\<rparr>"
  have "?w (spend_input E signer j sigs) = ?w j" for j
    using assms by (simp add: segwit_laws_def)
  then have "map ?w ((tx_input tx)[i := spend_input E signer (tx_input tx ! i) sigs]) =
      map ?w (tx_input tx)"
    by (metis (no_types, lifting) list_update_id map_update)
  then show ?thesis by (simp add: strip_witness_def)
qed

lemma finalize_inputs_SomeD:
  assumes "segwit_laws E"
    and "finalize_inputs E signer s pid q tx idxs = (Ok (Some fin) :: (_, 'e) outcome)" "distinct idxs"
  shows "strip_witness fin = strip_witness tx \<and> length (tx_input fin) = length (tx_input tx) \<and>
    (\<forall>i \<in> set idxs. bmap_len (input_signatures s (tx_input_id_new pid (of_nat i))) = q \<and>
       i < length (tx_input tx) \<and> tx_input fin ! i = spend_input E signer (tx_input tx ! i)
         (bmap_values (input_signatures s (tx_input_id_new pid (of_nat i))))) \<and>
    (\<forall>i. i \<notin> set idxs \<longrightarrow> tx_input fin ! i = tx_input tx ! i)"
  using assms(2,3)
proof (induction idxs arbitrary: tx)
  case Nil
  then show ?case by simp
next
  case (Cons i rest)
  let ?sigs = "input_signatures s (tx_input_id_new pid (of_nat i))"
  let ?tx = "tx\<lparr>tx_input := (tx_input tx)
      [i := spend_input E signer (tx_input tx ! i) (bmap_values ?sigs)]\<rparr>"
  from Cons.prems(1) have q: "bmap_len ?sigs = q" and i: "i < length (tx_input tx)"
    and rest: "finalize_inputs E signer s pid q ?tx rest = (Ok (Some fin) :: (_, 'e) outcome)"
    by (auto simp: Let_def outcome_simps index_at_def get_nth_eq_Some_iff split: if_splits)
  note IH = Cons.IH [OF rest]
  have "strip_witness ?tx = strip_witness tx" by (rule strip_witness_spend [OF assms(1)])
  moreover have "i \<notin> set rest" "distinct rest" using Cons.prems(2) by simp_all
  moreover have "tx_input ?tx ! j = tx_input tx ! j" if "j \<noteq> i" for j using that by simp
  ultimately show ?case
    using IH q i by (auto simp: nth_list_update)
qed

text \<open>Once the preconditions hold, the signature is stored and, if it completes the quorum of every
  input, the signed proposal is pushed.\<close>

definition signed_key :: "sign_input_msg \<Rightarrow> tx_input_id" where
  "signed_key arg = tx_input_id_new (si_txid arg) (si_input arg)"

lemma use_signature_OkE:
  assumes "use_signature E s signer q n proposal inputs arg = Ok s'" "tx_id E proposal = si_txid arg"
  obtains (idle) "s' = s" "q \<le> bmap_len (input_signatures s (signed_key arg))"
  | (stored) "s' = with_signature s (signed_key arg) n (si_input_signature arg)"
      "bmap_len (input_signatures s (signed_key arg)) < q"
  | (finalized) fin where
      "finalize_inputs E signer (with_signature s (signed_key arg) n (si_input_signature arg))
         (si_txid arg) q proposal [0..<length inputs] =
         (Ok (Some fin) :: (_, execution_error) outcome)"
      "push_anchoring_transaction E
         (with_signature s (signed_key arg) n (si_input_signature arg)) fin =
         (Ok s' :: (_, execution_error) outcome)"
      "bmap_len (input_signatures s (signed_key arg)) < q"
proof -
  have *: "s\<lparr>transaction_signatures := (transaction_signatures s)(signed_key arg \<mapsto>
        bmap_insert n (si_input_signature arg) (input_signatures s (signed_key arg)))\<rparr> =
      with_signature s (signed_key arg) n (si_input_signature arg)"
    by (simp add: with_signature_def)
  show thesis
    using assms idle stored finalized unfolding use_signature_def Let_def
    by (auto simp: signed_key_def [symmetric] * outcome_simps not_less split: if_splits option.splits)
qed

lemma finalize_inputs_not_Err [simp]: "finalize_inputs E signer s pid q tx idxs \<noteq> Err e"
  by (induction idxs arbitrary: tx) (simp_all add: Let_def index_at_def outcome_simps)

lemma use_signature_not_Err:
  "hash_laws E \<Longrightarrow> use_signature E s signer q n proposal inputs arg \<noteq> Err e"
  by (auto simp: use_signature_def Let_def outcome_simps push_not_Err anchoring_metadata_eq
      split: option.splits)

lemma sign_input_eq:
  assumes "schema_inv E core s" "actual_config_entry s = Some c" "for_core ctx = core"
  shows "sign_input E ctx s arg =
    (case caller_author ctx of None \<Rightarrow> Err Common_UnauthorizedCaller
     | Some author \<Rightarrow>
    case find_bitcoin_key c author of
       None \<Rightarrow> Err (Service_Error UnauthorizedAnchoringKey No_Description)
     | Some (n, pk) \<Rightarrow>
    case actual_proposed_anchoring_transaction E core s of
       Err e \<Rightarrow> Err (anchoring_builder_error e)
     | Panic p \<Rightarrow> Panic p
     | Ok None \<Rightarrow>
        (if transactions_chain s = [] then Panic Unwrap_None
         else if tx_id E (last (transactions_chain s)) = si_txid arg then Ok s
         else Err (Service_Error UnexpectedProposalTxId No_Description))
     | Ok (Some (proposal, inputs)) \<Rightarrow>
        (if tx_id E proposal \<noteq> si_txid arg
         then Err (Service_Error UnexpectedProposalTxId No_Description)
         else if length inputs \<le> unat (si_input arg)
         then Err (Service_Error NoSuchInput No_Description)
         else case verify_input E (redeem_of E c) (proposal, unat (si_input arg))
             (inputs ! unat (si_input arg)) pk (si_input_signature arg) of
           Some e \<Rightarrow> Err (Service_Error InputVerificationFailed (Of_Lib_Error e))
         | None \<Rightarrow> use_signature E s (redeem_of E c) (redeem_quorum E (redeem_of E c)) n
             proposal inputs arg))"
proof -
  have "valid_config E c" using assms(1,2) by (simp add: schema_inv_def configs_ok_def)
  then have redeem: "config_redeem_script E c = (Ok (redeem_of E c) :: (_, execution_error) outcome)"
    by (rule valid_config_scripts)
  have ac: "actual_config s = (Ok c :: (_, execution_error) outcome)"
    by (simp add: actual_config_def assms(2))
  show ?thesis
    by (simp add: sign_input_def ac assms(3) redeem verify_signature_def last_opt_def get_nth_def
        split: option.split outcome.split prod.split)
qed

text \<open>What an executed \<open>sign_input\<close> was: a repetition without effect, or a verified signature of
  an anchoring node for the current proposal.\<close>

lemma sign_input_OkE:
  assumes "schema_inv E core s" "actual_config_entry s = Some c" "for_core ctx = core"
    and "sign_input E ctx s arg = Ok s'"
  obtains (idle) "s' = s"
  | (used) author n pk proposal inputs where
      "caller_author ctx = Some author" "find_bitcoin_key c author = Some (n, pk)"
      "actual_proposed_anchoring_transaction E core s = Ok (Some (proposal, inputs))"
      "tx_id E proposal = si_txid arg" "unat (si_input arg) < length inputs"
      "verify_input E (redeem_of E c) (proposal, unat (si_input arg))
         (inputs ! unat (si_input arg)) pk (si_input_signature arg) = None"
      "use_signature E s (redeem_of E c) (redeem_quorum E (redeem_of E c)) n proposal inputs arg =
         Ok s'"
  using assms(4) unfolding sign_input_eq [OF assms(1-3)]
  by (auto simp: not_le split: option.splits outcome.splits if_splits)

section \<open>The invariant is kept\<close>

lemma with_signature_inv:
  assumes "schema_inv E core s" "sig_justified E key n sig"
  shows "schema_inv E core (with_signature s key n sig)"
proof -
  have maps: "maps_ok E s" using assms(1) by (simp add: schema_inv_def)
  have subset: "set (bmap_insert n sig m) \<subseteq> insert (n, sig) (set m)" for m
    by (induction m) (auto split: if_splits)
  have "\<forall>(k, v) \<in> set (bmap_insert n sig (input_signatures s key)). sig_justified E key k v"
    using subset [of "input_signatures s key"] input_signatures_ok(2) [OF maps, of key] assms(2)
    by fast
  moreover have "bmap_ordered (bmap_insert n sig (input_signatures s key))"
    by (rule bmap_ordered_insert) (rule input_signatures_ok(1) [OF maps])
  ultimately have "maps_ok E (with_signature s key n sig)"
    using maps by (auto simp: maps_ok_def with_signature_def)
  with assms(1) show ?thesis
    by (simp add: schema_inv_def configs_ok_def chain_ok_def tail_ok_def funding_ok_def)
qed

lemma proposal_tx_with_signature [simp]:
  "proposal_tx E core (with_signature s key n sig) c tx = proposal_tx E core s c tx"
  by (simp add: proposal_tx_def proposal_height_def target_config_def in_transition_def)

lemma sig_justifiedI:
  assumes "valid_config E c" "find_bitcoin_key c author = Some (n, pk)"
    and "tx_id E proposal = si_txid arg"
    and "verify_input E (redeem_of E c) (proposal, unat (si_input arg)) prev pk
       (si_input_signature arg) = None"
  shows "sig_justified E (signed_key arg) n (si_input_signature arg)"
proof -
  have "unat n < length (anchoring_keys c)" "bitcoin_key (anchoring_keys c ! unat n) = pk"
    using assms(2) find_bitcoin_key_Some_iff [OF valid_configD(2) [OF assms(1)]] by auto
  with assms show ?thesis
    unfolding sig_justified_def signed_key_def tx_input_id_new_def by auto
qed

lemma finalized_proposal_tx:
  assumes "crate_laws E" "core_laws core" "schema_inv E core s" "actual_config_entry s = Some c"
    and "actual_proposed_anchoring_transaction E core s = Ok (Some (proposal, inputs))"
    and "finalize_inputs E signer (with_signature s key n sig) pid q proposal [0..<length inputs] =
      (Ok (Some fin) :: (_, 'e) outcome)"
  shows "proposal_tx E core s c fin" "strip_witness fin = strip_witness proposal"
proof -
  have "segwit_laws E" using assms(1) by (simp add: crate_laws_def)
  then show "strip_witness fin = strip_witness proposal"
    using finalize_inputs_SomeD assms(6) distinct_upt by blast
  then show "proposal_tx E core s c fin"
    by (rule proposal_tx_strip_witness [OF sym, OF _ proposal_is_proposal_tx(1) [OF assms(1-5)]])
qed

lemma sign_input_inv:
  assumes "crate_laws E" "core_laws core" "schema_inv E core s" "for_core ctx = core"
    and "sign_input E ctx s arg = Ok s'"
  shows "schema_inv E core s'"
proof -
  obtain c where c: "actual_config_entry s = Some c" and v: "valid_config E c"
    using assms(3) by (rule schema_inv_config)
  show ?thesis
  proof (rule sign_input_OkE [OF assms(3) c assms(4,5)])
    show "schema_inv E core s'" if "s' = s" using that assms(3) by simp
  next
    fix author n pk proposal inputs
    assume key: "find_bitcoin_key c author = Some (n, pk)"
      and proposed: "actual_proposed_anchoring_transaction E core s = Ok (Some (proposal, inputs))"
      and id: "tx_id E proposal = si_txid arg"
      and ver: "verify_input E (redeem_of E c) (proposal, unat (si_input arg))
         (inputs ! unat (si_input arg)) pk (si_input_signature arg) = None"
      and used: "use_signature E s (redeem_of E c) (redeem_quorum E (redeem_of E c)) n proposal inputs
         arg = Ok s'"
    let ?s = "with_signature s (signed_key arg) n (si_input_signature arg)"
    have inv: "schema_inv E core ?s"
      by (rule with_signature_inv [OF assms(3) sig_justifiedI [OF v key id ver]])
    show "schema_inv E core s'"
    proof (rule use_signature_OkE [OF used id])
      fix fin
      assume fin: "finalize_inputs E (redeem_of E c) ?s (si_txid arg)
          (redeem_quorum E (redeem_of E c)) proposal [0..<length inputs] =
          (Ok (Some fin) :: (_, execution_error) outcome)"
        and push: "push_anchoring_transaction E ?s fin = (Ok s' :: (_, execution_error) outcome)"
      have tx: "proposal_tx E core ?s c fin"
        unfolding proposal_tx_with_signature
        by (rule finalized_proposal_tx(1) [OF assms(1-3) c proposed fin])
      show "schema_inv E core s'"
        by (rule push_inv(2) [OF assms(1,2) inv _ tx push]) (simp add: c)
    qed (use inv assms(3) in simp_all)
  qed
qed

text \<open>When the chain changed, the signature completed the proposal.\<close>

lemma sign_input_finalizedE:
  assumes "crate_laws E" "core_laws core" "schema_inv E core s" "actual_config_entry s = Some c"
    and "for_core ctx = core" "sign_input E ctx s arg = Ok s'"
    and "transactions_chain s' \<noteq> transactions_chain s"
  obtains n proposal inputs fin where
    "actual_proposed_anchoring_transaction E core s = Ok (Some (proposal, inputs))"
    "tx_id E proposal = si_txid arg"
    "finalize_inputs E (redeem_of E c) (with_signature s (signed_key arg) n (si_input_signature arg))
       (si_txid arg) (redeem_quorum E (redeem_of E c)) proposal [0..<length inputs] =
       (Ok (Some fin) :: (_, execution_error) outcome)"
    "s' = pushed E (with_signature s (signed_key arg) n (si_input_signature arg)) fin"
proof (rule sign_input_OkE [OF assms(3-6)])
  show thesis if "s' = s" using that assms(7) by simp
next
  fix author n pk proposal inputs
  assume key: "find_bitcoin_key c author = Some (n, pk)"
    and proposed: "actual_proposed_anchoring_transaction E core s = Ok (Some (proposal, inputs))"
    and pid: "tx_id E proposal = si_txid arg"
    and ver: "verify_input E (redeem_of E c) (proposal, unat (si_input arg))
       (inputs ! unat (si_input arg)) pk (si_input_signature arg) = None"
    and used: "use_signature E s (redeem_of E c) (redeem_quorum E (redeem_of E c)) n proposal inputs
       arg = Ok s'"
  have v: "valid_config E c" using assms(3,4) by (simp add: schema_inv_def configs_ok_def)
  let ?s = "with_signature s (signed_key arg) n (si_input_signature arg)"
  have inv: "schema_inv E core ?s"
    by (rule with_signature_inv [OF assms(3) sig_justifiedI [OF v key pid ver]])
  show thesis
  proof (rule use_signature_OkE [OF used pid])
    fix fin
    assume fin: "finalize_inputs E (redeem_of E c) ?s (si_txid arg)
        (redeem_quorum E (redeem_of E c)) proposal [0..<length inputs] =
        (Ok (Some fin) :: (_, execution_error) outcome)"
      and push: "push_anchoring_transaction E ?s fin = (Ok s' :: (_, execution_error) outcome)"
    have tx: "proposal_tx E core ?s c fin"
      unfolding proposal_tx_with_signature
      by (rule finalized_proposal_tx(1) [OF assms(1-4) proposed fin])
    have "s' = pushed E ?s fin"
      by (rule push_inv(1) [OF assms(1,2) inv _ tx push]) (simp add: assms(4))
    then show thesis by (rule that [OF proposed pid fin])
  qed (use assms(7) in simp_all)
qed

lemma sign_input_sameE:
  assumes "crate_laws E" "core_laws core" "schema_inv E core s" "actual_config_entry s = Some c"
    and "for_core ctx = core" "sign_input E ctx s arg = Ok s'"
    and "transactions_chain s' = transactions_chain s"
  obtains "s' = s" | n where "s' = with_signature s (signed_key arg) n (si_input_signature arg)"
proof (rule sign_input_OkE [OF assms(3-6)])
  show thesis if "s' = s" using that \<open>s' = s \<Longrightarrow> thesis\<close> by simp
next
  fix author n pk proposal inputs
  assume key: "find_bitcoin_key c author = Some (n, pk)"
    and proposed: "actual_proposed_anchoring_transaction E core s = Ok (Some (proposal, inputs))"
    and pid: "tx_id E proposal = si_txid arg"
    and ver: "verify_input E (redeem_of E c) (proposal, unat (si_input arg))
       (inputs ! unat (si_input arg)) pk (si_input_signature arg) = None"
    and used: "use_signature E s (redeem_of E c) (redeem_quorum E (redeem_of E c)) n proposal inputs
       arg = Ok s'"
  show thesis
    by (rule use_signature_OkE [OF used pid])
      (use assms(7) that in \<open>auto dest: push_chain\<close>)
qed

lemma add_funds_eq:
  assumes "schema_inv E core s" "actual_config_entry s = Some c"
  shows "add_funds E ctx s arg =
    (case caller_author ctx of None \<Rightarrow> Err Common_UnauthorizedCaller
     | Some author \<Rightarrow>
    case find_bitcoin_key c author of
       None \<Rightarrow> Err (Service_Error UnauthorizedAnchoringKey No_Description)
     | Some (n, pk) \<Rightarrow>
    let tx = af_transaction arg;
        confirmations = bmap_insert pk () (unwrap_or_default bmap_default
          (unconfirmed_funding_transactions s (tx_id E tx))) in
    if find_out tx (out_script_of E c) = None
    then Err (Service_Error UnsuitableFundingTx No_Description)
    else if spent_funding_transactions s (tx_id E tx) \<noteq> None
    then Err (Service_Error AlreadyUsedFundingTx No_Description)
    else if bmap_len confirmations = config_byzantine_quorum E c
    then Ok (s\<lparr>unconfirmed_funding_transactions :=
           (unconfirmed_funding_transactions s)(tx_id E tx \<mapsto> bmap_default),
         unspent_funding_entry := Some tx\<rparr>)
    else Ok (s\<lparr>unconfirmed_funding_transactions :=
           (unconfirmed_funding_transactions s)(tx_id E tx \<mapsto> confirmations)\<rparr>))"
proof -
  have "valid_config E c" using assms by (simp add: schema_inv_def configs_ok_def)
  then have script:
    "anchoring_out_script E c = (Ok (out_script_of E c) :: (_, execution_error) outcome)"
    by (rule valid_config_scripts)
  have ac: "actual_config s = (Ok c :: (_, execution_error) outcome)"
    by (simp add: actual_config_def assms(2))
  show ?thesis
    by (auto simp: add_funds_def ac script confirm_by_node_def has_enough_confirmations_def
        set_funding_transaction_def Let_def split: option.split)
qed

definition confirmations_with :: "env \<Rightarrow> schema \<Rightarrow> transaction \<Rightarrow> btc_public_key \<Rightarrow>
   transaction_confirmations" where
  "confirmations_with E s tx pk = bmap_insert pk () (unwrap_or_default bmap_default
     (unconfirmed_funding_transactions s (tx_id E tx)))"

lemma add_funds_OkE:
  assumes "schema_inv E core s" "actual_config_entry s = Some c" "add_funds E ctx s arg = Ok s'"
  obtains author n pk m where
    "caller_author ctx = Some author" "find_bitcoin_key c author = Some (n, pk)"
    "find_out (af_transaction arg) (out_script_of E c) \<noteq> None"
    "spent_funding_transactions s (tx_id E (af_transaction arg)) = None"
    "m = confirmations_with E s (af_transaction arg) pk"
    "s' = (if bmap_len m = config_byzantine_quorum E c
       then s\<lparr>unconfirmed_funding_transactions :=
           (unconfirmed_funding_transactions s)(tx_id E (af_transaction arg) \<mapsto> bmap_default),
         unspent_funding_entry := Some (af_transaction arg)\<rparr>
       else s\<lparr>unconfirmed_funding_transactions :=
           (unconfirmed_funding_transactions s)(tx_id E (af_transaction arg) \<mapsto> m)\<rparr>)"
  using assms(3) unfolding add_funds_eq [OF assms(1,2)] Let_def confirmations_with_def [symmetric]
  by (auto split: option.splits if_splits)

lemma set_confirmations_inv:
  "schema_inv E core s \<Longrightarrow> bmap_ordered m \<Longrightarrow> schema_inv E core
     (s\<lparr>unconfirmed_funding_transactions := (unconfirmed_funding_transactions s)(k \<mapsto> m)\<rparr>)"
  by (simp add: schema_inv_def configs_ok_def chain_ok_def tail_ok_def funding_ok_def maps_ok_def)

lemma set_unspent_inv:
  "schema_inv E core s \<Longrightarrow> actual_config_entry s = Some c \<Longrightarrow>
   find_out tx (out_script_of E c) \<noteq> None \<Longrightarrow> spent_funding_transactions s (tx_id E tx) = None \<Longrightarrow>
   schema_inv E core (s\<lparr>unspent_funding_entry := Some tx\<rparr>)"
  by (simp add: schema_inv_def configs_ok_def chain_ok_def tail_ok_def funding_ok_def maps_ok_def)

lemma confirmations_with_ordered:
  assumes "schema_inv E core s"
  shows "bmap_ordered (confirmations_with E s tx pk)"
  unfolding confirmations_with_def using assms
  by (intro bmap_ordered_insert)
    (auto simp: unwrap_or_default_def bmap_default_def maps_ok_def schema_inv_def split: option.split)

lemma add_funds_inv:
  assumes "schema_inv E core s" "add_funds E ctx s arg = Ok s'"
  shows "schema_inv E core s'"
proof -
  obtain c where c: "actual_config_entry s = Some c" using assms(1) by (rule schema_inv_config)
  let ?tx = "af_transaction arg"
  let ?conf = "\<lambda>m. s\<lparr>unconfirmed_funding_transactions :=
      (unconfirmed_funding_transactions s)(tx_id E ?tx \<mapsto> m)\<rparr>"
  note ordered = confirmations_with_ordered [OF assms(1)]
  obtain pk where out: "find_out ?tx (out_script_of E c) \<noteq> None"
    and unspent: "spent_funding_transactions s (tx_id E ?tx) = None"
    and s': "s' = ?conf (confirmations_with E s ?tx pk) \<or>
      s' = (?conf bmap_default)\<lparr>unspent_funding_entry := Some ?tx\<rparr>"
    by (rule add_funds_OkE [OF assms(1) c assms(2)]) (simp split: if_splits; blast)
  have "schema_inv E core (?conf (confirmations_with E s ?tx pk))"
    by (rule set_confirmations_inv [OF assms(1) ordered])
  moreover have "schema_inv E core (?conf bmap_default)"
    by (rule set_confirmations_inv [OF assms(1)]) (simp add: bmap_default_def)
  then have "schema_inv E core ((?conf bmap_default)\<lparr>unspent_funding_entry := Some ?tx\<rparr>)"
    by (rule set_unspent_inv) (use c out unspent in simp_all)
  ultimately show ?thesis using s' by blast
qed

lemma apply_config_inv:
  assumes "p2wsh_laws E" "schema_inv E core s" "valid_config E params"
    and "apply_config E ctx s params = Ok s'"
  shows "schema_inv E core s'"
proof -
  obtain c where c: "actual_config_entry s = Some c" and v: "valid_config E c"
    using assms(2) by (rule schema_inv_config)
  have "s' = s\<lparr>following_config_entry := Some params\<rparr> \<or>
      s' = s\<lparr>actual_config_entry := Some params\<rparr> \<and>
        p2wsh_address E (redeem_of E c) (network c) =
        p2wsh_address E (redeem_of E params) (network params)"
    using assms(4)
    by (auto simp: apply_config_def actual_config_def c valid_config_scripts [OF v]
        valid_config_scripts [OF assms(3)] split: if_splits)
  then show ?thesis
  proof
    assume "s' = s\<lparr>following_config_entry := Some params\<rparr>"
    with assms(2,3) show ?thesis
      by (simp add: schema_inv_def configs_ok_def chain_ok_def tail_ok_def funding_ok_def maps_ok_def)
  next
    assume s': "s' = s\<lparr>actual_config_entry := Some params\<rparr> \<and>
        p2wsh_address E (redeem_of E c) (network c) =
        p2wsh_address E (redeem_of E params) (network params)"
    then have "out_script_of E params = out_script_of E c"
      using assms(1) unfolding p2wsh_laws_def out_script_of_def by metis
    with s' assms(2,3) c show ?thesis
      by (simp add: schema_inv_def configs_ok_def chain_ok_def tail_ok_def funding_ok_def maps_ok_def)
  qed
qed

lemma initialize_inv:
  "initialize E from_bytes empty_schema params = Ok s \<Longrightarrow> schema_inv E core s"
  by (auto simp: initialize_def outcome_simps valid_config_def empty_schema_def schema_inv_def
      configs_ok_def chain_ok_def tail_ok_def funding_ok_def maps_ok_def)

section \<open>Completing a round\<close>

lemma finalize_inputs_complete:
  assumes "segwit_laws E" "\<forall>i \<in> set idxs. i < length (tx_input tx) \<and>
      bmap_len (input_signatures s (tx_input_id_new pid (of_nat i))) = q"
  shows "\<exists>fin. finalize_inputs E signer s pid q tx idxs = (Ok (Some fin) :: (_, 'e) outcome)"
  using assms(2)
  by (induction idxs arbitrary: tx) (simp_all add: Let_def index_at_def get_nth_def)

lemma unat_of_nat_small: "n < 2 ^ 32 \<Longrightarrow> unat (of_nat n :: u32) = n"
  by (simp add: unat_of_nat)

lemma finalize_complete:
  assumes "crate_laws E" "core_laws core" "schema_inv E core s" "actual_config_entry s = Some c"
    and "actual_proposed_anchoring_transaction E core s = Ok (Some (proposal, inputs))"
    and new: "n \<notin> fst ` set (input_signatures s (signed_key arg))"
    and "bmap_len (input_signatures s (signed_key arg)) + 1 = q"
    and "\<forall>i < length inputs. i \<noteq> unat (si_input arg) \<longrightarrow>
       bmap_len (input_signatures s (tx_input_id_new (si_txid arg) (of_nat i))) = q"
  shows "\<exists>fin. finalize_inputs E signer
     (with_signature s (signed_key arg) n (si_input_signature arg)) (si_txid arg) q proposal
     [0..<length inputs] = (Ok (Some fin) :: (_, 'e) outcome)"
proof (rule finalize_inputs_complete)
  show "segwit_laws E" using assms(1) by (simp add: crate_laws_def)
  have two: "length inputs \<le> 2"
    unfolding proposal_is_proposal_tx(3) [OF assms(1-5)] by (simp split: option.split)
  have ordered: "bmap_ordered (input_signatures s (signed_key arg))"
    using assms(3) by (intro input_signatures_ok(1) [of E]) (simp add: schema_inv_def)
  have this_input: "bmap_len (bmap_insert n (si_input_signature arg)
      (input_signatures s (signed_key arg))) = q"
    using btree.size_insert [OF ordered, of n "si_input_signature arg"] new assms(7)
    by (simp add: bmap_keys [symmetric] domIff)
  have other: "bmap_len (input_signatures s (tx_input_id_new (si_txid arg) (of_nat i))) = q"
    if "i < length inputs" "tx_input_id_new (si_txid arg) (of_nat i) \<noteq> signed_key arg" for i
  proof -
    have "unat (of_nat i :: u32) = i" using that(1) two by (intro unat_of_nat_small) simp
    with that(2) have "i \<noteq> unat (si_input arg)" by (auto simp: signed_key_def)
    with that(1) assms(8) show ?thesis by blast
  qed
  show "\<forall>i \<in> set [0..<length inputs]. i < length (tx_input proposal) \<and>
      bmap_len (input_signatures (with_signature s (signed_key arg) n (si_input_signature arg))
        (tx_input_id_new (si_txid arg) (of_nat i))) = q"
    using other this_input proposal_is_proposal_tx(2) [OF assms(1-5)]
    by (simp add: input_signatures_with_signature)
qed

text \<open>A signature that completes the quorum of every input has the signed proposal pushed, which
  ends the round unless a following configuration waits for the first transaction.\<close>

lemma sign_input_pushes:
  assumes "crate_laws E" "core_laws core" "schema_inv E core s" "actual_config_entry s = Some c"
    and "actual_proposed_anchoring_transaction E core s = Ok (Some (proposal, inputs))"
    and "n \<notin> fst ` set (input_signatures s (signed_key arg))"
    and "bmap_len (input_signatures s (signed_key arg)) + 1 = config_byzantine_quorum E c"
    and "\<forall>i < length inputs. i \<noteq> unat (si_input arg) \<longrightarrow>
       bmap_len (input_signatures s (tx_input_id_new (si_txid arg) (of_nat i))) =
         config_byzantine_quorum E c"
    and "si_txid arg = tx_id E proposal" "unat (si_input arg) < length inputs"
    and "caller_author ctx = Some author" "find_bitcoin_key c author = Some (n, pk)"
    and "verify_input E (redeem_of E c) (proposal, unat (si_input arg))
       (inputs ! unat (si_input arg)) pk (si_input_signature arg) = None"
    and "for_core ctx = core"
  obtains fin where "sign_input E ctx s arg = push_anchoring_transaction E
      (with_signature s (signed_key arg) n (si_input_signature arg)) fin"
    "proposal_tx E core s c fin" "strip_witness fin = strip_witness proposal"
proof -
  let ?s = "with_signature s (signed_key arg) n (si_input_signature arg)"
  have v: "valid_config E c" using assms(3,4) by (simp add: schema_inv_def configs_ok_def)
  have q: "redeem_quorum E (redeem_of E c) = config_byzantine_quorum E c"
    using assms(1) v by (simp add: redeem_quorum_of crate_laws_def)
  obtain fin where fin: "finalize_inputs E (redeem_of E c) ?s (si_txid arg)
      (config_byzantine_quorum E c) proposal [0..<length inputs] =
      (Ok (Some fin) :: (_, execution_error) outcome)"
    using finalize_complete [OF assms(1-8)] by blast
  note tx = finalized_proposal_tx [OF assms(1-5) fin]
  have meta: "anchoring_metadata E fin = (Ok (Some (the (tx_metadata E fin))) :: (_, execution_error) outcome)"
    using tx(1) assms(1) by (auto simp: anchoring_metadata_eq crate_laws_def proposal_tx_def anchors_block_def)
  have "use_signature E s (redeem_of E c) (config_byzantine_quorum E c) n proposal inputs arg =
      push_anchoring_transaction E ?s fin"
    using assms(7) fin meta
    by (simp add: use_signature_def Let_def signed_key_def assms(9) with_signature_def [symmetric])
  then have "sign_input E ctx s arg = push_anchoring_transaction E ?s fin"
    using assms(5,9-13) by (simp add: sign_input_eq [OF assms(3,4,14)] q not_le)
  from this tx show thesis by (rule that)
qed

lemma sign_input_completes:
  assumes "crate_laws E" "core_laws core" "schema_inv E core s" "actual_config_entry s = Some c"
    and "actual_proposed_anchoring_transaction E core s = Ok (Some (proposal, inputs))"
    and "n \<notin> fst ` set (input_signatures s (signed_key arg))"
    and "bmap_len (input_signatures s (signed_key arg)) + 1 = config_byzantine_quorum E c"
    and "\<forall>i < length inputs. i \<noteq> unat (si_input arg) \<longrightarrow>
       bmap_len (input_signatures s (tx_input_id_new (si_txid arg) (of_nat i))) =
         config_byzantine_quorum E c"
    and "following_config_entry s = None \<or> transactions_chain s \<noteq> []"
    and "si_txid arg = tx_id E proposal" "unat (si_input arg) < length inputs"
    and "caller_author ctx = Some author" "find_bitcoin_key c author = Some (n, pk)"
    and "verify_input E (redeem_of E c) (proposal, unat (si_input arg))
       (inputs ! unat (si_input arg)) pk (si_input_signature arg) = None"
    and "for_core ctx = core"
  shows "\<exists>fin. sign_input E ctx s arg =
      Ok (pushed E (with_signature s (signed_key arg) n (si_input_signature arg)) fin) \<and>
    strip_witness fin = strip_witness proposal"
proof (rule sign_input_pushes [OF assms(1-8,10-15)])
  let ?s = "with_signature s (signed_key arg) n (si_input_signature arg)"
  fix fin
  assume sign: "sign_input E ctx s arg = push_anchoring_transaction E ?s fin"
    and tx: "proposal_tx E core s c fin" "strip_witness fin = strip_witness proposal"
  have "push_anchoring_transaction E ?s fin = (Ok (pushed E ?s fin) :: (_, execution_error) outcome)"
    by (rule push_proposal [OF assms(1), of _ c core])
      (use assms(3,4,9) tx(1) in \<open>simp_all add: schema_inv_def configs_ok_def\<close>)
  then show ?thesis using sign tx(2) by (intro exI [of _ fin]) simp
qed

lemma finalize_inputs_no_panic:
  assumes "\<forall>i \<in> set idxs. i < length (tx_input tx)"
  shows "finalize_inputs E signer s pid q tx idxs \<noteq> Panic p"
  using assms
  by (induction idxs arbitrary: tx) (simp_all add: Let_def index_at_def get_nth_def)

lemma use_signature_no_panic:
  assumes "crate_laws E" "core_laws core" "schema_inv E core s" "actual_config_entry s = Some c"
    and "actual_proposed_anchoring_transaction E core s = Ok (Some (proposal, inputs))"
    and "following_config_entry s = None \<or> transactions_chain s \<noteq> []"
  shows "use_signature E s signer q n proposal inputs arg \<noteq> Panic p"
proof -
  let ?s = "with_signature s (tx_input_id_new (tx_id E proposal) (si_input arg)) n
      (si_input_signature arg)"
  have fold: "s\<lparr>transaction_signatures := (transaction_signatures s)
       (tx_input_id_new (tx_id E proposal) (si_input arg) \<mapsto> bmap_insert n (si_input_signature arg)
         (input_signatures s (tx_input_id_new (tx_id E proposal) (si_input arg))))\<rparr> = ?s"
    by (simp add: with_signature_def)
  have hl: "hash_laws E" using assms(1) by (simp add: crate_laws_def)
  have fin: "finalize_inputs E signer ?s pid k proposal [0..<length inputs] \<noteq>
      (Panic p :: (_, execution_error) outcome)" for pid k
    using proposal_is_proposal_tx(2) [OF assms(1-5)] by (intro finalize_inputs_no_panic) simp
  have push: "push_anchoring_transaction E ?s f = (Ok (pushed E ?s f) :: (_, execution_error) outcome)
      \<and> tx_metadata E f \<noteq> None"
    if f: "finalize_inputs E signer ?s pid k proposal [0..<length inputs] =
      (Ok (Some f) :: (_, execution_error) outcome)" for f pid k
  proof -
    have tx: "proposal_tx E core s c f"
      by (rule finalized_proposal_tx(1) [OF assms(1-5) f])
    moreover have "push_anchoring_transaction E ?s f =
        (Ok (pushed E ?s f) :: (_, execution_error) outcome)"
      by (rule push_proposal [OF assms(1), of _ c core])
        (use assms(3,4,6) tx in \<open>simp_all add: schema_inv_def configs_ok_def\<close>)
    ultimately show ?thesis by (simp add: proposal_tx_def anchors_block_def)
  qed
  show ?thesis
    using fin
    by (auto simp: use_signature_def Let_def fold outcome_simps anchoring_metadata_eq [OF hl]
        split: option.splits dest: push)
qed

section \<open>The state machine\<close>

type_synonym service_state = "core_schema \<times> schema"

inductive service_step :: "env \<Rightarrow> service_state \<Rightarrow> service_state \<Rightarrow> bool" for E where
  step_sign_input:
    "for_core ctx = core \<Longrightarrow> sign_input E ctx s arg = Ok s' \<Longrightarrow> service_step E (core, s) (core, s')"
| step_add_funds:
    "for_core ctx = core \<Longrightarrow> add_funds E ctx s arg = Ok s' \<Longrightarrow> service_step E (core, s) (core, s')"
| step_configure:
    "verify_config E ctx params = Ok () \<Longrightarrow> apply_config E ctx' s params = Ok s' \<Longrightarrow>
     service_step E (core, s) (core, s')"
| step_block:
    "core \<subseteq>\<^sub>m core' \<Longrightarrow> core_laws core' \<Longrightarrow> service_step E (core, s) (core', s)"

inductive_cases service_stepE: "service_step E (core, s) (core', s')"

definition service_init :: "env \<Rightarrow> (bytes \<Rightarrow> lib_error + config) \<Rightarrow> service_state \<Rightarrow> bool" where
  "service_init E from_bytes st \<longleftrightarrow> core_laws (fst st) \<and>
     (\<exists>params. initialize E from_bytes empty_schema params = Ok (snd st))"

definition service_inv :: "env \<Rightarrow> service_state \<Rightarrow> bool" where
  "service_inv E st \<longleftrightarrow> core_laws (fst st) \<and> schema_inv E (fst st) (snd st)"

definition reachable ::
  "env \<Rightarrow> (bytes \<Rightarrow> lib_error + config) \<Rightarrow> core_schema \<Rightarrow> schema \<Rightarrow> bool" where
  "reachable E from_bytes core s \<longleftrightarrow>
     (\<exists>st. service_init E from_bytes st \<and> (service_step E)\<^sup>*\<^sup>* st (core, s))"

sublocale crates \<subseteq> service: state_machine "service_init E from_bytes" "service_step E" "service_inv E"
  for from_bytes
proof
  show "service_inv E st" if "service_init E from_bytes st" for st
    using that by (auto simp: service_init_def service_inv_def intro: initialize_inv)
  show "service_inv E t" if "service_step E st t" "service_inv E st" for st t
    using that
  proof (induction rule: service_step.induct)
    case (step_sign_input ctx core s arg s')
    then show ?case using sign_input_inv [OF laws] by (auto simp: service_inv_def)
  next
    case (step_add_funds ctx core s arg s')
    then show ?case using add_funds_inv by (auto simp: service_inv_def)
  next
    case (step_configure ctx params ctx' s s' core)
    from step_configure.hyps(1) have "valid_config E params"
      by (auto simp: verify_config_def valid_config_def outcome_simps split: if_splits)
    with step_configure show ?case
      using apply_config_inv [OF each_law(5)] by (auto simp: service_inv_def)
  next
    case (step_block core core' s)
    then show ?case using schema_inv_core_mono by (auto simp: service_inv_def)
  qed
qed

text \<open>What a step only lets grow: the blockchain, the anchoring chain, the spent funding.\<close>

definition grows :: "service_state \<Rightarrow> service_state \<Rightarrow> bool" where
  "grows st st' \<longleftrightarrow> fst st \<subseteq>\<^sub>m fst st' \<and>
     (\<exists>rest. transactions_chain (snd st') = transactions_chain (snd st) @ rest) \<and>
     spent_funding_transactions (snd st) \<subseteq>\<^sub>m spent_funding_transactions (snd st')"

lemma grows_refl: "grows st st"
  by (simp add: grows_def)

lemma grows_trans: "grows a b \<Longrightarrow> grows b c \<Longrightarrow> grows a c"
  unfolding grows_def by (auto intro: map_le_trans)

lemma pushed_grows:
  assumes "funding_ok E s"
  shows "grows (core, s) (core, pushed E s tx)"
proof -
  have "spent_funding_transactions s (tx_id E f) = None" if "unspent_funding_entry s = Some f" for f
    using assms that by (simp add: funding_ok_def)
  then have "spent_funding_transactions s \<subseteq>\<^sub>m spent_funding_transactions (pushed E s tx)"
    by (auto simp: pushed_def map_le_def dom_def split: option.split)
  then show ?thesis by (simp add: grows_def pushed_def)
qed

lemma sign_input_grows:
  assumes "crate_laws E" "core_laws core" "schema_inv E core s" "for_core ctx = core"
    and "sign_input E ctx s arg = Ok s'"
  shows "grows (core, s) (core, s')"
proof -
  obtain c where c: "actual_config_entry s = Some c" using assms(3) by (rule schema_inv_config)
  have fund: "funding_ok E s" using assms(3) by (simp add: schema_inv_def)
  show ?thesis
  proof (cases "transactions_chain s' = transactions_chain s")
    case True
    have "spent_funding_transactions s' = spent_funding_transactions s"
      using True by (rule sign_input_sameE [OF assms(1-3) c assms(4,5)]) auto
    with True show ?thesis by (simp add: grows_def)
  next
    case False
    then obtain n fin where
      "s' = pushed E (with_signature s (signed_key arg) n (si_input_signature arg)) fin"
      using sign_input_finalizedE [OF assms(1-3) c assms(4,5)] by metis
    moreover have "funding_ok E (with_signature s (signed_key arg) n (si_input_signature arg))"
      using fund by (simp add: funding_ok_def)
    ultimately have "grows (core, with_signature s (signed_key arg) n (si_input_signature arg))
        (core, s')" by (simp add: pushed_grows)
    then show ?thesis by (simp add: grows_def)
  qed
qed

lemma service_step_grows:
  assumes "crate_laws E" "service_inv E st" "service_step E st st'"
  shows "grows st st'"
  using assms(3,2)
proof (induction rule: service_step.induct)
  case (step_sign_input ctx core s arg s')
  then show ?case using sign_input_grows [OF assms(1)] by (simp add: service_inv_def)
next
  case (step_add_funds ctx core s arg s')
  then have inv: "schema_inv E core s" by (simp add: service_inv_def)
  obtain c where c: "actual_config_entry s = Some c" using inv by (rule schema_inv_config)
  show ?case
    by (rule add_funds_OkE [OF inv c step_add_funds.hyps(2)]) (simp add: grows_def)
next
  case (step_configure ctx params ctx' s s' core)
  then show ?case by (auto simp: apply_config_def outcome_simps grows_def split: if_splits)
next
  case (step_block core core' s)
  then show ?case by (simp add: grows_def)
qed

context crates
begin

lemma service_step_inv: "service_step E st st' \<Longrightarrow> service_inv E st \<Longrightarrow> service_inv E st'"
  by (rule service.step_inv)

lemma reachable_grows:
  assumes "reachable E from_bytes core s" "(service_step E)\<^sup>*\<^sup>* (core, s) (core', s')"
  shows "grows (core, s) (core', s')" "reachable E from_bytes core' s'"
proof -
  have "service_inv E (core, s)"
    using assms(1) service.reachable_inv [of from_bytes] by (auto simp: reachable_def)
  then show "grows (core, s) (core', s')"
    by (rule service.steps_grow [OF assms(2), where le = grows])
      (blast intro: grows_refl grows_trans service_step_grows [OF laws])+
  show "reachable E from_bytes core' s'"
    using assms unfolding reachable_def by (meson rtranclp_trans)
qed

lemma reachable_service_inv:
  assumes "reachable E from_bytes core s"
  shows "core_laws core" "schema_inv E core s"
proof -
  have "service_inv E (core, s)"
    using assms service.reachable_inv [of from_bytes] by (auto simp: reachable_def)
  then show "core_laws core" "schema_inv E core s" by (simp_all add: service_inv_def)
qed

end

lemma reachable_stateE:
  assumes "crate_laws E" "reachable E from_bytes core s"
  obtains c where "core_laws core" "schema_inv E core s" "actual_config_entry s = Some c"
    "valid_config E c"
  using crates.reachable_service_inv [OF crates.intro, OF assms] that
  by (auto elim: schema_inv_config)

end
