(* ===== verification/Service_Samples.thy ===== *)
theory Service_Samples
  imports Service_Steps
begin

text \<open>
  Concrete runs of the service with the reference instance of the crates: a single anchoring
  node confirms a funding transaction and signs the proposal, which starts the anchoring chain; a
  change of address before that; and a service with two nodes. They show that the hypotheses of the
  properties of executions can hold; nothing else depends on them.
\<close>

section \<open>The blockchain and the node\<close>

definition solo_config :: config where
  "solo_config = sample_config 1"

definition sample_core :: core_schema where
  "sample_core h = (if h \<le> 12 then Some (Hash (ucast h)) else None)"

definition sample_ctx :: exec_context where
  "sample_ctx = \<lparr>caller_author = Some (Service_Key 0), caller_is_supervisor = True,
     for_core = sample_core\<rparr>"

definition sample_decoder :: "bytes \<Rightarrow> lib_error + config" where
  "sample_decoder b = (if b = [1] then Inr solo_config else Inl (Lib_Error ''config''))"

definition sample_fund :: transaction where
  "sample_fund = \<lparr>tx_version = 2, lock_time = 0, tx_input = [], tx_output =
     [\<lparr>txout_value = 5000, script_pubkey = out_script_of (ref_env False) solo_config\<rparr>]\<rparr>"

definition sample_start :: schema where
  "sample_start = empty_schema\<lparr>actual_config_entry := Some solo_config\<rparr>"

definition sample_funded :: schema where
  "sample_funded = sample_start\<lparr>
     unconfirmed_funding_transactions := [tx_id (ref_env False) sample_fund \<mapsto> bmap_default],
     unspent_funding_entry := Some sample_fund\<rparr>"

text \<open>A round of the single node: the proposal, its signature, and the state after it.\<close>

definition solo_tx :: "schema \<Rightarrow> u64 \<Rightarrow> u64 \<Rightarrow> transaction" where
  "solo_tx s h v = draft_tx (ref_env False)
     (proposal_builder (ref_env False) s solo_config h (Hash (ucast h)))
     \<lparr>block_height = h, block_hash = Hash (ucast h), prev_tx_chain = None\<rparr> v"

definition solo_msg :: "transaction \<Rightarrow> sign_input_msg" where
  "solo_msg tx = \<lparr>si_txid = tx_id (ref_env False) tx, si_input = 0,
     si_input_signature = ref_signature 0 0\<rparr>"

definition solo_signed :: "schema \<Rightarrow> transaction \<Rightarrow> schema" where
  "solo_signed s tx = with_signature s (signed_key (solo_msg tx)) 0 (ref_signature 0 0)"

definition solo_final :: "transaction \<Rightarrow> transaction" where
  "solo_final tx = tx\<lparr>tx_input := (tx_input tx)
     [0 := ref_spend_input (redeem_of (ref_env False) solo_config)
        (tx_input tx ! 0) [ref_signature 0 0]]\<rparr>"

definition solo_done :: "schema \<Rightarrow> transaction \<Rightarrow> schema" where
  "solo_done s tx = pushed (ref_env False) (solo_signed s tx) (solo_final tx)"

definition sample_proposal :: transaction where
  "sample_proposal = solo_tx sample_funded 0 3470"

definition sample_final_tx :: transaction where
  "sample_final_tx = solo_final sample_proposal"

definition sample_anchored :: schema where
  "sample_anchored = solo_done sample_funded sample_proposal"

definition second_proposal :: transaction where
  "second_proposal = solo_tx sample_anchored 5 1940"

definition second_final_tx :: transaction where
  "second_final_tx = solo_final second_proposal"

definition second_anchored :: schema where
  "second_anchored = solo_done sample_anchored second_proposal"

section \<open>The run\<close>

lemma sample_core_laws: "core_laws sample_core"
proof -
  have "unat h < 2 ^ 63" if "h \<le> 12" for h :: u64
    using that by (simp add: word_le_nat_alt)
  then show ?thesis by (auto simp: core_laws_def sample_core_def)
qed

lemma sample_valid: "valid_config (ref_env False) solo_config"
  unfolding solo_config_def by (rule sample_config_valid) simp_all

lemma sample_init: "service_init (ref_env False) sample_decoder (sample_core, sample_start)"
  using sample_core_laws sample_valid
  by (auto simp: service_init_def initialize_def sample_decoder_def valid_config_def
      sample_start_def intro: exI [of _ "[1]"])

lemma sample_start_inv: "schema_inv (ref_env False) sample_core sample_start"
  using sample_valid
  by (simp add: schema_inv_def sample_start_def empty_schema_def configs_ok_def chain_ok_def tail_ok_def
      funding_ok_def maps_ok_def)

lemma sample_key: "find_bitcoin_key solo_config (Service_Key 0) = Some (0, Btc_Public_Key 0)"
  by (simp add: find_bitcoin_key_def solo_config_def sample_config_def)

lemma sample_quorum: "config_byzantine_quorum (ref_env False) solo_config = 1"
  by (simp add: config_byzantine_quorum_def solo_config_def sample_config_def)

lemma sample_find_out:
  "find_out sample_fund (out_script_of (ref_env False) solo_config) =
     Some (0, tx_output sample_fund ! 0)"
  by (simp add: find_out_def sample_fund_def)

lemma sample_add_funds:
  "add_funds (ref_env False) sample_ctx sample_start \<lparr>af_transaction = sample_fund\<rparr> =
     Ok sample_funded"
proof -
  have c: "actual_config_entry sample_start = Some solo_config" by (simp add: sample_start_def)
  show ?thesis
    by (simp add: add_funds_eq [OF sample_start_inv c] sample_ctx_def sample_key Let_def
        sample_find_out sample_quorum)
      (simp add: sample_start_def empty_schema_def unwrap_or_default_def bmap_default_def bmap_len_def
        sample_funded_def)
qed

lemma sample_funded_inv: "schema_inv (ref_env False) sample_core sample_funded"
  by (rule add_funds_inv [OF sample_start_inv sample_add_funds])

lemma sample_funded_simps:
  "actual_config_entry sample_funded = Some solo_config"
  "following_config_entry sample_funded = None" "transactions_chain sample_funded = []"
  "unspent_funding_entry sample_funded = Some sample_fund"
  "transaction_signatures sample_funded = Map.empty"
  "spent_funding_transactions sample_funded = Map.empty"
  by (simp_all add: sample_funded_def sample_start_def empty_schema_def)

lemma sample_redeem: "redeem_of (ref_env False) solo_config = Redeem_Script [1, 0]"
  by (simp add: redeem_of_def sample_quorum ref_redeem_to_script_def)
    (simp add: solo_config_def sample_config_def ref_key_byte_def)

text \<open>One round, from any state of the single node in which it has one output to spend.\<close>

lemma solo_size:
  assumes "length (builder_sources b) = 1" "builder_output b = out_script_of (ref_env False) solo_config"
    and "prev_tx_chain p = None"
  shows "size_of_tx (ref_env False) (draft_tx (ref_env False) b p bal) = 153"
proof -
  have "length (builder_output b) = 34"
    by (simp add: assms(2) out_script_of_def sample_redeem ref_to_v0_p2wsh_def)
  then show ?thesis using assms(1,3) by (subst ref_draft_size) auto
qed

lemma solo_output:
  "following_config_entry s = None \<Longrightarrow>
     builder_output (proposal_builder (ref_env False) s solo_config h hash) =
     out_script_of (ref_env False) solo_config"
  by (simp add: proposal_builder_output target_config_def in_transition_def)

lemma solo_proposed:
  assumes inv: "schema_inv (ref_env False) sample_core s" "actual_config_entry s = Some solo_config"
    and fol: "following_config_entry s = None"
    and src: "builder_sources (proposal_builder (ref_env False) s solo_config h (Hash (ucast h))) =
      [(0, f)]" "get_nth (tx_output f) 0 = Some out" "txout_value out = v + 1530" "v \<le> 5000"
    and height: "proposal_height (ref_env False) s solo_config = h" "h \<le> 12"
  shows "actual_proposed_anchoring_transaction (ref_env False) sample_core s =
     Ok (Some (solo_tx s h v, [f]))"
proof -
  let ?b = "proposal_builder (ref_env False) s solo_config h (Hash (ucast h))"
  have stuck: "\<not> transition_stuck (ref_env False) s solo_config"
    using fol by (simp add: transition_stuck_def in_transition_def)
  have b: "builder_payload ?b = Some (h, Hash (ucast h))" "builder_fee ?b = Some 10"
    "builder_recovery_tx ?b = None"
    by (simp_all add: proposal_builder_def solo_config_def sample_config_def)
  have size: "size_of_tx (ref_env False) (draft_tx (ref_env False) ?b
      \<lparr>block_height = h, block_hash = Hash (ucast h), prev_tx_chain = None\<rparr> bal) = 153" for bal
    by (rule solo_size) (simp_all add: src(1) solo_output [OF fol])
  have le: "(1530 :: u64) \<le> v + 1530"
    using src(4) by (simp add: word_le_nat_alt unat_word_ariths)
  have "create (ref_env False) ?b = Ok (solo_tx s h v, [f])"
    using le
    by (simp add: create_eq [OF ref_crate_laws b(1,2) refl] src(1-3) index_at_def
        add_u64_def b(3) size mul_u64_def solo_tx_def not_less)
  with height stuck show ?thesis
    by (simp add: actual_proposed_eq [OF ref_crate_laws sample_core_laws inv] sample_core_def)
qed

lemma solo_metadata:
  "following_config_entry s = None \<Longrightarrow>
   tx_metadata (ref_env False) (solo_final (solo_tx s h v)) =
     Some (out_script_of (ref_env False) solo_config,
       \<lparr>block_height = h, block_hash = Hash (ucast h), prev_tx_chain = None\<rparr>)"
  using tx_metadata_cong [of "solo_final (solo_tx s h v)" "solo_tx s h v" "ref_env False"]
  by (simp add: solo_final_def solo_tx_def tx_metadata_draft_tx solo_output)

lemma solo_finalize:
  assumes "length (tx_input tx) = 1" "input_signatures s (signed_key (solo_msg tx)) = []"
  shows "finalize_inputs (ref_env False) (redeem_of (ref_env False) solo_config) (solo_signed s tx)
     (tx_id (ref_env False) tx) (Suc 0) tx [0] = Ok (Some (solo_final tx))"
proof -
  have sigs: "input_signatures (solo_signed s tx) (signed_key (solo_msg tx)) = [(0, ref_signature 0 0)]"
    by (simp add: solo_signed_def input_signatures_with_signature assms(2))
  have key: "tx_input_id_new (tx_id (ref_env False) tx) 0 = signed_key (solo_msg tx)"
    by (simp add: signed_key_def solo_msg_def)
  show ?thesis
    using assms(1)
    by (simp add: key sigs bmap_len_def index_at_def get_nth_def bmap_values_def solo_final_def
        Let_def)
qed

lemma solo_sign:
  assumes inv: "schema_inv (ref_env False) sample_core s" "actual_config_entry s = Some solo_config"
    and fol: "following_config_entry s = None"
    and tx: "tx = solo_tx s h v" "length (tx_input tx) = 1"
      "actual_proposed_anchoring_transaction (ref_env False) sample_core s = Ok (Some (tx, [f]))"
    and sigs: "input_signatures s (signed_key (solo_msg tx)) = []"
  shows "sign_input (ref_env False) sample_ctx s (solo_msg tx) = Ok (solo_done s tx)"
proof -
  have q: "ref_redeem_quorum (redeem_of (ref_env False) solo_config) = Suc 0"
    by (simp add: sample_redeem ref_redeem_quorum_def)
  have msg: "si_txid (solo_msg tx) = tx_id (ref_env False) tx" "si_input (solo_msg tx) = 0"
      "si_input_signature (solo_msg tx) = ref_signature 0 0"
      "tx_input_id_new (tx_id (ref_env False) tx) 0 = signed_key (solo_msg tx)"
    by (simp_all add: solo_msg_def signed_key_def)
  have meta: "anchoring_metadata (ref_env False) (solo_final tx) =
      (Ok (tx_metadata (ref_env False) (solo_final tx)) :: (_, execution_error) outcome)"
    by (rule anchoring_metadata_eq [OF ref_laws(2)])
  note md = solo_metadata [OF fol, of h v, folded tx(1)]
  have cfg: "configs_ok (ref_env False) (solo_signed s tx)"
    using inv(1) by (simp add: solo_signed_def schema_inv_def configs_ok_def)
  have push: "push_anchoring_transaction (ref_env False) (solo_signed s tx) (solo_final tx) =
      (Ok (solo_done s tx) :: (_, execution_error) outcome)"
    by (simp add: push_eq [OF ref_laws(2) cfg md] solo_done_def) (simp add: solo_signed_def fol)
  have signed: "s\<lparr>transaction_signatures := (transaction_signatures s)
       (signed_key (solo_msg tx) \<mapsto> [(0, ref_signature 0 0)])\<rparr> = solo_signed s tx"
    by (simp add: solo_signed_def with_signature_def sigs)
  have used: "use_signature (ref_env False) s (redeem_of (ref_env False) solo_config)
      (Suc 0) 0 tx [f] (solo_msg tx) = Ok (solo_done s tx)"
    by (simp add: use_signature_def Let_def msg sigs bmap_len_def signed push meta md
        solo_finalize [OF tx(2) sigs] del: finalize_inputs.simps)
  show ?thesis
    by (simp add: sign_input_eq [OF inv] sample_ctx_def sample_key tx(3) msg q used
        ref_verify_input_def)
qed

section \<open>Two rounds\<close>

lemma sample_sources:
  "builder_sources (proposal_builder (ref_env False) sample_funded solo_config h hash) =
     [(0, sample_fund)]"
  by (simp add: proposal_builder_sources sample_funded_simps funding_source_def sample_find_out)

lemma sample_proposed:
  "actual_proposed_anchoring_transaction (ref_env False) sample_core sample_funded =
     Ok (Some (sample_proposal, [sample_fund]))"
  unfolding sample_proposal_def
  by (rule solo_proposed [OF sample_funded_inv sample_funded_simps(1,2) sample_sources,
      of "tx_output sample_fund ! 0"])
    (simp_all add: sample_fund_def proposal_height_def sample_funded_simps)

lemma sample_sign:
  "sign_input (ref_env False) sample_ctx sample_funded (solo_msg sample_proposal) =
     Ok sample_anchored"
  unfolding sample_anchored_def
  by (rule solo_sign [OF sample_funded_inv sample_funded_simps(1,2) sample_proposal_def
        _ sample_proposed])
    (simp_all add: sample_proposal_def solo_tx_def sample_sources input_signatures_def
      sample_funded_simps unwrap_or_default_def bmap_default_def)

lemma sample_anchored_inv: "schema_inv (ref_env False) sample_core sample_anchored"
  by (rule sign_input_inv [OF ref_crate_laws sample_core_laws sample_funded_inv _ sample_sign])
    (simp add: sample_ctx_def)

lemma sample_anchored_simps:
  "actual_config_entry sample_anchored = Some solo_config"
  "following_config_entry sample_anchored = None"
  "transactions_chain sample_anchored = [sample_final_tx]"
  "unspent_funding_entry sample_anchored = None"
  "transaction_signatures sample_anchored =
     [signed_key (solo_msg sample_proposal) \<mapsto> [(0, ref_signature 0 0)]]"
  by (simp_all add: sample_anchored_def solo_done_def pushed_def solo_signed_def sample_funded_simps
      sample_final_tx_def)
    (simp add: with_signature_def input_signatures_def sample_funded_simps unwrap_or_default_def
      bmap_default_def)

lemma second_sources:
  "builder_sources (proposal_builder (ref_env False) sample_anchored solo_config h hash) =
     [(0, sample_final_tx)]"
  by (simp add: proposal_builder_sources sample_anchored_simps)

lemma sample_final_output:
  "tx_output sample_final_tx ! 0 =
     \<lparr>txout_value = 3470, script_pubkey = out_script_of (ref_env False) solo_config\<rparr>"
  "length (tx_output sample_final_tx) = 2"
  by (simp_all add: sample_final_tx_def solo_final_def sample_proposal_def solo_tx_def solo_output
      sample_funded_simps)

lemma second_height: "proposal_height (ref_env False) sample_anchored solo_config = 5"
proof -
  have "anchored (ref_env False) sample_final_tx =
      \<lparr>block_height = 0, block_hash = Hash 0, prev_tx_chain = None\<rparr>"
    using solo_metadata [OF sample_funded_simps(2), of 0 3470]
    by (simp add: anchored_def sample_final_tx_def sample_proposal_def)
  then show ?thesis
    by (simp add: proposal_height_def sample_anchored_simps in_transition_def Let_def
        next_anchoring_height_def solo_config_def sample_config_def)
qed

lemma second_proposed:
  "actual_proposed_anchoring_transaction (ref_env False) sample_core sample_anchored =
     Ok (Some (second_proposal, [sample_final_tx]))"
  unfolding second_proposal_def
  by (rule solo_proposed [OF sample_anchored_inv sample_anchored_simps(1,2) second_sources,
      of "tx_output sample_final_tx ! 0"])
    (simp_all add: sample_final_output second_height get_nth_def)

lemma solo_txid:
  assumes "following_config_entry s = None"
    and "builder_sources (proposal_builder (ref_env False) s solo_config h (Hash (ucast h))) = [(0, f)]"
  shows "tx_id (ref_env False) (solo_tx s h v) =
    (case tx_id (ref_env False) f of Sha256d w \<Rightarrow>
       Sha256d (((((((7 * 31 + w) * 31) * 31 + ucast v) * 31 + 34) * 31) * 31) + 50))"
proof -
  have len: "length (payload_bytes (ref_env False) p) = 48" if "prev_tx_chain p = None" for p
    using that by (simp add: length_payload_bytes)
  show ?thesis
    by (simp add: tx_id_def solo_tx_def ref_txid_def assms(2) solo_output [OF assms(1)]
        ref_out_point_words_def funding_txin_def len ref_op_return_script_def out_script_of_def
        sample_redeem ref_to_v0_p2wsh_def split: sha256d.split)
qed

lemma sample_txids:
  "tx_id (ref_env False) sample_proposal = Sha256d 4637396028172"
  "tx_id (ref_env False) second_proposal = Sha256d 132764711143606795003"
  "tx_id (ref_env False) sample_fund = Sha256d 161761"
proof -
  show fund: "tx_id (ref_env False) sample_fund = Sha256d 161761"
    by (simp add: tx_id_def ref_txid_def sample_fund_def out_script_of_def sample_redeem
        ref_to_v0_p2wsh_def)
  show first: "tx_id (ref_env False) sample_proposal = Sha256d 4637396028172"
    unfolding sample_proposal_def solo_txid [OF sample_funded_simps(2) sample_sources] fund
    by simp
  have "tx_id (ref_env False) sample_final_tx = tx_id (ref_env False) sample_proposal"
    by (simp add: tx_id_def ref_txid_def sample_final_tx_def solo_final_def ref_spend_input_def
        sample_proposal_def solo_tx_def sample_sources)
  then show "tx_id (ref_env False) second_proposal = Sha256d 132764711143606795003"
    unfolding second_proposal_def solo_txid [OF sample_anchored_simps(2) second_sources]
    by (simp add: first)
qed

lemma second_sign:
  "sign_input (ref_env False) sample_ctx sample_anchored (solo_msg second_proposal) =
     Ok second_anchored"
  unfolding second_anchored_def
proof (rule solo_sign [OF sample_anchored_inv sample_anchored_simps(1,2) second_proposal_def
      _ second_proposed])
  show "length (tx_input second_proposal) = 1"
    by (simp add: second_proposal_def solo_tx_def second_sources)
  show "input_signatures sample_anchored (signed_key (solo_msg second_proposal)) = []"
    by (simp add: input_signatures_def sample_anchored_simps unwrap_or_default_def bmap_default_def
        signed_key_def solo_msg_def tx_input_id_new_def sample_txids)
qed

lemma second_chain: "transactions_chain second_anchored = [sample_final_tx, second_final_tx]"
  by (simp add: second_anchored_def solo_done_def pushed_def solo_signed_def sample_anchored_simps
      second_final_tx_def)

lemma sample_steps:
  "service_step (ref_env False) (sample_core, sample_start) (sample_core, sample_funded)"
  "service_step (ref_env False) (sample_core, sample_funded) (sample_core, sample_anchored)"
  "service_step (ref_env False) (sample_core, sample_anchored) (sample_core, second_anchored)"
proof -
  have ctx: "for_core sample_ctx = sample_core" by (simp add: sample_ctx_def)
  show "service_step (ref_env False) (sample_core, sample_start) (sample_core, sample_funded)"
    by (rule step_add_funds [OF ctx sample_add_funds])
  show "service_step (ref_env False) (sample_core, sample_funded) (sample_core, sample_anchored)"
    by (rule step_sign_input [OF ctx sample_sign])
  show "service_step (ref_env False) (sample_core, sample_anchored) (sample_core, second_anchored)"
    by (rule step_sign_input [OF ctx second_sign])
qed

lemma sample_run:
  "reachable (ref_env False) sample_decoder sample_core sample_start"
  "reachable (ref_env False) sample_decoder sample_core sample_funded"
  "reachable (ref_env False) sample_decoder sample_core sample_anchored"
  "reachable (ref_env False) sample_decoder sample_core second_anchored"
  using sample_init sample_steps unfolding reachable_def
  by (meson rtranclp.rtrancl_refl rtranclp.rtrancl_into_rtrancl)+

section \<open>A change of address before the chain is established\<close>

definition sample_moving :: schema where
  "sample_moving = sample_funded\<lparr>following_config_entry := Some (sample_config 2)\<rparr>"

lemma moving_simps:
  "actual_config_entry sample_moving = Some solo_config"
  "following_config_entry sample_moving = Some (sample_config 2)"
  "transactions_chain sample_moving = []"
  by (simp_all add: sample_moving_def sample_funded_simps)

lemma moving_valid: "valid_config (ref_env False) (sample_config 2)"
  by (rule sample_config_valid) simp_all

lemma moving_redeem: "redeem_of (ref_env False) (sample_config 2) = Redeem_Script [2, 0, 1]"
  by (simp add: redeem_of_def config_byzantine_quorum_def ref_redeem_to_script_def sample_config_def
      ref_key_byte_def upt_rec)

lemma moving_scripts:
  "out_script_of (ref_env False) (sample_config 2) \<noteq> out_script_of (ref_env False) solo_config"
  by (simp add: out_script_of_def moving_redeem sample_redeem ref_to_v0_p2wsh_def)

lemma moving_step:
  "service_step (ref_env False) (sample_core, sample_funded) (sample_core, sample_moving)"
proof (rule step_configure)
  show "verify_config (ref_env False) sample_ctx (sample_config 2) = Ok ()"
    using moving_valid by (simp add: verify_config_def sample_ctx_def valid_config_def)
  have "p2wsh_address (ref_env False) (redeem_of (ref_env False) solo_config) (network solo_config) \<noteq>
      p2wsh_address (ref_env False) (redeem_of (ref_env False) (sample_config 2))
        (network (sample_config 2))"
    using moving_scripts by (simp add: ref_address_def out_script_of_def)
  then show "apply_config (ref_env False) sample_ctx sample_funded (sample_config 2) = Ok sample_moving"
    by (simp add: apply_config_def sample_ctx_def actual_config_def sample_funded_simps
        valid_config_scripts [OF sample_valid] valid_config_scripts [OF moving_valid]
        sample_moving_def)
qed

lemma moving_reachable: "reachable (ref_env False) sample_decoder sample_core sample_moving"
  using sample_run(2) moving_step unfolding reachable_def
  by (meson rtranclp.rtrancl_into_rtrancl)

lemma moving_inv: "schema_inv (ref_env False) sample_core sample_moving"
  by (rule reachable_stateE [OF ref_crate_laws moving_reachable])

lemma moving_proposed:
  "actual_proposed_anchoring_transaction (ref_env False) sample_core sample_moving =
     Ok (Some (sample_proposal, [sample_fund]))"
proof -
  have "proposal_builder (ref_env False) sample_moving = proposal_builder (ref_env False) sample_funded"
    by (simp add: fun_eq_iff proposal_builder_def sample_moving_def sample_funded_simps)
  moreover have "proposal_height (ref_env False) sample_moving solo_config =
      proposal_height (ref_env False) sample_funded solo_config"
    "transition_stuck (ref_env False) sample_moving solo_config =
      transition_stuck (ref_env False) sample_funded solo_config"
    by (simp_all add: moving_simps sample_funded_simps proposal_height_def transition_stuck_def)
  ultimately show ?thesis
    using sample_proposed
    unfolding actual_proposed_eq [OF ref_crate_laws sample_core_laws moving_inv moving_simps(1)]
      actual_proposed_eq [OF ref_crate_laws sample_core_laws sample_funded_inv sample_funded_simps(1)]
    by (simp only:)
qed

section \<open>Two nodes\<close>

text \<open>A service with two anchoring nodes, both of which are needed.\<close>

definition duo_fund :: transaction where
  "duo_fund = \<lparr>tx_version = 2, lock_time = 0, tx_input = [], tx_output =
     [\<lparr>txout_value = 5000, script_pubkey = out_script_of (ref_env False) (sample_config 2)\<rparr>]\<rparr>"

definition duo_ctx :: "nat \<Rightarrow> exec_context" where
  "duo_ctx i = \<lparr>caller_author = Some (Service_Key i), caller_is_supervisor = False, for_core = sample_core\<rparr>"

definition duo_start :: schema where
  "duo_start = empty_schema\<lparr>actual_config_entry := Some (sample_config 2)\<rparr>"

definition duo_half :: schema where
  "duo_half = duo_start\<lparr>unconfirmed_funding_transactions :=
     [tx_id (ref_env False) duo_fund \<mapsto> [(Btc_Public_Key 0, ())]]\<rparr>"

definition duo_funded :: schema where
  "duo_funded = duo_start\<lparr>unconfirmed_funding_transactions :=
       [tx_id (ref_env False) duo_fund \<mapsto> bmap_default],
     unspent_funding_entry := Some duo_fund\<rparr>"

definition duo_proposal :: transaction where
  "duo_proposal = draft_tx (ref_env False)
     (proposal_builder (ref_env False) duo_funded (sample_config 2) 0 (Hash 0))
     \<lparr>block_height = 0, block_hash = Hash 0, prev_tx_chain = None\<rparr> 3470"

lemma duo_init: "service_init (ref_env False) (\<lambda>_. Inr (sample_config 2)) (sample_core, duo_start)"
  using sample_core_laws moving_valid
  by (simp add: service_init_def initialize_def valid_config_def duo_start_def)

lemma duo_start_inv: "schema_inv (ref_env False) sample_core duo_start"
  using duo_init by (auto simp: service_init_def intro: initialize_inv)

lemma duo_simps:
  "actual_config_entry duo_start = Some (sample_config 2)"
  "actual_config_entry duo_half = Some (sample_config 2)"
  "actual_config_entry duo_funded = Some (sample_config 2)"
  "following_config_entry duo_funded = None" "transactions_chain duo_funded = []"
  "unspent_funding_entry duo_funded = Some duo_fund" "transaction_signatures duo_funded = Map.empty"
  by (simp_all add: duo_start_def duo_half_def duo_funded_def empty_schema_def)

lemma duo_keys:
  "i < 2 \<Longrightarrow> find_bitcoin_key (sample_config 2) (Service_Key i) = Some (of_nat i, Btc_Public_Key i)"
  by (auto simp: less_2_cases_iff find_bitcoin_key_def sample_config_def upt_rec)

lemma duo_quorum: "config_byzantine_quorum (ref_env False) (sample_config 2) = 2"
  by (simp add: config_byzantine_quorum_def sample_config_def)

lemma duo_find_out:
  "find_out duo_fund (out_script_of (ref_env False) (sample_config 2)) = Some (0, tx_output duo_fund ! 0)"
  by (simp add: find_out_def duo_fund_def)

lemma duo_funds_first:
  "add_funds (ref_env False) (duo_ctx 0) duo_start \<lparr>af_transaction = duo_fund\<rparr> = Ok duo_half"
  by (simp add: add_funds_eq [OF duo_start_inv duo_simps(1)] duo_ctx_def duo_keys Let_def duo_find_out
      duo_quorum)
    (simp add: duo_start_def empty_schema_def unwrap_or_default_def bmap_default_def bmap_len_def
      duo_half_def)

lemma duo_half_inv: "schema_inv (ref_env False) sample_core duo_half"
  by (rule add_funds_inv [OF duo_start_inv duo_funds_first])

lemma duo_funds_second:
  "add_funds (ref_env False) (duo_ctx 1) duo_half \<lparr>af_transaction = duo_fund\<rparr> = Ok duo_funded"
proof -
  have "bmap_len (bmap_insert (Btc_Public_Key 1) () [(Btc_Public_Key 0, ())]) = 2"
    by (simp add: bmap_len_def)
  then show ?thesis
    by (simp add: add_funds_eq [OF duo_half_inv duo_simps(2)] duo_ctx_def
        duo_keys [of 1, simplified] Let_def duo_find_out duo_quorum)
      (simp add: duo_half_def duo_start_def empty_schema_def unwrap_or_default_def duo_funded_def)
qed

lemma duo_funded_inv: "schema_inv (ref_env False) sample_core duo_funded"
  by (rule add_funds_inv [OF duo_half_inv duo_funds_second])

lemma duo_reachable:
  "reachable (ref_env False) (\<lambda>_. Inr (sample_config 2)) sample_core duo_start"
  "reachable (ref_env False) (\<lambda>_. Inr (sample_config 2)) sample_core duo_funded"
proof -
  show "reachable (ref_env False) (\<lambda>_. Inr (sample_config 2)) sample_core duo_start"
    using duo_init unfolding reachable_def by blast
  have ctx: "for_core (duo_ctx i) = sample_core" for i by (simp add: duo_ctx_def)
  have "service_step (ref_env False) (sample_core, duo_start) (sample_core, duo_half)"
    by (rule step_add_funds [OF ctx duo_funds_first])
  moreover have "service_step (ref_env False) (sample_core, duo_half) (sample_core, duo_funded)"
    by (rule step_add_funds [OF ctx duo_funds_second])
  ultimately have "(service_step (ref_env False))\<^sup>*\<^sup>* (sample_core, duo_start) (sample_core, duo_funded)"
    by (meson r_into_rtranclp rtranclp_trans)
  with duo_init show "reachable (ref_env False) (\<lambda>_. Inr (sample_config 2)) sample_core duo_funded"
    unfolding reachable_def by blast
qed

lemma duo_proposed:
  "actual_proposed_anchoring_transaction (ref_env False) sample_core duo_funded =
     Ok (Some (duo_proposal, [duo_fund]))"
proof -
  let ?b = "proposal_builder (ref_env False) duo_funded (sample_config 2) 0 (Hash 0)"
  have b: "builder_payload ?b = Some (0, Hash 0)" "builder_fee ?b = Some 10"
    "builder_recovery_tx ?b = None"
    by (simp_all add: proposal_builder_def sample_config_def)
  have src: "builder_sources ?b = [(0, duo_fund)]"
    by (simp add: proposal_builder_sources duo_simps funding_source_def duo_find_out)
  have out: "builder_output ?b = out_script_of (ref_env False) (sample_config 2)"
    by (simp add: proposal_builder_output target_config_def in_transition_def duo_simps)
  have size: "size_of_tx (ref_env False) (draft_tx (ref_env False) ?b
      \<lparr>block_height = 0, block_hash = Hash 0, prev_tx_chain = None\<rparr> bal) = 153" for bal
    by (subst ref_draft_size)
      (simp_all add: src out out_script_of_def moving_redeem ref_to_v0_p2wsh_def)
  have "create (ref_env False) ?b = Ok (duo_proposal, [duo_fund])"
    by (simp add: create_eq [OF ref_crate_laws b(1,2) refl] src index_at_def get_nth_def duo_fund_def
        add_u64_def b(3) size mul_u64_def duo_proposal_def)
  then show ?thesis
    by (simp add: actual_proposed_eq [OF ref_crate_laws sample_core_laws duo_funded_inv duo_simps(3)]
        sample_core_def transition_stuck_def in_transition_def proposal_height_def duo_simps)
qed

end
