(* ===== verification/Anchoring_Ledger.thy ===== *)
theory Anchoring_Ledger
  imports Service_Samples
begin

text \<open>
  What the service is for, without signatures, transactions and scripts: a ledger of anchored
  blocks with a wallet. The ledger knows the anchored heights and hashes, the configuration in
  force and the one to come, the funding that waits and the funding that was spent; its steps are
  to anchor the block that is due, to take new funding, to change the configuration, and to see the
  blockchain grow. The service refines it: under the abstraction function each of its steps is a step
  of the ledger or changes nothing the ledger sees (a signature or a confirmation that completes no
  quorum). Invariants of the ledger are therefore invariants of the service.
\<close>

section \<open>The abstract machine\<close>

record ledger =
  led_anchors :: "(u64 \<times> hash) list"
  led_config :: config
  led_next :: "config option"
  led_pending :: "sha256d option"
  led_spent :: "sha256d set"

type_synonym ledger_state = "core_schema \<times> ledger"

definition led_moving :: "env \<Rightarrow> ledger \<Rightarrow> bool" where
  "led_moving E a \<longleftrightarrow>
     (case led_next a of None \<Rightarrow> False | Some f \<Rightarrow> redeem_of E (led_config a) \<noteq> redeem_of E f)"

text \<open>The block that is due: the genesis block, the last anchored one once more while the money
  moves to another address, and otherwise the next one of the schedule.\<close>

definition due_height :: "env \<Rightarrow> ledger \<Rightarrow> u64" where
  "due_height E a =
     (if led_anchors a = [] then 0
      else let h = fst (last (led_anchors a))
           in if led_moving E a then h else next_anchoring_height (led_config a) h)"

definition led_anchor :: "ledger \<Rightarrow> u64 \<times> hash \<Rightarrow> ledger" where
  "led_anchor a b = a\<lparr>led_anchors := led_anchors a @ [b],
     led_config := (case led_next a of None \<Rightarrow> led_config a | Some f \<Rightarrow> f), led_next := None,
     led_spent := led_spent a \<union> set_option (led_pending a), led_pending := None\<rparr>"

inductive ledger_step :: "env \<Rightarrow> ledger_state \<Rightarrow> ledger_state \<Rightarrow> bool" for E where
  ledger_anchor:
    "core (due_height E a) = Some h \<Longrightarrow> led_anchors a \<noteq> [] \<or> led_pending a \<noteq> None \<Longrightarrow>
     ledger_step E (core, a) (core, led_anchor a (due_height E a, h))"
| ledger_fund: "f \<notin> led_spent a \<Longrightarrow> ledger_step E (core, a) (core, a\<lparr>led_pending := Some f\<rparr>)"
| ledger_retune:
    "valid_config E c \<Longrightarrow> out_script_of E c = out_script_of E (led_config a) \<Longrightarrow>
     ledger_step E (core, a) (core, a\<lparr>led_config := c\<rparr>)"
| ledger_move: "valid_config E c \<Longrightarrow> ledger_step E (core, a) (core, a\<lparr>led_next := Some c\<rparr>)"
| ledger_block: "core \<subseteq>\<^sub>m core' \<Longrightarrow> core_laws core' \<Longrightarrow> ledger_step E (core, a) (core', a)"

inductive_cases ledger_stepE: "ledger_step E st st'"

definition ledger_init :: "env \<Rightarrow> ledger_state \<Rightarrow> bool" where
  "ledger_init E st \<longleftrightarrow> core_laws (fst st) \<and> (\<exists>c. valid_config E c \<and>
     snd st = \<lparr>led_anchors = [], led_config = c, led_next = None, led_pending = None, led_spent = {}\<rparr>)"

text \<open>
  What the ledger keeps: valid configurations, anchors that are blocks of the blockchain in
  ascending order of their heights, and waiting funding that was not spent.
\<close>

definition ledger_inv :: "env \<Rightarrow> ledger_state \<Rightarrow> bool" where
  "ledger_inv E st \<longleftrightarrow> core_laws (fst st) \<and> valid_config E (led_config (snd st)) \<and>
     (\<forall>f. led_next (snd st) = Some f \<longrightarrow> valid_config E f) \<and>
     (\<forall>(h, hash) \<in> set (led_anchors (snd st)). fst st h = Some hash) \<and>
     sorted (map fst (led_anchors (snd st))) \<and>
     (\<forall>f. led_pending (snd st) = Some f \<longrightarrow> f \<notin> led_spent (snd st))"

lemma due_height_greatest:
  assumes "ledger_inv E (core, a)"
  shows "\<forall>h \<in> fst ` set (led_anchors a). h \<le> due_height E a"
proof (cases "led_anchors a = []")
  case False
  let ?last = "fst (last (led_anchors a))"
  have "core ?last = Some (snd (last (led_anchors a)))"
    using assms False by (force simp: ledger_inv_def)
  then have "?last < next_anchoring_height (led_config a) ?last"
    using assms by (intro next_anchoring_height_greater)
      (auto simp: ledger_inv_def dest: valid_configD(3) core_lawsD)
  then have "?last \<le> due_height E a" using False by (auto simp: due_height_def Let_def)
  moreover have "\<forall>h \<in> fst ` set (led_anchors a). h \<le> ?last"
    using assms False
    by (cases "led_anchors a" rule: rev_cases) (auto simp: ledger_inv_def sorted_append)
  ultimately show ?thesis by (meson order_trans)
qed simp

interpretation ledger_machine: state_machine "ledger_init E" "ledger_step E" "ledger_inv E" for E
proof
  show "ledger_inv E st" if "ledger_init E st" for st
    using that by (auto simp: ledger_init_def ledger_inv_def)
  show "ledger_inv E t" if "ledger_step E st t" "ledger_inv E st" for st t
    using that
  proof (induction rule: ledger_step.induct)
    case (ledger_anchor core a h)
    then show ?case
      using due_height_greatest [OF ledger_anchor.prems]
      by (auto simp: ledger_inv_def led_anchor_def sorted_append split: option.split)
  next
    case (ledger_block core core' a)
    then show ?case by (auto simp: ledger_inv_def map_le_def dom_def)
  qed (auto simp: ledger_inv_def)
qed

section \<open>The abstraction\<close>

definition anchor_of :: "env \<Rightarrow> transaction \<Rightarrow> u64 \<times> hash" where
  "anchor_of E tx = (block_height (anchored E tx), block_hash (anchored E tx))"

definition ledger_of :: "env \<Rightarrow> schema \<Rightarrow> ledger" where
  "ledger_of E s = \<lparr>led_anchors = map (anchor_of E) (transactions_chain s),
     led_config = the (actual_config_entry s), led_next = following_config_entry s,
     led_pending = map_option (tx_id E) (unspent_funding_entry s),
     led_spent = dom (spent_funding_transactions s)\<rparr>"

definition ledger_state_of :: "env \<Rightarrow> service_state \<Rightarrow> ledger_state" where
  "ledger_state_of E st = (fst st, ledger_of E (snd st))"

lemma ledger_state_of_Pair [simp]: "ledger_state_of E (core, s) = (core, ledger_of E s)"
  by (simp add: ledger_state_of_def)

lemma ledger_of_with_signature [simp]: "ledger_of E (with_signature s key n sig) = ledger_of E s"
  by (simp add: ledger_of_def)

lemma due_height_ledger_of:
  "actual_config_entry s = Some c \<Longrightarrow> due_height E (ledger_of E s) = proposal_height E s c"
  by (auto simp: due_height_def ledger_of_def proposal_height_def led_moving_def in_transition_def
      last_map anchor_of_def Let_def split: option.split)

lemma ledger_of_pushed:
  assumes "actual_config_entry s = Some c"
  shows "ledger_of E (pushed E s tx) = led_anchor (ledger_of E s) (anchor_of E tx)"
  using assms
  by (auto simp: ledger_of_def pushed_def led_anchor_def split: option.split)

section \<open>Refinement\<close>

text \<open>
  A refinement map from one machine to another: initial states go to initial states, and a step
  from a state that satisfies the invariant goes to a step or to no change. Then executions go to
  executions, and every invariant of the abstract machine holds of the images of reachable states.
\<close>

locale refinement_map = state_machine init step inv
  for init :: "'s \<Rightarrow> bool" and step :: "'s \<Rightarrow> 's \<Rightarrow> bool" and inv :: "'s \<Rightarrow> bool" +
  fixes ainit :: "'t \<Rightarrow> bool" and astep :: "'t \<Rightarrow> 't \<Rightarrow> bool" and abs :: "'s \<Rightarrow> 't"
  assumes init_abs: "init s \<Longrightarrow> ainit (abs s)"
    and step_abs: "inv s \<Longrightarrow> step s t \<Longrightarrow> astep (abs s) (abs t) \<or> abs t = abs s"
begin

lemma steps_abs:
  assumes "step\<^sup>*\<^sup>* s t" "inv s"
  shows "astep\<^sup>*\<^sup>* (abs s) (abs t)"
  using assms(1)
proof (induction rule: rtranclp_induct)
  case (step t u)
  have "inv t" using step.hyps(1) assms(2) by (rule steps_inv)
  with step show ?case by (metis step_abs rtranclp.rtrancl_into_rtrancl)
qed simp

lemma abs_invariant:
  assumes "state_machine ainit astep ainv" "init s" "step\<^sup>*\<^sup>* s t"
  shows "ainv (abs t)"
  using state_machine.reachable_inv [OF assms(1)] init_abs [OF assms(2)]
    steps_abs [OF assms(3) init_inv [OF assms(2)]] by blast

end

text \<open>A finalized proposal anchors the block that is due.\<close>

lemma finalized_anchor:
  assumes "crate_laws E" "core_laws core" "schema_inv E core s" "for_core ctx = core"
    and "sign_input E ctx s arg = Ok s'"
  shows "ledger_step E (core, ledger_of E s) (core, ledger_of E s') \<or> ledger_of E s' = ledger_of E s"
proof -
  obtain c where c: "actual_config_entry s = Some c" using assms(3) by (rule schema_inv_config)
  show ?thesis
  proof (cases "transactions_chain s' = transactions_chain s")
    case True
    have "ledger_of E s' = ledger_of E s"
      using True by (rule sign_input_sameE [OF assms(1-3) c assms(4,5)]) auto
    then show ?thesis ..
  next
    case False
    obtain n proposal inputs fin where
      proposed: "actual_proposed_anchoring_transaction E core s = Ok (Some (proposal, inputs))"
      and fin: "finalize_inputs E (redeem_of E c)
        (with_signature s (signed_key arg) n (si_input_signature arg)) (si_txid arg)
        (redeem_quorum E (redeem_of E c)) proposal [0..<length inputs] =
        (Ok (Some fin) :: (_, execution_error) outcome)"
      and s': "s' = pushed E (with_signature s (signed_key arg) n (si_input_signature arg)) fin"
      by (rule sign_input_finalizedE [OF assms(1-3) c assms(4,5) False])
    have tx: "proposal_tx E core s c fin"
      by (rule finalized_proposal_tx(1) [OF assms(1-3) c proposed fin])
    have funds: "transactions_chain s \<noteq> [] \<or> unspent_funding_entry s \<noteq> None"
      using proposal_is_proposal_tx [OF assms(1-3) c proposed]
      by (auto simp: proposal_tx_def anchors_block_def split: if_splits option.splits)
    have "ledger_of E s' = led_anchor (ledger_of E s) (anchor_of E fin)"
      using ledger_of_pushed [of "with_signature s (signed_key arg) n (si_input_signature arg)" c] c
      by (simp add: s')
    moreover have "anchor_of E fin = (due_height E (ledger_of E s), block_hash (anchored E fin))"
      "core (due_height E (ledger_of E s)) = Some (block_hash (anchored E fin))"
      using tx by (auto simp: proposal_tx_def anchors_block_def anchor_of_def due_height_ledger_of [OF c])
    ultimately show ?thesis
      using ledger_anchor [of core E "ledger_of E s"] funds by (auto simp: ledger_of_def)
  qed
qed

lemma service_step_ledger:
  assumes "crate_laws E" "service_inv E st" "service_step E st st'"
  shows "ledger_step E (ledger_state_of E st) (ledger_state_of E st') \<or>
    ledger_state_of E st' = ledger_state_of E st"
  using assms(3,2)
proof (induction rule: service_step.induct)
  case (step_sign_input ctx core s arg s')
  then show ?case using finalized_anchor [OF assms(1)] by (simp add: service_inv_def)
next
  case (step_add_funds ctx core s arg s')
  then have inv: "schema_inv E core s" by (simp add: service_inv_def)
  obtain c where c: "actual_config_entry s = Some c" using inv by (rule schema_inv_config)
  let ?f = "tx_id E (af_transaction arg)"
  have "?f \<notin> led_spent (ledger_of E s)" "ledger_of E s' = ledger_of E s \<or>
      ledger_of E s' = (ledger_of E s)\<lparr>led_pending := Some ?f\<rparr>"
    by (rule add_funds_OkE [OF inv c step_add_funds.hyps(2)]; simp add: ledger_of_def domIff)+
  then show ?case by (auto intro: ledger_fund)
next
  case (step_configure ctx params ctx' s s' core)
  then have inv: "schema_inv E core s" by (simp add: service_inv_def)
  obtain c where c: "actual_config_entry s = Some c" and v: "valid_config E c"
    using inv by (rule schema_inv_config)
  have p: "valid_config E params"
    using step_configure.hyps(1)
    by (auto simp: verify_config_def valid_config_def outcome_simps split: if_splits)
  have "p2wsh_laws E" using assms(1) by (simp add: crate_laws_def)
  then have "out_script_of E params = out_script_of E c"
    if "p2wsh_address E (redeem_of E c) (network c) =
      p2wsh_address E (redeem_of E params) (network params)"
    using that unfolding p2wsh_laws_def out_script_of_def by metis
  with step_configure.hyps(2) have "ledger_of E s' = (ledger_of E s)\<lparr>led_next := Some params\<rparr> \<or>
      ledger_of E s' = (ledger_of E s)\<lparr>led_config := params\<rparr> \<and>
      out_script_of E params = out_script_of E (led_config (ledger_of E s))"
    by (auto simp: apply_config_def actual_config_def c valid_config_scripts [OF v]
        valid_config_scripts [OF p] ledger_of_def split: if_splits)
  with p show ?case by (auto intro: ledger_retune ledger_move)
next
  case (step_block core core' s)
  then show ?case by (simp add: ledger_block)
qed

sublocale crates \<subseteq> ledger: refinement_map "service_init E from_bytes" "service_step E" "service_inv E"
    "ledger_init E" "ledger_step E" "ledger_state_of E" for from_bytes
proof
  show "ledger_init E (ledger_state_of E st)" if "service_init E from_bytes st" for st
    using that
    by (cases st) (auto simp: service_init_def ledger_init_def initialize_def outcome_simps
        ledger_of_def empty_schema_def valid_config_def)
  show "ledger_step E (ledger_state_of E s) (ledger_state_of E t) \<or>
      ledger_state_of E t = ledger_state_of E s" if "service_inv E s" "service_step E s t" for s t
    by (rule service_step_ledger [OF laws that])
qed

context crates
begin

lemma run_refines_ledger:
  assumes "service_init E from_bytes st" "(service_step E)\<^sup>*\<^sup>* st st'"
  shows "ledger_init E (ledger_state_of E st)"
    "(ledger_step E)\<^sup>*\<^sup>* (ledger_state_of E st) (ledger_state_of E st')"
    "ledger_inv E (ledger_state_of E st')"
  using ledger.init_abs [OF assms(1)] ledger.steps_abs [OF assms(2) service.init_inv [OF assms(1)]]
    ledger.abs_invariant [OF ledger_machine.state_machine_axioms assms]
  by blast+

end

text \<open>
  C3. The service refines the ledger of anchored blocks: every execution of the service, seen through
  the abstraction function, is an execution of the ledger, in which each new transaction of the chain
  anchors exactly the block that is due, takes the waiting funding and completes a pending change of
  the configuration, and nothing else ever changes the anchored blocks. The invariant of the ledger
  holds of the state that is reached.
\<close>

theorem service_refines_ledger:
  assumes "crate_laws E" and "service_init E from_bytes st" and "(service_step E)\<^sup>*\<^sup>* st st'"
  shows "ledger_init E (ledger_state_of E st) \<and>
    (ledger_step E)\<^sup>*\<^sup>* (ledger_state_of E st) (ledger_state_of E st') \<and>
    ledger_inv E (ledger_state_of E st')"
  using crates.run_refines_ledger [OF crates.intro, OF assms] by blast

theorem service_refines_ledger_witness:
  "(ledger_step (ref_env False))\<^sup>*\<^sup>* (sample_core, ledger_of (ref_env False) sample_start)
     (sample_core, ledger_of (ref_env False) second_anchored) \<and>
   length (led_anchors (ledger_of (ref_env False) second_anchored)) = 2"
proof -
  have "(service_step (ref_env False))\<^sup>*\<^sup>* (sample_core, sample_start) (sample_core, second_anchored)"
    using sample_steps by (meson rtranclp.rtrancl_refl rtranclp.rtrancl_into_rtrancl)
  from service_refines_ledger [OF ref_crate_laws sample_init this] show ?thesis
    by (simp add: ledger_of_def second_chain)
qed

end
