(* ===== verification/Service_Properties.thy ===== *)
theory Service_Properties
  imports Service_Samples
begin

text \<open>
  What the service guarantees in every execution: that the chain records the blockchain and is
  linked, that only a quorum of verified signatures extends it, that nothing is taken back, that a
  funding transaction is spent once, which results the handlers can have, and that a complete set
  of signatures does extend the chain.
\<close>

section \<open>The chain\<close>

text \<open>
  C1. The anchoring chain records the blockchain: in every reachable state each transaction of the
  chain carries a payload, and the payload's hash is the hash of the Exonum block at the payload's
  height. None of them is a recovery transaction.
\<close>

theorem chain_anchors_blocks:
  assumes "crate_laws E" and "reachable E from_bytes core s" and "tx \<in> set (transactions_chain s)"
  shows "\<exists>script p. anchoring_metadata E tx = (Ok (Some (script, p)) :: (_, 'e) outcome) \<and>
    core (block_height p) = Some (block_hash p) \<and> prev_tx_chain p = None"
proof -
  have "schema_inv E core s" by (rule reachable_stateE [OF assms(1,2)])
  then have "anchors_block E core tx" using assms(3) by (simp add: schema_inv_def chain_ok_def)
  moreover have "hash_laws E" using assms(1) by (simp add: crate_laws_def)
  ultimately show ?thesis
    by (auto simp: anchors_block_def anchored_def anchoring_metadata_eq)
qed

theorem chain_anchors_blocks_witness:
  "\<exists>script p. anchoring_metadata (ref_env False) sample_final_tx =
      (Ok (Some (script, p)) :: (_, unit) outcome) \<and>
    sample_core (block_height p) = Some (block_hash p) \<and> prev_tx_chain p = None"
proof -
  have "sample_final_tx \<in> set (transactions_chain sample_anchored)"
    by (simp add: sample_anchored_simps)
  from chain_anchors_blocks [OF ref_crate_laws sample_run(3) this] show ?thesis .
qed

text \<open>
  C5. The chain is linked and ordered: each transaction spends, with its first input, the first
  output of its predecessor, so \<open>prev_tx_id\<close> gives the predecessor's id, and the anchored heights
  never decrease.
\<close>

theorem chain_is_linked:
  assumes "crate_laws E" and "reachable E from_bytes core s" and "Suc i < length (transactions_chain s)"
  shows "prev_tx_id (transactions_chain s ! Suc i) =
      (Ok (tx_id E (transactions_chain s ! i)) :: (_, 'e) outcome) \<and>
    op_vout (previous_output (tx_input (transactions_chain s ! Suc i) ! 0)) = 0 \<and>
    (\<exists>script script' p p'.
      anchoring_metadata E (transactions_chain s ! i) = (Ok (Some (script, p)) :: (_, 'e) outcome) \<and>
      anchoring_metadata E (transactions_chain s ! Suc i) =
        (Ok (Some (script', p')) :: (_, 'e) outcome) \<and>
      block_height p \<le> block_height p')"
proof -
  let ?a = "transactions_chain s ! i" and ?b = "transactions_chain s ! Suc i"
  have inv: "chain_ok E core s"
    by (rule reachable_stateE [OF assms(1,2)]) (simp add: schema_inv_def)
  then have link: "chain_link E ?a ?b"
    using assms(3) by (simp add: chain_ok_def successively_conv_nth)
  have "anchors_block E core ?a" "anchors_block E core ?b"
    using inv assms(3) by (simp_all add: chain_ok_def)
  moreover have "hash_laws E" using assms(1) by (simp add: crate_laws_def)
  ultimately show ?thesis
    using link
    by (auto simp: chain_link_def spends_tail_def prev_tx_id_def index_at_def anchors_block_def
        anchored_def anchoring_metadata_eq split: list.splits)
qed

theorem chain_is_linked_witness:
  "prev_tx_id second_final_tx =
     (Ok (tx_id (ref_env False) sample_final_tx) :: (_, unit) outcome)"
  using chain_is_linked [OF ref_crate_laws sample_run(4), of 0, where ?'e = unit]
  by (simp add: second_chain)

text \<open>
  C11. The chain can be continued: in every reachable state the last transaction pays to the address
  of the actual configuration, and that configuration is valid, so its redeem script, under which
  the next transaction is signed, exists.
\<close>

theorem chain_tail_spendable:
  assumes "crate_laws E" and "reachable E from_bytes core s" and "transactions_chain s \<noteq> []"
  shows "\<exists>c script p. actual_config s = (Ok c :: (_, 'e) outcome) \<and> validate E c = Ok () \<and>
    anchoring_out_script E c = (Ok script :: (_, 'e) outcome) \<and>
    anchoring_metadata E (last (transactions_chain s)) =
      (Ok (Some (script, p)) :: (_, 'e) outcome)"
proof -
  obtain c where inv: "schema_inv E core s" "actual_config_entry s = Some c" "valid_config E c"
    by (rule reachable_stateE [OF assms(1,2)])
  have hl: "hash_laws E" using assms(1) by (simp add: crate_laws_def)
  show ?thesis
    using inv(3) valid_config_scripts(2) [OF inv(3)] schema_inv_tail(1) [OF inv(1,2) assms(3)]
    by (simp add: actual_config_def inv(2) valid_config_def anchoring_metadata_eq [OF hl])
qed

theorem chain_tail_spendable_witness:
  "\<exists>c script p. actual_config second_anchored = (Ok c :: (_, unit) outcome) \<and>
     anchoring_out_script (ref_env False) c = (Ok script :: (_, unit) outcome) \<and>
     anchoring_metadata (ref_env False) second_final_tx = (Ok (Some (script, p)) :: (_, unit) outcome)"
  using chain_tail_spendable [OF ref_crate_laws sample_run(4), where ?'e = unit]
  by (auto simp: second_chain)

section \<open>Proposals\<close>

text \<open>
  C12. What is proposed: a proposal of a reachable state spends the last anchoring transaction, when
  there is one, and the unspent funding transaction, when there is one, and nothing else. Its
  payload is the existing block at the height that follows the latest anchored height. It pays to
  the script of the anchoring state (the following address in a transition), except that the first
  transaction of the chain pays to the actual address.
\<close>

theorem proposal_sound:
  assumes "crate_laws E" and "reachable E from_bytes core s"
    and "actual_proposed_anchoring_transaction E core s = Ok (Some (tx, inputs))"
  shows "inputs = (if transactions_chain s = [] then [] else [last (transactions_chain s)]) @
       (case unspent_funding_entry s of None \<Rightarrow> [] | Some f \<Rightarrow> [f]) \<and>
    map (\<lambda>i. op_txid (previous_output i)) (tx_input tx) = map (tx_id E) inputs \<and>
    (\<exists>st latest script p. actual_state E s = (Ok st :: (_, 'e) outcome) \<and>
      latest_anchored_height E s = (Ok latest :: (_, 'e) outcome) \<and>
      anchoring_metadata E tx = (Ok (Some (script, p)) :: (_, 'e) outcome) \<and>
      (if transactions_chain s = [] then anchoring_out_script E (actual_config_of st)
       else state_script_pubkey E st) = (Ok script :: (_, 'e) outcome) \<and>
      state_following_anchoring_height E st latest =
        (Ok (block_height p) :: (_, 'e) outcome) \<and>
      core (block_height p) = Some (block_hash p) \<and> prev_tx_chain p = None)"
proof -
  obtain c where inv: "core_laws core" "schema_inv E core s" "actual_config_entry s = Some c"
    by (rule reachable_stateE [OF assms(1,2)])
  have hl: "hash_laws E" using assms(1) by (simp add: crate_laws_def)
  have "proposal_tx E core s c tx"
    by (rule proposal_is_proposal_tx(1) [OF assms(1) inv assms(3)])
  then have meta: "anchoring_metadata E tx =
      (Ok (Some (out_script_of E (target_config E s c), anchored E tx)) :: (_, 'e) outcome)"
    and p: "block_height (anchored E tx) = proposal_height E s c"
      "core (block_height (anchored E tx)) = Some (block_hash (anchored E tx))"
      "prev_tx_chain (anchored E tx) = None"
    by (auto simp: proposal_tx_def anchors_block_def anchored_def anchoring_metadata_eq [OF hl])
  obtain st where st: "actual_state E s = (Ok st :: (_, 'e) outcome)"
    using actual_state_eq [OF inv(2,3)] by blast
  let ?latest = "map_option (\<lambda>t. block_height (anchored E t)) (last_opt (transactions_chain s))"
  have "latest_anchored_height E s = (Ok ?latest :: (_, 'e) outcome)"
    by (rule latest_anchored_height_eq [OF hl inv(2)])
  moreover have "state_following_anchoring_height E st ?latest =
      (Ok (block_height (anchored E tx)) :: (_, 'e) outcome)"
    unfolding p(1) by (rule following_height_eq [OF inv(2,1,3) st])
  moreover have "(if transactions_chain s = [] then anchoring_out_script E (actual_config_of st)
       else state_script_pubkey E st) =
      (Ok (out_script_of E (target_config E s c)) :: (_, 'e) outcome)"
    by (rule target_script [OF inv(2,3) st])
  ultimately show ?thesis
    using meta p(2,3) st
    by (intro conjI proposal_is_proposal_tx(3) [OF assms(1) inv assms(3)]
        proposal_inputs [OF assms(1) inv assms(3)]) blast
qed

theorem proposal_sound_witness:
  "\<exists>p script. anchoring_metadata (ref_env False) sample_proposal =
       (Ok (Some (script, p)) :: (_, unit) outcome) \<and>
     map (\<lambda>i. op_txid (previous_output i)) (tx_input sample_proposal) =
       [tx_id (ref_env False) sample_fund] \<and>
     sample_core (block_height p) = Some (block_hash p)"
  using proposal_sound [OF ref_crate_laws sample_run(2) sample_proposed, where ?'e = unit]
  by (simp only: list.map) blast

text \<open>
  C13. Why there may be no proposal: in a reachable state, and with a release build, the computation
  of the proposal never panics, and it fails only because there is nothing to spend (no anchoring
  transaction and no funding transaction yet) or because the fee exceeds the balance. The errors
  for an unsuitable output or an unsuitable funding transaction do not occur. Before the chain is established, a proposal exists or fails; it is
  not silently absent.
\<close>

theorem proposal_failures:
  assumes "crate_laws E" and "reachable E from_bytes core s" and "\<not> debug_build E"
  shows "\<not> (\<exists>p. actual_proposed_anchoring_transaction E core s = Panic p) \<and>
    (\<forall>e. actual_proposed_anchoring_transaction E core s = Err e \<longrightarrow>
       (e = Builder_NoInputs \<and> transactions_chain s = [] \<and> unspent_funding_entry s = None) \<or>
       (\<exists>fee balance. e = Builder_InsufficientFunds fee balance \<and> balance < fee)) \<and>
    (transactions_chain s = [] \<longrightarrow> actual_proposed_anchoring_transaction E core s \<noteq> Ok None)"
proof -
  obtain c where inv: "core_laws core" "schema_inv E core s" "actual_config_entry s = Some c"
    by (rule reachable_stateE [OF assms(1,2)])
  show ?thesis
    using proposal_result [OF assms(1) inv assms(3)]
    by (auto split: outcome.splits option.splits builder_error.splits)
qed

theorem proposal_failures_witness:
  "\<not> (\<exists>p. actual_proposed_anchoring_transaction (ref_env False) sample_core sample_start = Panic p) \<and>
   actual_proposed_anchoring_transaction (ref_env False) sample_core sample_start \<noteq> Ok None"
  using proposal_failures [OF ref_crate_laws sample_run(1)]
  by (simp add: sample_start_def empty_schema_def)

section \<open>Signing\<close>

text \<open>
  C2. Only a quorum extends the chain: when an executed \<open>sign_input\<close> changes the chain, it appends
  one transaction, which is the current proposal except for the witnesses, and every input of it is
  spent with exactly a quorum of signatures of different anchoring nodes, each of which was verified
  for this input of a transaction with this id.
\<close>

theorem finalization_needs_quorum:
  assumes "crate_laws E" and "reachable E from_bytes core s" and "for_core ctx = core"
    and "sign_input E ctx s arg = Ok s'" and "transactions_chain s' \<noteq> transactions_chain s"
  shows "\<exists>c proposal inputs fin. actual_config_entry s = Some c \<and>
    actual_proposed_anchoring_transaction E core s = Ok (Some (proposal, inputs)) \<and>
    transactions_chain s' = transactions_chain s @ [fin] \<and>
    strip_witness fin = strip_witness proposal \<and> tx_id E fin = si_txid arg \<and>
    length (tx_input fin) = length inputs \<and>
    (\<forall>i < length inputs. \<exists>sigs. sigs = input_signatures s' (tx_input_id_new (tx_id E fin) (of_nat i)) \<and>
       bmap_len sigs = config_byzantine_quorum E c \<and> distinct (map fst sigs) \<and>
       (\<forall>(n, sig) \<in> set sigs. sig_justified E (tx_input_id_new (tx_id E fin) (of_nat i)) n sig) \<and>
       tx_input fin ! i = spend_input E (redeem_of E c) (tx_input proposal ! i) (bmap_values sigs))"
proof -
  obtain c where inv: "core_laws core" "schema_inv E core s" "actual_config_entry s = Some c"
    and v: "valid_config E c" by (rule reachable_stateE [OF assms(1,2)])
  have laws: "segwit_laws E" "p2wsh_laws E" using assms(1) by (simp_all add: crate_laws_def)
  obtain n proposal inputs fin where
      p: "actual_proposed_anchoring_transaction E core s = Ok (Some (proposal, inputs))"
    and tid: "tx_id E proposal = si_txid arg"
    and fin: "finalize_inputs E (redeem_of E c)
         (with_signature s (signed_key arg) n (si_input_signature arg)) (si_txid arg)
         (redeem_quorum E (redeem_of E c)) proposal [0..<length inputs] =
         (Ok (Some fin) :: (_, execution_error) outcome)"
    and s': "s' = pushed E (with_signature s (signed_key arg) n (si_input_signature arg)) fin"
    by (rule sign_input_finalizedE [OF assms(1) inv assms(3-5)])
  have inv': "schema_inv E core s'"
    by (rule sign_input_inv [OF assms(1) inv(1,2) assms(3,4)])
  then have maps: "maps_ok E s'" by (simp add: schema_inv_def)
  have sigs: "input_signatures s' k = input_signatures
      (with_signature s (signed_key arg) n (si_input_signature arg)) k" for k
    by (simp add: s' pushed_def input_signatures_def)
  note f = finalize_inputs_SomeD [OF laws(1) fin distinct_upt, folded sigs]
  have strip: "strip_witness fin = strip_witness proposal"
    by (rule finalized_proposal_tx(2) [OF assms(1) inv p fin])
  then have "tx_id E fin = tx_id E proposal"
    unfolding tx_id_def by (rule txid_strip_witness [OF laws(1)])
  with tid have id: "tx_id E fin = si_txid arg" by simp
  have q: "redeem_quorum E (redeem_of E c) = config_byzantine_quorum E c"
    by (rule redeem_quorum_of [OF laws(2) v])
  have dist: "distinct (map fst (input_signatures s' k))" for k
    by (rule bmap_ordered_distinct) (rule input_signatures_ok(1) [OF maps])
  have len: "length (tx_input fin) = length inputs"
    using f proposal_is_proposal_tx(2) [OF assms(1) inv p] by simp
  have chain: "transactions_chain s' = transactions_chain s @ [fin]" by (simp add: s' pushed_def)
  have each: "\<exists>sigs. sigs = input_signatures s' (tx_input_id_new (tx_id E fin) (of_nat i)) \<and>
       bmap_len sigs = config_byzantine_quorum E c \<and> distinct (map fst sigs) \<and>
       (\<forall>(n, sig) \<in> set sigs. sig_justified E (tx_input_id_new (tx_id E fin) (of_nat i)) n sig) \<and>
       tx_input fin ! i = spend_input E (redeem_of E c) (tx_input proposal ! i) (bmap_values sigs)"
    if "i < length inputs" for i
  proof -
    have "i \<in> set [0..<length inputs]" using that by simp
    with f id q dist input_signatures_ok(2) [OF maps] show ?thesis by simp
  qed
  from inv(3) p chain strip id len each show ?thesis by blast
qed

theorem finalization_needs_quorum_witness:
  "\<exists>c. actual_config_entry sample_anchored = Some c \<and>
     bmap_len (input_signatures second_anchored
       (tx_input_id_new (tx_id (ref_env False) second_final_tx) 0)) =
     config_byzantine_quorum (ref_env False) c"
  using finalization_needs_quorum [OF ref_crate_laws sample_run(3) _ second_sign]
  by (simp add: sample_ctx_def second_chain sample_anchored_simps second_proposed) (elim conjE, simp)

text \<open>
  C14. Signing never panics in a release build: in every reachable state, unless a change of address
  waits for the chain to be established, \<open>sign_input\<close> returns a new state or an error value,
  whatever the caller and the message.
\<close>

theorem sign_input_no_panic:
  assumes "crate_laws E" and "reachable E from_bytes core s" and "for_core ctx = core"
    and "\<not> debug_build E" and "following_config_entry s = None \<or> transactions_chain s \<noteq> []"
  shows "sign_input E ctx s arg \<noteq> Panic p"
proof -
  obtain c where inv: "core_laws core" "schema_inv E core s" "actual_config_entry s = Some c"
    by (rule reachable_stateE [OF assms(1,2)])
  have no_panic: "actual_proposed_anchoring_transaction E core s \<noteq> Panic p'" for p'
    by (rule proposal_no_panic [OF assms(1) inv assms(4)])
  have some: "transactions_chain s \<noteq> []"
    if "actual_proposed_anchoring_transaction E core s = Ok None"
    by (rule no_proposal_established [OF assms(1) inv assms(4) that])
  have used: "use_signature E s (redeem_of E c) q n proposal inputs arg \<noteq> Panic p"
    if "actual_proposed_anchoring_transaction E core s = Ok (Some (proposal, inputs))" for q n proposal inputs
    by (rule use_signature_no_panic [OF assms(1) inv that assms(5)])
  show ?thesis
    unfolding sign_input_eq [OF inv(2,3) assms(3)]
    using no_panic some used by (auto split: option.split outcome.split)
qed

theorem sign_input_no_panic_witness:
  "\<not> (\<exists>p. sign_input (ref_env False) sample_ctx second_anchored (solo_msg sample_proposal) =
     Panic p)"
  using sign_input_no_panic [OF ref_crate_laws sample_run(4), of sample_ctx "solo_msg sample_proposal"]
  by (simp add: sample_ctx_def second_chain)

text \<open>Before the chain is established every proposal pays to the actual configuration, also when
  another one follows; the assertion in \<open>push_anchoring_transaction\<close> then fails.\<close>

lemma first_proposal_target:
  assumes "proposal_tx E core s c tx" "transactions_chain s = []"
  obtains p where "tx_metadata E tx = Some (out_script_of E c, p)"
  using assms by (auto simp: proposal_tx_def anchors_block_def target_config_def)

lemma first_completion_panics:
  assumes "crate_laws E" "core_laws core" "schema_inv E core s" "actual_config_entry s = Some c"
    and "actual_proposed_anchoring_transaction E core s = Ok (Some (proposal, inputs))"
    and first: "transactions_chain s = []" "length inputs = 1"
    and following: "following_config_entry s = Some f" "out_script_of E f \<noteq> out_script_of E c"
    and key: "signed_key arg = tx_input_id_new (tx_id E proposal) 0" "si_txid arg = tx_id E proposal"
    and input: "unat (si_input arg) = 0"
    and node: "caller_author ctx = Some author" "find_bitcoin_key c author = Some (n, pk)"
    and ver: "verify_input E (redeem_of E c) (proposal, unat (si_input arg))
        (inputs ! unat (si_input arg)) pk (si_input_signature arg) = None"
    and new: "bmap_get (input_signatures s (signed_key arg)) n = None"
    and count: "bmap_len (input_signatures s (signed_key arg)) + 1 = config_byzantine_quorum E c"
    and "for_core ctx = core"
  shows "sign_input E ctx s arg =
    Panic (Assertion_Failed ''Malformed output address in the anchoring transaction.'')"
proof -
  let ?s = "with_signature s (signed_key arg) n (si_input_signature arg)"
  have hl: "hash_laws E" using assms(1) by (simp add: crate_laws_def)
  have unsigned: "n \<notin> fst ` set (input_signatures s (signed_key arg))"
    unfolding bmap_keys [symmetric] using new by (simp add: domIff)
  obtain fin where sign: "sign_input E ctx s arg = push_anchoring_transaction E ?s fin"
    and tx: "proposal_tx E core s c fin"
    by (rule sign_input_pushes [OF assms(1-5) unsigned count _ key(2) _ node ver assms(18)])
      (simp_all add: input first(2))
  obtain q where md: "tx_metadata E fin = Some (out_script_of E c, q)"
    by (rule first_proposal_target [OF tx first(1)])
  have "configs_ok E ?s" using assms(3) by (simp add: schema_inv_def configs_ok_def)
  from push_eq [OF hl this md] sign show ?thesis using following by simp
qed

lemma first_sign_keeps_chain:
  assumes "crate_laws E" "core_laws core" "schema_inv E core s" "actual_config_entry s = Some c"
    and "for_core ctx = core" "sign_input E ctx s arg = Ok s'"
    and first: "transactions_chain s = []"
    and following: "following_config_entry s = Some f" "out_script_of E f \<noteq> out_script_of E c"
  shows "transactions_chain s' = []"
proof (rule ccontr)
  assume "transactions_chain s' \<noteq> []"
  then have ne: "transactions_chain s' \<noteq> transactions_chain s" using first by simp
  obtain n proposal inputs fin where
      p: "actual_proposed_anchoring_transaction E core s = Ok (Some (proposal, inputs))"
    and fin: "finalize_inputs E (redeem_of E c)
         (with_signature s (signed_key arg) n (si_input_signature arg)) (si_txid arg)
         (redeem_quorum E (redeem_of E c)) proposal [0..<length inputs] =
         (Ok (Some fin) :: (_, execution_error) outcome)"
    and s': "s' = pushed E (with_signature s (signed_key arg) n (si_input_signature arg)) fin"
    by (rule sign_input_finalizedE [OF assms(1-6) ne])
  obtain q where "tx_metadata E fin = Some (out_script_of E c, q)"
    by (rule first_proposal_target [OF finalized_proposal_tx(1) [OF assms(1-4) p fin] first])
  moreover have "schema_inv E core s'" by (rule sign_input_inv [OF assms(1-3,5,6)])
  then have "fst (the (tx_metadata E fin)) = out_script_of E f"
    by (simp add: s' pushed_def following(1) schema_inv_def tail_ok_def)
  ultimately show False using following(2) by simp
qed

text \<open>
  C17. A change of address that is configured before the first anchoring transaction stops the
  anchoring. In every reachable state without a chain whose following configuration has another
  output script, the first proposal ignores the following configuration: it spends one transaction
  and pays to the actual address. The verified signature of a further node that completes the
  quorum for it runs into the assertion of \<open>push_anchoring_transaction\<close>, which expects the following
  address; and no \<open>sign_input\<close> at all extends the chain.
\<close>

theorem first_transaction_blocked:
  assumes "crate_laws E" and "reachable E from_bytes core s" and "for_core ctx = core"
    and "transactions_chain s = []" and "actual_config_entry s = Some c"
    and "following_config_entry s = Some f" and "out_script_of E f \<noteq> out_script_of E c"
  shows "(\<forall>proposal inputs.
      actual_proposed_anchoring_transaction E core s = Ok (Some (proposal, inputs)) \<longrightarrow>
        length inputs = 1 \<and>
        (\<exists>p. anchoring_metadata E proposal =
          (Ok (Some (out_script_of E c, p)) :: (_, 'e) outcome)) \<and>
        (\<forall>author n pk sigs.
          caller_author ctx = Some author \<and> find_bitcoin_key c author = Some (n, pk) \<and>
          si_txid arg = tx_id E proposal \<and> si_input arg = 0 \<and>
          verify_input E (redeem_of E c) (proposal, 0) (inputs ! 0) pk (si_input_signature arg) = None \<and>
          sigs = input_signatures s (tx_input_id_new (tx_id E proposal) 0) \<and>
          bmap_get sigs n = None \<and> bmap_len sigs + 1 = config_byzantine_quorum E c \<longrightarrow>
          sign_input E ctx s arg =
            Panic (Assertion_Failed ''Malformed output address in the anchoring transaction.''))) \<and>
    (\<forall>s'. sign_input E ctx s arg = Ok s' \<longrightarrow> transactions_chain s' = [])"
proof (intro conjI allI impI)
  have inv: "core_laws core" "schema_inv E core s"
    by (rule reachable_stateE [OF assms(1,2)], assumption)+
  have hl: "hash_laws E" using assms(1) by (simp add: crate_laws_def)
  {
    fix proposal inputs
    assume p: "actual_proposed_anchoring_transaction E core s = Ok (Some (proposal, inputs))"
    note proposed = proposal_is_proposal_tx [OF assms(1) inv assms(5) p]
    show "\<exists>q. anchoring_metadata E proposal = (Ok (Some (out_script_of E c, q)) :: (_, 'e) outcome)"
      by (rule first_proposal_target [OF proposed(1) assms(4)]) (simp add: anchoring_metadata_eq [OF hl])
    have "inputs \<noteq> []" by (rule proposal_inputs_nonempty [OF assms(1) inv assms(5) p])
    then show one: "length inputs = 1"
      using proposed(3) assms(4) by (auto split: option.splits)
    fix author n pk sigs
    assume m: "caller_author ctx = Some author \<and> find_bitcoin_key c author = Some (n, pk) \<and>
        si_txid arg = tx_id E proposal \<and> si_input arg = 0 \<and>
        verify_input E (redeem_of E c) (proposal, 0) (inputs ! 0) pk (si_input_signature arg) = None \<and>
        sigs = input_signatures s (tx_input_id_new (tx_id E proposal) 0) \<and>
        bmap_get sigs n = None \<and> bmap_len sigs + 1 = config_byzantine_quorum E c"
    then have key: "signed_key arg = tx_input_id_new (tx_id E proposal) 0" by (simp add: signed_key_def)
    show "sign_input E ctx s arg =
        Panic (Assertion_Failed ''Malformed output address in the anchoring transaction.'')"
      by (rule first_completion_panics [OF assms(1) inv assms(5) p assms(4) one assms(6,7) key])
        (use m assms(3) in \<open>auto simp: key\<close>)
  }
  show "transactions_chain s' = []" if "sign_input E ctx s arg = Ok s'" for s'
    by (rule first_sign_keeps_chain [OF assms(1) inv assms(5,3) that assms(4,6,7)])
qed

theorem first_transaction_blocked_witness:
  "actual_proposed_anchoring_transaction (ref_env False) sample_core sample_moving =
     Ok (Some (sample_proposal, [sample_fund])) \<and>
   sign_input (ref_env False) sample_ctx sample_moving (solo_msg sample_proposal) =
     Panic (Assertion_Failed ''Malformed output address in the anchoring transaction.'')"
proof -
  let ?arg = "solo_msg sample_proposal"
  have key: "caller_author sample_ctx = Some (Service_Key 0)" "for_core sample_ctx = sample_core"
    by (simp_all add: sample_ctx_def)
  have msg: "si_txid ?arg = tx_id (ref_env False) sample_proposal" "si_input ?arg = 0"
    "verify_input (ref_env False) (redeem_of (ref_env False) solo_config) (sample_proposal, 0)
       ([sample_fund] ! 0) (Btc_Public_Key 0) (si_input_signature ?arg) = None"
    by (simp_all add: solo_msg_def ref_verify_input_def)
  have sigs: "input_signatures sample_moving k = []" for k
    by (simp add: input_signatures_def sample_moving_def sample_funded_simps unwrap_or_default_def
        bmap_default_def)
  have count: "bmap_get (input_signatures sample_moving k) 0 = None"
    "bmap_len (input_signatures sample_moving k) + 1 = config_byzantine_quorum (ref_env False) solo_config"
    for k
    by (simp_all only: sigs sample_quorum) (simp_all add: bmap_get_def bmap_len_def)
  show ?thesis
    using first_transaction_blocked [OF ref_crate_laws moving_reachable key(2) moving_simps(3,1,2)
        moving_scripts, of ?arg] moving_proposed key(1) sample_key msg count
    by blast
qed

section \<open>Executions\<close>

text \<open>
  C10. Nothing is taken back: along every execution the anchoring chain is only extended, and every
  funding transaction recorded as spent stays so.
\<close>

theorem chain_append_only:
  assumes "crate_laws E" and "reachable E from_bytes core s"
    and "(service_step E)\<^sup>*\<^sup>* (core, s) (core', s')"
  shows "(\<exists>rest. transactions_chain s' = transactions_chain s @ rest) \<and>
    spent_funding_transactions s \<subseteq>\<^sub>m spent_funding_transactions s'"
proof -
  have "grows (core, s) (core', s')"
    by (rule crates.reachable_grows(1) [OF crates.intro [OF assms(1)] assms(2,3)])
  then show ?thesis by (simp add: grows_def)
qed

theorem chain_append_only_witness:
  "(\<exists>rest. transactions_chain second_anchored = transactions_chain sample_anchored @ rest) \<and>
   spent_funding_transactions sample_anchored \<subseteq>\<^sub>m spent_funding_transactions second_anchored"
  by (rule chain_append_only [OF ref_crate_laws sample_run(3)]) (rule r_into_rtranclp, rule sample_steps)

text \<open>
  C7. A funding transaction is spent once: once it is recorded as spent, an anchoring transaction
  of the chain spends it, it is never again the unspent funding transaction, and \<open>add_funds\<close> never
  accepts a transaction with its id, at any later time.
\<close>

theorem funding_spent_once:
  assumes "crate_laws E" and "reachable E from_bytes core s"
    and "spent_funding_transactions s k = Some f"
    and "(service_step E)\<^sup>*\<^sup>* (core, s) (core', s')"
  shows "(\<exists>tx \<in> set (transactions_chain s). k \<in> spent_txids tx) \<and>
    \<not> (\<exists>g. unspent_funding_entry s' = Some g \<and> tx_id E g = k) \<and>
    \<not> (\<exists>ctx arg s''. add_funds E ctx s' arg = Ok s'' \<and> tx_id E (af_transaction arg) = k)"
proof -
  have "grows (core, s) (core', s')" and r': "reachable E from_bytes core' s'"
    by (rule crates.reachable_grows [OF crates.intro [OF assms(1)] assms(2,4)])+
  then have spent: "spent_funding_transactions s' k = Some f"
    using assms(3) by (auto simp: grows_def map_le_def dom_def)
  obtain c where inv: "schema_inv E core' s'" and c: "actual_config_entry s' = Some c"
    by (rule reachable_stateE [OF assms(1) r'])
  have "schema_inv E core s" by (rule reachable_stateE [OF assms(1,2)])
  then have "\<exists>tx \<in> set (transactions_chain s). k \<in> spent_txids tx"
    using assms(3) by (simp add: schema_inv_def funding_ok_def)
  moreover have "\<not> (\<exists>g. unspent_funding_entry s' = Some g \<and> tx_id E g = k)"
    using inv spent by (auto simp: schema_inv_def funding_ok_def)
  moreover have "add_funds E ctx s' arg \<noteq> Ok s''" if "tx_id E (af_transaction arg) = k" for ctx arg s''
    using that spent by (auto elim!: add_funds_OkE [OF inv c])
  ultimately show ?thesis by blast
qed

theorem funding_spent_once_witness:
  "(\<exists>tx \<in> set (transactions_chain sample_anchored). tx_id (ref_env False) sample_fund \<in> spent_txids tx) \<and>
   \<not> (\<exists>ctx s''. add_funds (ref_env False) ctx second_anchored \<lparr>af_transaction = sample_fund\<rparr> = Ok s'')"
proof -
  have "spent_funding_transactions sample_anchored (tx_id (ref_env False) sample_fund) = Some sample_fund"
    by (simp add: sample_anchored_def solo_done_def pushed_def solo_signed_def sample_funded_simps)
  moreover have "(service_step (ref_env False))\<^sup>*\<^sup>* (sample_core, sample_anchored)
      (sample_core, second_anchored)"
    by (rule r_into_rtranclp) (rule sample_steps)
  ultimately show ?thesis
    using funding_spent_once [OF ref_crate_laws sample_run(3)] by fastforce
qed

section \<open>Funding and configuration\<close>

text \<open>
  C8. Funding needs a quorum: an executed \<open>add_funds\<close> comes from an anchoring node, for a
  transaction with an output to the actual address that has not been spent; it adds the node's
  confirmation, and makes the transaction the unspent funding transaction exactly when the
  confirmations of different nodes reach the quorum, clearing them so that they cannot be counted
  again. Nothing else changes.
\<close>

theorem add_funds_needs_quorum:
  assumes "crate_laws E" and "reachable E from_bytes core s" and "add_funds E ctx s arg = Ok s'"
  shows "\<exists>c author n pk m. actual_config_entry s = Some c \<and> caller_author ctx = Some author \<and>
    find_bitcoin_key c author = Some (n, pk) \<and>
    find_out (af_transaction arg) (out_script_of E c) \<noteq> None \<and>
    spent_funding_transactions s (tx_id E (af_transaction arg)) = None \<and>
    fst ` set m = insert pk (fst ` set (unwrap_or_default bmap_default
      (unconfirmed_funding_transactions s (tx_id E (af_transaction arg))))) \<and> distinct (map fst m) \<and>
    s' = (if length m = config_byzantine_quorum E c
      then s\<lparr>unspent_funding_entry := Some (af_transaction arg),
             unconfirmed_funding_transactions :=
               (unconfirmed_funding_transactions s)(tx_id E (af_transaction arg) \<mapsto> [])\<rparr>
      else s\<lparr>unconfirmed_funding_transactions :=
               (unconfirmed_funding_transactions s)(tx_id E (af_transaction arg) \<mapsto> m)\<rparr>)"
proof -
  obtain c where inv: "schema_inv E core s" and c: "actual_config_entry s = Some c"
    by (rule reachable_stateE [OF assms(1,2)])
  obtain author n pk m where a: "caller_author ctx = Some author"
      "find_bitcoin_key c author = Some (n, pk)"
      "find_out (af_transaction arg) (out_script_of E c) \<noteq> None"
      "spent_funding_transactions s (tx_id E (af_transaction arg)) = None"
    and m: "m = confirmations_with E s (af_transaction arg) pk"
    and s': "s' = (if bmap_len m = config_byzantine_quorum E c
       then s\<lparr>unconfirmed_funding_transactions :=
           (unconfirmed_funding_transactions s)(tx_id E (af_transaction arg) \<mapsto> bmap_default),
         unspent_funding_entry := Some (af_transaction arg)\<rparr>
       else s\<lparr>unconfirmed_funding_transactions :=
           (unconfirmed_funding_transactions s)(tx_id E (af_transaction arg) \<mapsto> m)\<rparr>)"
    by (rule add_funds_OkE [OF inv c assms(3)]) (rule that)
  have "distinct (map fst m)"
    unfolding m by (rule bmap_ordered_distinct) (rule confirmations_with_ordered [OF inv])
  moreover have "fst ` set m = insert pk (fst ` set (unwrap_or_default bmap_default
      (unconfirmed_funding_transactions s (tx_id E (af_transaction arg)))))"
    by (simp add: m confirmations_with_def keys_bmap_insert)
  ultimately show ?thesis
    using c a s' unfolding bmap_len_def bmap_default_def by (intro exI [of _ c] exI [of _ author]
        exI [of _ n] exI [of _ pk] exI [of _ m]) simp
qed

theorem add_funds_needs_quorum_witness:
  "\<exists>c. actual_config_entry sample_start = Some c \<and>
     find_out sample_fund (out_script_of (ref_env False) c) \<noteq> None"
  using add_funds_needs_quorum [OF ref_crate_laws sample_run(1) sample_add_funds] by auto

text \<open>
  C15. Who changes the configuration and how: only the supervisor can; a valid configuration with
  the actual address takes effect at once, and the chain still ends at its address; any other one
  becomes the following configuration and leaves the actual one in force. An invalid configuration
  is rejected before it is applied.
\<close>

theorem configure_effect:
  assumes "crate_laws E" and "reachable E from_bytes core s"
  shows "(\<not> caller_is_supervisor ctx \<longrightarrow>
      verify_config E ctx params = Err Common_UnauthorizedCaller \<and>
      apply_config E ctx s params = Err Common_UnauthorizedCaller) \<and>
    (verify_config E ctx params = Ok () \<longrightarrow> validate E params = Ok () \<and>
      (\<exists>c. actual_config_entry s = Some c \<and> valid_config E c \<and>
        apply_config E ctx s params =
         (if anchoring_address E c = (anchoring_address E params :: (_, execution_error) outcome)
          then Ok (s\<lparr>actual_config_entry := Some params\<rparr>)
          else Ok (s\<lparr>following_config_entry := Some params\<rparr>)) \<and>
        (anchoring_address E c = (anchoring_address E params :: (_, execution_error) outcome) \<longrightarrow>
          out_script_of E params = out_script_of E c)))"
proof -
  obtain c where c: "actual_config_entry s = Some c" and v: "valid_config E c"
    by (rule reachable_stateE [OF assms(1,2)])
  have p2: "p2wsh_laws E" using assms(1) by (simp add: crate_laws_def)
  have ok: "verify_config E ctx params = Ok () \<longleftrightarrow> caller_is_supervisor ctx \<and> valid_config E params"
    by (simp add: verify_config_def valid_config_def outcome_simps)
  have script: "out_script_of E params = out_script_of E c"
    if "p2wsh_address E (redeem_of E c) (network c) =
      p2wsh_address E (redeem_of E params) (network params)"
    using p2 that unfolding p2wsh_laws_def out_script_of_def by metis
  show ?thesis
  proof (cases "caller_is_supervisor ctx \<and> valid_config E params")
    case True
    then have vp: "valid_config E params" by simp
    have ac: "actual_config s = (Ok c :: (_, execution_error) outcome)" by (simp add: actual_config_def c)
    show ?thesis
      using True v c script
      by (simp add: apply_config_def ac valid_config_scripts [OF v] valid_config_scripts [OF vp])
        (simp add: valid_config_def)
  next
    case False
    then show ?thesis using ok by (auto simp: verify_config_def apply_config_def)
  qed
qed

theorem configure_effect_witness:
  "validate (ref_env False) (sample_config 2) = Ok () \<and>
   (\<exists>c. actual_config_entry sample_funded = Some c \<and> valid_config (ref_env False) c)"
proof -
  have "verify_config (ref_env False) sample_ctx (sample_config 2) = Ok ()"
    using moving_valid by (simp add: verify_config_def sample_ctx_def valid_config_def)
  then show ?thesis
    using configure_effect [OF ref_crate_laws sample_run(2), of sample_ctx "sample_config 2"] by blast
qed

end
