(* ===== verification/Api.thy ===== *)
theory Api
  imports Service_Properties
begin

text \<open>
  The HTTP API of the service, \<open>src/api.rs\<close>: the checks a node makes before it broadcasts a
  transaction, the state of the proposal it reports, the lookup of the transaction that anchors a
  given height, and the plain reads. A handler that broadcasts returns its result together with
  the transactions it handed to the broadcaster. The broadcaster and the Merkle proofs are
  functions of the \<open>exonum\<close> crates, hence arguments.
\<close>

section \<open>Data\<close>

datatype anchoring_proposal_state =
    Proposal_None
  | Proposal_Available transaction "transaction list"
  | Proposal_InsufficientFunds u64 u64 \<comment> \<open>total fee, balance\<close>
  | Proposal_NoInitialFunds

record anchoring_chain_length =
  chain_length_value :: u64

definition anchoring_chain_length_from :: "u64 \<Rightarrow> anchoring_chain_length" where
  "anchoring_chain_length_from v = \<lparr>chain_length_value = v\<rparr>"

text \<open>The reasons of the checks, in the order the code has them; they are the details of an error.\<close>

datatype verify_error =
    Proposal_Absent
  | Proposal_Failed builder_error
  | Missing_Input u32
  | Not_An_Anchoring_Node
  | Signature_Verification_Failed lib_error
  | Funding_Already_Used sha256d
  | Funding_Not_Suitable sha256d
  | Node_Is_Not_A_Validator

datatype api_error =
    Api_Bad_Request string verify_error \<comment> \<open>title, detail\<close>
  | Api_Internal_Builder builder_error
  | Api_Internal_Broadcast string lib_error \<comment> \<open>title, error\<close>

datatype broadcast_tx = Broadcast_Sign_Input sign_input_msg | Broadcast_Add_Funds add_funds_msg

type_synonym broadcaster_fn = "broadcast_tx \<Rightarrow> lib_error + hash"

text \<open>\<open>ServiceApiState\<close>: what the handlers ask of it.\<close>

record api_state =
  api_schema :: schema
  api_core :: core_schema
  api_service_key :: service_key
  api_broadcaster :: "broadcaster_fn option"

section \<open>Checks\<close>

definition try_from_proposal ::
  "((transaction \<times> transaction list) option, builder_error) outcome \<Rightarrow>
     (anchoring_proposal_state, api_error) outcome" where
  "try_from_proposal proposal =
     (case proposal of
        Ok None \<Rightarrow> Ok Proposal_None
      | Ok (Some (transaction, inputs)) \<Rightarrow> Ok (Proposal_Available transaction inputs)
      | Err (Builder_InsufficientFunds total_fee balance) \<Rightarrow>
          Ok (Proposal_InsufficientFunds total_fee balance)
      | Err Builder_NoInputs \<Rightarrow> Ok Proposal_NoInitialFunds
      | Err e \<Rightarrow> Err (Api_Internal_Builder e)
      | Panic p \<Rightarrow> Panic p)"

definition api_get_broadcaster :: "api_state \<Rightarrow> (broadcaster_fn, api_error) outcome" where
  "api_get_broadcaster a =
     ok_or (Api_Bad_Request ''Invalid broadcast request'' Node_Is_Not_A_Validator) (api_broadcaster a)"

definition api_actual_config :: "api_state \<Rightarrow> (config, 'e) outcome" where
  "api_actual_config a = actual_config (api_schema a)"

definition verify_sign_input ::
  "env \<Rightarrow> api_state \<Rightarrow> sign_input_msg \<Rightarrow> (unit, verify_error) outcome" where
  "verify_sign_input E a msg =
     (let s = api_schema a in
      bind_oc (map_err Proposal_Failed
          (actual_proposed_anchoring_transaction E (api_core a) s)) (\<lambda>r.
      bind_oc (ok_or Proposal_Absent r) (\<lambda>(proposal, inputs).
      bind_oc (ok_or (Missing_Input (si_input msg)) (get_nth inputs (unat (si_input msg)))) (\<lambda>input.
      bind_oc (actual_config s) (\<lambda>config.
      bind_oc (ok_or Not_An_Anchoring_Node (find_bitcoin_key config (api_service_key a)))
        (\<lambda>(_, bitcoin_key).
      bind_oc (config_redeem_script E config) (\<lambda>redeem_script.
      case verify_input E redeem_script (proposal, unat (si_input msg)) input bitcoin_key
          (si_input_signature msg) of
        None \<Rightarrow> Ok ()
      | Some e \<Rightarrow> Err (Signature_Verification_Failed e))))))))"

definition verify_funding_tx ::
  "env \<Rightarrow> api_state \<Rightarrow> transaction \<Rightarrow> (unit, verify_error) outcome" where
  "verify_funding_tx E a tx =
     (let txid = tx_id E tx; s = api_schema a in
      bind_oc (actual_config s) (\<lambda>config.
      if spent_funding_transactions s txid \<noteq> None then Err (Funding_Already_Used txid)
      else
        bind_oc (anchoring_out_script E config) (\<lambda>script.
        if find_out tx script = None then Err (Funding_Not_Suitable txid) else Ok ())))"

section \<open>Public API\<close>

definition api_actual_address :: "env \<Rightarrow> api_state \<Rightarrow> (address, api_error) outcome" where
  "api_actual_address E a = bind_oc (actual_config (api_schema a)) (\<lambda>config. anchoring_address E config)"

definition api_following_address :: "env \<Rightarrow> api_state \<Rightarrow> (address option, api_error) outcome" where
  "api_following_address E a =
     (case following_config (api_schema a) of
        None \<Rightarrow> Ok None
      | Some config \<Rightarrow> map_ok Some (anchoring_address E config))"

definition api_config :: "api_state \<Rightarrow> (config, api_error) outcome" where
  "api_config a = api_actual_config a"

datatype ordering = Less | Equal | Greater

definition compare_heights :: "u64 \<Rightarrow> u64 \<Rightarrow> ordering" where
  "compare_heights a b = (if a < b then Less else if a = b then Equal else Greater)"

text \<open>
  The loop of the handmade binary search; indexes are below the chain's length, which is a 64-bit
  number, so they are natural numbers here.
\<close>

function search_loop :: "(nat \<Rightarrow> (ordering, 'e) outcome) \<Rightarrow> nat \<Rightarrow> nat \<Rightarrow> (nat, 'e) outcome" where
  "search_loop f base len =
     (if 1 < len then
        let half = len div 2; mid = base + half in
        bind_oc (f mid) (\<lambda>cmp.
        search_loop f (if cmp = Greater then base else mid) (len - half))
      else Ok base)"
  by pat_completeness auto

termination
  by (relation "measure (\<lambda>(f, base, len). len)") auto

declare search_loop.simps [simp del]

definition compare_at :: "env \<Rightarrow> transaction list \<Rightarrow> u64 \<Rightarrow> nat \<Rightarrow> (ordering, 'e) outcome" where
  "compare_at E tx_chain height index =
     bind_oc (unwrap_or_panic Unwrap_None (get_nth tx_chain index)) (\<lambda>tx.
     bind_oc (anchoring_payload E tx) (\<lambda>p.
     bind_oc (unwrap_or_panic Unwrap_None p) (\<lambda>payload.
     Ok (compare_heights (block_height payload) height))))"

definition find_transaction_index ::
  "env \<Rightarrow> transaction list \<Rightarrow> u64 option \<Rightarrow> (nat, 'e) outcome" where
  "find_transaction_index E tx_chain height =
     (case height of
        None \<Rightarrow> Ok (length tx_chain - 1)
      | Some height \<Rightarrow>
          bind_oc (search_loop (compare_at E tx_chain height) 0 (length tx_chain)) (\<lambda>base.
          bind_oc (compare_at E tx_chain height base) (\<lambda>cmp.
          if cmp = Equal then Ok base
          else Ok (min (base + (if cmp = Less then 1 else 0)) (length tx_chain - 1)))))"

record ('ip, 'lp) transaction_proof =
  index_proof :: 'ip
  list_proof :: 'lp

definition api_transaction_proof ::
  "(string \<Rightarrow> 'ip option) \<Rightarrow> (transaction list \<Rightarrow> nat \<Rightarrow> 'lp) \<Rightarrow> api_state \<Rightarrow> nat \<Rightarrow>
     (('ip, 'lp) transaction_proof, 'e) outcome" where
  "api_transaction_proof proof_for_service_index get_proof a tx_index =
     bind_oc (unwrap_or_panic Unwrap_None (proof_for_service_index ''transactions_chain'')) (\<lambda>ip.
     Ok \<lparr>index_proof = ip, list_proof = get_proof (transactions_chain (api_schema a)) tx_index\<rparr>)"

definition find_transaction ::
  "env \<Rightarrow> (string \<Rightarrow> 'ip option) \<Rightarrow> (transaction list \<Rightarrow> nat \<Rightarrow> 'lp) \<Rightarrow> api_state \<Rightarrow> u64 option \<Rightarrow>
     (('ip, 'lp) transaction_proof, api_error) outcome" where
  "find_transaction E proof_for_service_index get_proof a height =
     (let tx_chain = transactions_chain (api_schema a) in
      if tx_chain = [] then api_transaction_proof proof_for_service_index get_proof a 0
      else
        bind_oc (find_transaction_index E tx_chain height) (\<lambda>tx_index.
        api_transaction_proof proof_for_service_index get_proof a tx_index))"

section \<open>Private API\<close>

definition broadcast ::
  "string \<Rightarrow> api_state \<Rightarrow> broadcast_tx \<Rightarrow> (hash, api_error) outcome \<times> broadcast_tx list" where
  "broadcast title a tx =
     (case api_get_broadcaster a of
        Ok b \<Rightarrow> (map_err (Api_Internal_Broadcast title) (of_sum (b tx)), [tx])
      | Err e \<Rightarrow> (Err e, [])
      | Panic p \<Rightarrow> (Panic p, []))"

definition api_sign_input ::
  "env \<Rightarrow> api_state \<Rightarrow> sign_input_msg \<Rightarrow> (hash, api_error) outcome \<times> broadcast_tx list" where
  "api_sign_input E a msg =
     (case verify_sign_input E a msg of
        Ok _ \<Rightarrow> broadcast ''Sign input request failed'' a (Broadcast_Sign_Input msg)
      | Err e \<Rightarrow>
          (Err (Api_Bad_Request ''Sign input request verification has failed'' e), [])
      | Panic p \<Rightarrow> (Panic p, []))"

definition api_add_funds ::
  "env \<Rightarrow> api_state \<Rightarrow> transaction \<Rightarrow> (hash, api_error) outcome \<times> broadcast_tx list" where
  "api_add_funds E a tx =
     (case verify_funding_tx E a tx of
        Ok _ \<Rightarrow> broadcast ''Add funds request failed'' a (Broadcast_Add_Funds \<lparr>af_transaction = tx\<rparr>)
      | Err e \<Rightarrow> (Err (Api_Bad_Request ''Funding tx verification has failed'' e), [])
      | Panic p \<Rightarrow> (Panic p, []))"

definition api_anchoring_proposal ::
  "env \<Rightarrow> api_state \<Rightarrow> (anchoring_proposal_state, api_error) outcome" where
  "api_anchoring_proposal E a =
     try_from_proposal (actual_proposed_anchoring_transaction E (api_core a) (api_schema a))"

definition api_transaction_with_index :: "api_state \<Rightarrow> u64 \<Rightarrow> (transaction option, api_error) outcome" where
  "api_transaction_with_index a index = Ok (get_nth (transactions_chain (api_schema a)) (unat index))"

definition api_transactions_count :: "api_state \<Rightarrow> (anchoring_chain_length, api_error) outcome" where
  "api_transactions_count a =
     Ok (anchoring_chain_length_from (of_nat (length (transactions_chain (api_schema a)))))"

section \<open>The binary search\<close>

text \<open>
  On heights in ascending order the loop ends at the last index whose height does not exceed the
  one looked for, or at zero when there is none.
\<close>

lemma search_loop_spec:
  assumes f: "\<And>i. i < n \<Longrightarrow> f i = Ok (compare_heights (g i) h)"
    and mono: "\<And>i j. i \<le> j \<Longrightarrow> j < n \<Longrightarrow> g i \<le> g j"
    and "1 \<le> len" "base + len \<le> n" "base = 0 \<or> g base \<le> h"
    and "\<And>j. base + len \<le> j \<Longrightarrow> j < n \<Longrightarrow> h < g j"
  shows "\<exists>b. search_loop f base len = Ok b \<and> b < n \<and> (b = 0 \<or> g b \<le> h) \<and>
    (\<forall>j. b < j \<and> j < n \<longrightarrow> h < g j)"
  using assms(3-)
proof (induction len arbitrary: base rule: less_induct)
  case (less len)
  show ?case
  proof (cases "1 < len")
    case False
    with less.prems show ?thesis by (auto simp: search_loop.simps)
  next
    case True
    let ?half = "len div 2" and ?mid = "base + len div 2"
    have mid: "?mid < n" "base \<le> ?mid" using True less.prems(2) by auto
    have size: "len - ?half < len" "1 \<le> len - ?half" "?half \<le> len - ?half" using True by auto
    show ?thesis
    proof (cases "h < g ?mid")
      case gt: True
      have "h < g j" if "base + (len - ?half) \<le> j" "j < n" for j
        using gt mono [of ?mid j] that size(3) by (meson add_le_cancel_left le_trans less_le_trans)
      then have "\<exists>b. search_loop f base (len - ?half) = Ok b \<and> b < n \<and> (b = 0 \<or> g b \<le> h) \<and>
          (\<forall>j. b < j \<and> j < n \<longrightarrow> h < g j)"
        using less.prems size by (intro less.IH) auto
      moreover have "compare_heights (g ?mid) h = Greater" using gt by (auto simp: compare_heights_def)
      ultimately show ?thesis
        using True f [OF mid(1)] by (simp add: search_loop.simps [of f base len] Let_def)
    next
      case False
      then have "\<exists>b. search_loop f ?mid (len - ?half) = Ok b \<and> b < n \<and> (b = 0 \<or> g b \<le> h) \<and>
          (\<forall>j. b < j \<and> j < n \<longrightarrow> h < g j)"
        using less.prems size by (intro less.IH) (auto simp: not_less)
      moreover have "compare_heights (g ?mid) h \<noteq> Greater" using False by (auto simp: compare_heights_def)
      ultimately show ?thesis
        using True f [OF mid(1)] by (simp add: search_loop.simps [of f base len] Let_def)
    qed
  qed
qed

lemma chain_heights_mono:
  assumes "chain_ok E core s" "i \<le> j" "j < length (transactions_chain s)"
  shows "block_height (anchored E (transactions_chain s ! i)) \<le>
    block_height (anchored E (transactions_chain s ! j))"
  using assms(2,3)
proof (induction j)
  case 0
  then show ?case by simp
next
  case (Suc j)
  have "chain_link E (transactions_chain s ! j) (transactions_chain s ! Suc j)"
    using assms(1) Suc.prems(2) by (simp add: chain_ok_def successively_conv_nth)
  then have "block_height (anchored E (transactions_chain s ! j)) \<le>
      block_height (anchored E (transactions_chain s ! Suc j))" by (simp add: chain_link_def)
  with Suc show ?case by (cases "i = Suc j") (auto intro: order_trans)
qed

lemma chain_payload:
  assumes "hash_laws E" "chain_ok E core s" "i < length (transactions_chain s)"
  shows "anchoring_payload E (transactions_chain s ! i) = Ok (Some (anchored E (transactions_chain s ! i)))"
proof -
  have "anchors_block E core (transactions_chain s ! i)"
    using assms(2,3) by (simp add: chain_ok_def)
  then show ?thesis
    by (auto simp: anchors_block_def anchored_def anchoring_payload_eq [OF assms(1)] tx_metadata_def)
qed

lemma find_transaction_index_spec:
  assumes f: "\<And>i. i < n \<Longrightarrow> compare_at E chain h i = (Ok (compare_heights (g i) h) :: (_, 'e) outcome)"
    and mono: "\<And>i j. i \<le> j \<Longrightarrow> j < n \<Longrightarrow> g i \<le> g j" and n: "n = length chain" "0 < n"
  shows "\<exists>r. find_transaction_index E chain (Some h) = (Ok r :: (_, 'e) outcome) \<and> r < n \<and>
    (if \<exists>i < n. h \<le> g i then h \<le> g r \<and> (\<forall>i < n. h \<le> g i \<longrightarrow> g r \<le> g i) else r = n - 1)"
proof -
  have "\<exists>b. search_loop (compare_at E chain h) 0 n = (Ok b :: (_, 'e) outcome) \<and> b < n \<and>
      (b = 0 \<or> g b \<le> h) \<and> (\<forall>j. b < j \<and> j < n \<longrightarrow> h < g j)"
    by (rule search_loop_spec [OF f mono]) (use n(2) in auto)
  then obtain b where b: "search_loop (compare_at E chain h) 0 n = (Ok b :: (_, 'e) outcome)" "b < n"
      "b = 0 \<or> g b \<le> h" and above: "\<And>j. b < j \<Longrightarrow> j < n \<Longrightarrow> h < g j"
    by blast
  have below: "g i \<le> g b" if "i \<le> b" for i using mono that b(2) by simp
  let ?r = "if g b < h then min (b + 1) (n - 1) else b"
  have "find_transaction_index E chain (Some h) = (Ok ?r :: (_, 'e) outcome)"
    using b(1,2) f [OF b(2)] by (auto simp: find_transaction_index_def n(1) [symmetric] compare_heights_def)
  moreover have "?r < n" using b(2) by auto
  moreover have "if \<exists>i < n. h \<le> g i then h \<le> g ?r \<and> (\<forall>i < n. h \<le> g i \<longrightarrow> g ?r \<le> g i)
      else ?r = n - 1"
  proof (cases "g b < h")
    case True
    have late: "Suc b \<le> i" if "i < n" "h \<le> g i" for i
    proof (rule ccontr)
      assume "\<not> Suc b \<le> i"
      then have "g i \<le> g b" using below by simp
      with that True show False by simp
    qed
    show ?thesis
    proof (cases "Suc b < n")
      case suc: True
      then have "?r = Suc b" using True by simp
      moreover have "h \<le> g (Suc b)" using above [of "Suc b"] suc by simp
      moreover have "g (Suc b) \<le> g i" if "i < n" "h \<le> g i" for i
        using late [OF that] that(1) by (rule mono)
      ultimately show ?thesis using suc by auto
    next
      case False
      with late True b(2) show ?thesis by fastforce
    qed
  next
    case False
    then have "h \<le> g b" by simp
    moreover have "g b \<le> g i" if "i < n" "h \<le> g i" for i
      using that b(3) False mono [of 0 i] above [of i] below [of i] by (cases "b = 0") auto
    ultimately show ?thesis using b(2) False by auto
  qed
  ultimately show ?thesis by blast
qed

section \<open>Properties\<close>

text \<open>
  C26. The lookup by height finds the right transaction: in a reachable state with a chain, the
  binary search ends without a panic and returns an index of the chain; when some anchoring
  transaction has the given height or a greater one, the transaction found is one with the least
  such height. When there is none, the last transaction is returned, although its height is lower
  than the given one.
\<close>

theorem find_transaction_correct:
  assumes "crate_laws E" and "reachable E from_bytes core (api_schema a)"
    and "transactions_chain (api_schema a) \<noteq> []"
  shows "\<exists>r H. r < length (transactions_chain (api_schema a)) \<and>
    (\<forall>i < length (transactions_chain (api_schema a)). \<exists>p. block_height p = H i \<and>
      anchoring_payload E (transactions_chain (api_schema a) ! i) = (Ok (Some p) :: (_, 'e) outcome)) \<and>
    find_transaction E ip lp a (Some h) = api_transaction_proof ip lp a r \<and>
    (if \<exists>i < length (transactions_chain (api_schema a)). h \<le> H i
     then h \<le> H r \<and> (\<forall>i < length (transactions_chain (api_schema a)). h \<le> H i \<longrightarrow> H r \<le> H i)
     else r = length (transactions_chain (api_schema a)) - 1)"
proof -
  let ?chain = "transactions_chain (api_schema a)"
  let ?H = "\<lambda>i. block_height (anchored E (?chain ! i))"
  have hl: "hash_laws E" using assms(1) by (simp add: crate_laws_def)
  have chain: "chain_ok E core (api_schema a)"
    by (rule reachable_stateE [OF assms(1,2)]) (simp add: schema_inv_def)
  have "compare_at E ?chain h i = (Ok (compare_heights (?H i) h) :: (_, api_error) outcome)"
    if "i < length ?chain" for i
    using that by (simp add: compare_at_def get_nth_def chain_payload [OF hl chain])
  from find_transaction_index_spec [OF this chain_heights_mono [OF chain] refl] assms(3)
  obtain r where r: "find_transaction_index E ?chain (Some h) = (Ok r :: (_, api_error) outcome)"
      "r < length ?chain"
    and least: "if \<exists>i < length ?chain. h \<le> ?H i
      then h \<le> ?H r \<and> (\<forall>i < length ?chain. h \<le> ?H i \<longrightarrow> ?H r \<le> ?H i) else r = length ?chain - 1"
    by auto
  have "find_transaction E ip lp a (Some h) = api_transaction_proof ip lp a r"
    using assms(3) r(1) by (simp add: find_transaction_def)
  with r(2) least chain_payload [OF hl chain] show ?thesis
    by (intro exI [of _ r] exI [of _ ?H]) blast
qed

definition sample_api :: api_state where
  "sample_api = \<lparr>api_schema = second_anchored, api_core = sample_core,
     api_service_key = Service_Key 0, api_broadcaster = None\<rparr>"

theorem find_transaction_correct_witness:
  "\<exists>r. r < 2 \<and> find_transaction (ref_env False) (\<lambda>_. Some ()) (\<lambda>_ i. i) sample_api (Some 3) =
     Ok \<lparr>index_proof = (), list_proof = r\<rparr>"
  using find_transaction_correct [of "ref_env False" sample_decoder sample_core sample_api
      "\<lambda>_. Some ()" "\<lambda>_ i. i" 3, where ?'e = unit] sample_run(4)
  by (auto simp: sample_api_def second_chain api_transaction_proof_def)

text \<open>
  C27. The check before broadcasting a signature agrees with the service: for a message about the
  current proposal, the node's \<open>verify_sign_input\<close> reports an error exactly when the service, in the
  same state and with this node as the author, would reject the transaction with an error.
\<close>

theorem verify_sign_input_agrees:
  assumes "crate_laws E" and "reachable E from_bytes (api_core a) (api_schema a)"
    and "for_core ctx = api_core a" and "caller_author ctx = Some (api_service_key a)"
    and "actual_proposed_anchoring_transaction E (api_core a) (api_schema a) =
      Ok (Some (proposal, inputs))"
    and "si_txid msg = tx_id E proposal"
  shows "(\<exists>e. verify_sign_input E a msg = Err e) \<longleftrightarrow> (\<exists>e. sign_input E ctx (api_schema a) msg = Err e)"
proof -
  obtain c where inv: "schema_inv E (api_core a) (api_schema a)"
      "actual_config_entry (api_schema a) = Some c" and v: "valid_config E c"
    by (rule reachable_stateE [OF assms(1,2)])
  have redeem: "config_redeem_script E c = (Ok (redeem_of E c) :: (_, verify_error) outcome)"
    by (rule valid_config_scripts [OF v])
  have ac: "actual_config (api_schema a) = (Ok c :: (_, verify_error) outcome)"
    by (simp add: actual_config_def inv(2))
  show ?thesis
    using use_signature_not_Err [of E] assms(1)
    by (auto simp: crate_laws_def sign_input_eq [OF inv assms(3)] verify_sign_input_def Let_def assms(4-6) ac redeem
        get_nth_def split: option.split)
qed

definition funded_api :: api_state where
  "funded_api = \<lparr>api_schema = sample_funded, api_core = sample_core,
     api_service_key = Service_Key 0, api_broadcaster = None\<rparr>"

lemma funded_api_simps [simp]:
  "api_schema funded_api = sample_funded" "api_core funded_api = sample_core"
  "api_service_key funded_api = Service_Key 0"
  by (simp_all add: funded_api_def)

theorem verify_sign_input_agrees_witness:
  "\<not> (\<exists>e. verify_sign_input (ref_env False) funded_api (solo_msg sample_proposal) = Err e)"
  using verify_sign_input_agrees [of "ref_env False" sample_decoder funded_api sample_ctx
      sample_proposal "[sample_fund]" "solo_msg sample_proposal"] sample_run(2) sample_proposed sample_sign
  by (simp add: sample_ctx_def solo_msg_def)

text \<open>
  C28. The check before broadcasting a funding transaction agrees with the service: an anchoring
  node's \<open>verify_funding_tx\<close> accepts a transaction exactly when \<open>add_funds\<close> from this node succeeds
  in the same state.
\<close>

theorem verify_funding_tx_agrees:
  assumes "crate_laws E" and "reachable E from_bytes (api_core a) (api_schema a)"
    and "caller_author ctx = Some (api_service_key a)"
    and "actual_config_entry (api_schema a) = Some c"
    and "find_bitcoin_key c (api_service_key a) \<noteq> None"
  shows "verify_funding_tx E a tx = Ok () \<longleftrightarrow>
    (\<exists>s'. add_funds E ctx (api_schema a) \<lparr>af_transaction = tx\<rparr> = Ok s')"
proof -
  obtain inv: "schema_inv E (api_core a) (api_schema a)" and v: "valid_config E c"
    by (rule reachable_stateE [OF assms(1,2)]) (simp add: assms(4))
  have script: "anchoring_out_script E c = (Ok (out_script_of E c) :: (_, verify_error) outcome)"
    by (rule valid_config_scripts [OF v])
  have ac: "actual_config (api_schema a) = (Ok c :: (_, verify_error) outcome)"
    by (simp add: actual_config_def assms(4))
  show ?thesis
    using assms(5)
    by (auto simp: add_funds_eq [OF inv assms(4)] verify_funding_tx_def Let_def assms(3) ac script)
qed

theorem verify_funding_tx_agrees_witness:
  "verify_funding_tx (ref_env False) (funded_api\<lparr>api_schema := sample_start\<rparr>) sample_fund = Ok ()"
proof -
  have start: "actual_config_entry sample_start = Some solo_config" by (simp add: sample_start_def)
  show ?thesis
    using verify_funding_tx_agrees [of "ref_env False" sample_decoder
        "funded_api\<lparr>api_schema := sample_start\<rparr>" sample_ctx solo_config sample_fund]
      sample_run(1) sample_add_funds start sample_key
    by (simp add: sample_ctx_def)
qed

text \<open>
  C29. The reported proposal state is complete: in a reachable state of a release build the endpoint
  never answers with an internal error and never panics. It reports that the initial funds are
  missing exactly when there is neither a chain nor a funding transaction, an available proposal
  exactly when the service has one, and insufficient funds, with a fee above the balance, exactly
  when the computation of the proposal fails with this error. So a lack of satoshis is answered
  with a state, not with an error, contrary to the documentation of the endpoint.
\<close>

theorem anchoring_proposal_complete:
  assumes "crate_laws E" and "reachable E from_bytes (api_core a) (api_schema a)" and "\<not> debug_build E"
  shows "\<exists>st. api_anchoring_proposal E a = Ok st \<and>
    (st = Proposal_NoInitialFunds \<longleftrightarrow>
       transactions_chain (api_schema a) = [] \<and> unspent_funding_entry (api_schema a) = None) \<and>
    (\<forall>tx inputs. st = Proposal_Available tx inputs \<longleftrightarrow>
       actual_proposed_anchoring_transaction E (api_core a) (api_schema a) = Ok (Some (tx, inputs))) \<and>
    (\<forall>fee balance. st = Proposal_InsufficientFunds fee balance \<longleftrightarrow>
       actual_proposed_anchoring_transaction E (api_core a) (api_schema a) =
         Err (Builder_InsufficientFunds fee balance)) \<and>
    (\<forall>fee balance. st = Proposal_InsufficientFunds fee balance \<longrightarrow> balance < fee)"
proof -
  let ?r = "actual_proposed_anchoring_transaction E (api_core a) (api_schema a)"
  obtain c where inv: "core_laws (api_core a)" "schema_inv E (api_core a) (api_schema a)"
      "actual_config_entry (api_schema a) = Some c"
    by (rule reachable_stateE [OF assms(1,2)])
  note facts = proposal_result [OF assms(1) inv assms(3)]
  show ?thesis
    using facts by (auto simp: api_anchoring_proposal_def try_from_proposal_def
        split: outcome.splits option.splits builder_error.splits)
qed

theorem anchoring_proposal_complete_witness:
  "\<exists>st. api_anchoring_proposal (ref_env False) funded_api = Ok st \<and>
     st = Proposal_Available sample_proposal [sample_fund]"
  using anchoring_proposal_complete [of "ref_env False" sample_decoder funded_api] sample_run(2)
    sample_proposed by auto

end
