(* ===== verification/Bitcoin_Relay.thy ===== *)
theory Bitcoin_Relay
  imports Api
begin

text \<open>
  Calls to other processes, and the relay to the Bitcoin network, \<open>src/sync/bitcoin_relay.rs\<close>. A
  call changes the world outside the task and returns a result, so it is a function of a world
  \<open>'w\<close>; asynchronous code that awaits one call after the other is a sequence of such functions.
  A Rust trait is a record of its methods, and what an implementation promises is a locale.
\<close>

section \<open>Sequences of calls\<close>

type_synonym ('w, 'a, 'e) io = "'w \<Rightarrow> ('a, 'e) outcome \<times> 'w"

definition lift_io :: "('a, 'e) outcome \<Rightarrow> ('w, 'a, 'e) io" where
  "lift_io m w = (m, w)"

definition bind_io :: "('w, 'a, 'e) io \<Rightarrow> ('a \<Rightarrow> ('w, 'b, 'e) io) \<Rightarrow> ('w, 'b, 'e) io" where
  "bind_io m f w =
     (case m w of
        (Ok x, w') \<Rightarrow> f x w'
      | (Err e, w') \<Rightarrow> (Err e, w')
      | (Panic p, w') \<Rightarrow> (Panic p, w'))"

text \<open>\<open>call(..).await.map_err(f)?\<close> for a call that returns a \<open>Result\<close>.\<close>

definition await :: "('c \<Rightarrow> 'e) \<Rightarrow> ('w \<Rightarrow> ('c + 'a) \<times> 'w) \<Rightarrow> ('w, 'a, 'e) io" where
  "await f op w =
     (case op w of
        (Inl c, w') \<Rightarrow> (Err (f c), w')
      | (Inr x, w') \<Rightarrow> (Ok x, w'))"

named_theorems io_simps \<open>evaluation of sequences of calls\<close>

lemma bind_io_simps [io_simps]:
  "m w = (Ok x, w') \<Longrightarrow> bind_io m f w = f x w'"
  "m w = (Err e, w') \<Longrightarrow> bind_io m f w = (Err e, w')"
  "m w = (Panic p, w') \<Longrightarrow> bind_io m f w = (Panic p, w')"
  by (simp_all add: bind_io_def)

lemma await_simps [io_simps]:
  "op w = (Inr x, w') \<Longrightarrow> await f op w = (Ok x, w')"
  "op w = (Inl c, w') \<Longrightarrow> await f op w = (Err (f c), w')"
  by (simp_all add: await_def)

lemma lift_io_simps [io_simps]: "lift_io m w = (m, w)"
  by (simp add: lift_io_def)

section \<open>TransactionStatus\<close>

datatype transaction_status = Unknown | Mempool | Committed u32

definition is_known :: "transaction_status \<Rightarrow> bool" where
  "is_known st \<longleftrightarrow> st \<noteq> Unknown"

definition confirmations :: "transaction_status \<Rightarrow> u32 option" where
  "confirmations st = (case st of Committed n \<Rightarrow> Some n | _ \<Rightarrow> None)"

section \<open>BitcoinRelay\<close>

record ('w, 'r) bitcoin_relay =
  send_transaction :: "transaction \<Rightarrow> 'w \<Rightarrow> ('r + sha256d) \<times> 'w"
  relay_transaction_status :: "sha256d \<Rightarrow> 'w \<Rightarrow> ('r + transaction_status) \<times> 'w"

text \<open>
  The implementation on top of a Bitcoin Core client. The client's methods are functions of
  another crate: \<open>send_raw_transaction\<close> takes the transaction in hexadecimal, and
  \<open>get_raw_transaction_verbose\<close> returns the number of confirmations; an error that the node itself
  reports is told apart from a failure to reach it.
\<close>

datatype rpc_error = JsonRpc_Rpc lib_error | Rpc_Other lib_error

record 'w rpc_client =
  send_raw_transaction :: "string \<Rightarrow> 'w \<Rightarrow> (rpc_error + sha256d) \<times> 'w"
  get_raw_transaction_verbose :: "sha256d \<Rightarrow> 'w \<Rightarrow> (rpc_error + u32 option) \<times> 'w"

definition rpc_send_transaction ::
  "(transaction \<Rightarrow> string) \<Rightarrow> 'w rpc_client \<Rightarrow> transaction \<Rightarrow> 'w \<Rightarrow> (rpc_error + sha256d) \<times> 'w" where
  "rpc_send_transaction tx_to_string rpc tx w = send_raw_transaction rpc (tx_to_string tx) w"

definition rpc_transaction_status ::
  "'w rpc_client \<Rightarrow> sha256d \<Rightarrow> 'w \<Rightarrow> (rpc_error + transaction_status) \<times> 'w" where
  "rpc_transaction_status rpc txid w =
     (case get_raw_transaction_verbose rpc txid w of
        (Inr None, w') \<Rightarrow> (Inr Mempool, w')
      | (Inr (Some num), w') \<Rightarrow> (Inr (Committed num), w')
      | (Inl (JsonRpc_Rpc e), w') \<Rightarrow> (Inr Unknown, w')
      | (Inl e, w') \<Rightarrow> (Inl e, w'))"

definition rpc_relay ::
  "(transaction \<Rightarrow> string) \<Rightarrow> 'w rpc_client \<Rightarrow> ('w, rpc_error) bitcoin_relay" where
  "rpc_relay tx_to_string rpc = \<lparr>send_transaction = rpc_send_transaction tx_to_string rpc,
     relay_transaction_status = rpc_transaction_status rpc\<rparr>"

section \<open>The contract of a relay\<close>

text \<open>A status request answers with the network's view of the transaction and changes nothing.\<close>

locale status_relay =
  fixes relay :: "('w, 'r) bitcoin_relay" and status :: "'w \<Rightarrow> sha256d \<Rightarrow> transaction_status"
  assumes status_answer: "relay_transaction_status relay txid w = (Inr (status w txid), w)"

text \<open>
  The contract of a Bitcoin node that can be reached: a transaction that it does not know is an
  error it reports, any other has the confirmations it has seen.
\<close>

locale bitcoin_node =
  fixes rpc :: "'w rpc_client" and seen :: "'w \<Rightarrow> sha256d \<Rightarrow> u32 option option"
  assumes verbose_known: "seen w txid = Some c \<Longrightarrow> get_raw_transaction_verbose rpc txid w = (Inr c, w)"
    and verbose_unknown: "seen w txid = None \<Longrightarrow>
      \<exists>e. get_raw_transaction_verbose rpc txid w = (Inl (JsonRpc_Rpc e), w)"

definition status_of_seen :: "('w \<Rightarrow> sha256d \<Rightarrow> u32 option option) \<Rightarrow> 'w \<Rightarrow> sha256d \<Rightarrow> transaction_status" where
  "status_of_seen seen w txid =
     (case seen w txid of
        None \<Rightarrow> Unknown
      | Some None \<Rightarrow> Mempool
      | Some (Some n) \<Rightarrow> Committed n)"

sublocale bitcoin_node \<subseteq> node_relay: status_relay "rpc_relay to_str rpc" "status_of_seen seen" for to_str
proof
  show "relay_transaction_status (rpc_relay to_str rpc) txid w = (Inr (status_of_seen seen w txid), w)"
    for txid w
  proof (cases "seen w txid")
    case None
    then show ?thesis
      using verbose_unknown [OF None]
      by (auto simp: rpc_relay_def rpc_transaction_status_def status_of_seen_def)
  next
    case (Some c)
    then show ?thesis
      using verbose_known [OF Some]
      by (simp add: rpc_relay_def rpc_transaction_status_def status_of_seen_def split: option.split)
  qed
qed

end
