(* ===== verification/Sync.thy ===== *)
theory Sync
  imports Bitcoin_Relay
begin

text \<open>
  The two tasks that run beside a node, \<open>src/sync/mod.rs\<close>: \<open>AnchoringChainUpdateTask\<close> signs the
  current proposal with the node's Bitcoin key, and \<open>SyncWithBitcoinTask\<close> sends the transactions of
  the anchoring chain to the Bitcoin network, in order. Both talk to the node through the trait
  \<open>PrivateApi\<close> of \<open>src/api.rs\<close>.
\<close>

section \<open>PrivateApi\<close>

record ('w, 'c) private_api =
  pa_sign_input :: "sign_input_msg \<Rightarrow> 'w \<Rightarrow> ('c + hash) \<times> 'w"
  pa_add_funds :: "transaction \<Rightarrow> 'w \<Rightarrow> ('c + hash) \<times> 'w"
  pa_anchoring_proposal :: "'w \<Rightarrow> ('c + anchoring_proposal_state) \<times> 'w"
  pa_config :: "'w \<Rightarrow> ('c + config) \<times> 'w"
  pa_transaction_with_index :: "u64 \<Rightarrow> 'w \<Rightarrow> ('c + transaction option) \<times> 'w"
  pa_transactions_count :: "'w \<Rightarrow> ('c + anchoring_chain_length) \<times> 'w"

section \<open>AnchoringChainUpdateTask\<close>

datatype chain_internal_error = Incorrect_Proposal transaction | Signing_Failed lib_error

datatype 'c chain_update_error =
    Chain_Client 'c
  | Chain_InsufficientFunds u64 u64 \<comment> \<open>total fee, balance\<close>
  | Chain_NoInitialFunds
  | Chain_Internal chain_internal_error

record ('w, 'c) chain_update_task =
  key_pool :: "btc_public_key \<rightharpoonup> btc_private_key"
  update_client :: "('w, 'c) private_api"

definition chain_update_new ::
  "(btc_public_key \<times> btc_private_key) list \<Rightarrow> ('w, 'c) private_api \<Rightarrow> ('w, 'c) chain_update_task" where
  "chain_update_new keys api_client =
     \<lparr>key_pool = foldl (\<lambda>m (pk, sk). m(pk \<mapsto> sk)) Map.empty keys, update_client = api_client\<rparr>"

definition anchoring_config :: "('w, 'c) chain_update_task \<Rightarrow> 'w \<Rightarrow> ('c + config) \<times> 'w" where
  "anchoring_config T = pa_config (update_client T)"

fun find_private_key ::
  "('w, 'c) chain_update_task \<Rightarrow> btc_public_key list \<Rightarrow> (btc_public_key \<times> btc_private_key) option" where
  "find_private_key T [] = None"
| "find_private_key T (public_key # rest) =
     (case key_pool T public_key of
        Some private_key \<Rightarrow> Some (public_key, private_key)
      | None \<Rightarrow> find_private_key T rest)"

text \<open>The iterator over the inputs, collected into a \<open>Result\<close> of a vector.\<close>

fun sign_messages ::
  "env \<Rightarrow> redeem_script \<Rightarrow> btc_private_key \<Rightarrow> transaction \<Rightarrow> nat \<Rightarrow> transaction list \<Rightarrow>
     (sign_input_msg list, 'c chain_update_error) outcome" where
  "sign_messages E signer key proposal index [] = Ok []"
| "sign_messages E signer key proposal index (proposal_input # rest) =
     bind_oc (map_err (\<lambda>e. Chain_Internal (Signing_Failed e))
         (of_sum (sign_input_with E signer (proposal, index) proposal_input key))) (\<lambda>signature.
     bind_oc (sign_messages E signer key proposal (index + 1) rest) (\<lambda>msgs.
     Ok (\<lparr>si_txid = tx_id E proposal, si_input = of_nat index, si_input_signature = signature\<rparr>
         # msgs)))"

fun send_messages ::
  "('w, 'c) private_api \<Rightarrow> sign_input_msg list \<Rightarrow> ('w, unit, 'c chain_update_error) io" where
  "send_messages api [] = lift_io (Ok ())"
| "send_messages api (msg # rest) =
     bind_io (await Chain_Client (pa_sign_input api msg)) (\<lambda>_. send_messages api rest)"

definition handle_proposal ::
  "env \<Rightarrow> ('w, 'c) chain_update_task \<Rightarrow> config \<Rightarrow> transaction \<Rightarrow> transaction list \<Rightarrow>
     ('w, unit, 'c chain_update_error) io" where
  "handle_proposal E T config proposal inputs =
     (case find_private_key T (map bitcoin_key (anchoring_keys config)) of
        None \<Rightarrow> lift_io (Ok ())
      | Some keypair \<Rightarrow>
          bind_io (lift_io (config_redeem_script E config)) (\<lambda>redeem_script.
          bind_io (lift_io (anchoring_payload E proposal)) (\<lambda>payload.
          case payload of
            None \<Rightarrow> lift_io (Err (Chain_Internal (Incorrect_Proposal proposal)))
          | Some _ \<Rightarrow>
              bind_io (lift_io (sign_messages E redeem_script (snd keypair) proposal 0 inputs)) (\<lambda>msgs.
              send_messages (update_client T) msgs))))"

definition chain_update_process ::
  "env \<Rightarrow> ('w, 'c) chain_update_task \<Rightarrow> ('w, unit, 'c chain_update_error) io" where
  "chain_update_process E T =
     bind_io (await Chain_Client (pa_anchoring_proposal (update_client T))) (\<lambda>st.
     case st of
       Proposal_None \<Rightarrow> lift_io (Ok ())
     | Proposal_Available transaction inputs \<Rightarrow>
         bind_io (await Chain_Client (anchoring_config T)) (\<lambda>config.
         handle_proposal E T config transaction inputs)
     | Proposal_InsufficientFunds total_fee balance \<Rightarrow>
         lift_io (Err (Chain_InsufficientFunds total_fee balance))
     | Proposal_NoInitialFunds \<Rightarrow> lift_io (Err Chain_NoInitialFunds))"

section \<open>SyncWithBitcoinTask\<close>

datatype ('c, 'r) sync_error =
    Sync_Client 'c
  | Sync_Relay 'r
  | Sync_Internal u64 \<comment> \<open>the index absent in the anchoring chain\<close>
  | Sync_UnconfirmedFundingTransaction sha256d

record ('w, 'c, 'r) sync_task =
  btc_relay :: "('w, 'r) bitcoin_relay"
  sync_client :: "('w, 'c) private_api"

definition sync_new ::
  "('w, 'r) bitcoin_relay \<Rightarrow> ('w, 'c) private_api \<Rightarrow> ('w, 'c, 'r) sync_task" where
  "sync_new relay api_client = \<lparr>btc_relay = relay, sync_client = api_client\<rparr>"

definition get_transaction ::
  "('w, 'c, 'r) sync_task \<Rightarrow> u64 \<Rightarrow> ('w, transaction, ('c, 'r) sync_error) io" where
  "get_transaction T index =
     bind_io (await Sync_Client (pa_transaction_with_index (sync_client T) index)) (\<lambda>tx.
     lift_io (ok_or (Sync_Internal index) tx))"

definition sync_transaction_status ::
  "('w, 'c, 'r) sync_task \<Rightarrow> sha256d \<Rightarrow> ('w, transaction_status, ('c, 'r) sync_error) io" where
  "sync_transaction_status T txid =
     await Sync_Relay (relay_transaction_status (btc_relay T) txid)"

text \<open>The loop over the indexes from the last one down to one.\<close>

fun search_uncommitted ::
  "('w, 'c, 'r) sync_task \<Rightarrow> nat \<Rightarrow> ('w, (transaction \<times> u64) option, ('c, 'r) sync_error) io" where
  "search_uncommitted T 0 = lift_io (Ok None)"
| "search_uncommitted T (Suc k) =
     (let index = of_nat (Suc k) in
      bind_io (get_transaction T index) (\<lambda>transaction.
      bind_io (lift_io (prev_tx_id transaction)) (\<lambda>previous_tx_id.
      bind_io (sync_transaction_status T previous_tx_id) (\<lambda>status.
      if is_known status then lift_io (Ok (Some (transaction, index)))
      else search_uncommitted T k))))"

definition find_first_uncommitted_transaction ::
  "env \<Rightarrow> ('w, 'c, 'r) sync_task \<Rightarrow>
     ('w, (transaction \<times> u64) option, ('c, 'r) sync_error) io" where
  "find_first_uncommitted_transaction E T =
     bind_io (await Sync_Client (pa_transactions_count (sync_client T))) (\<lambda>count.
     if chain_length_value count = 0 then lift_io (Ok None)
     else
       bind_io (lift_io (sub_u64 (debug_build E) (chain_length_value count) 1)) (\<lambda>last_index.
       bind_io (get_transaction T last_index) (\<lambda>transaction.
       bind_io (sync_transaction_status T (tx_id E transaction)) (\<lambda>status.
       if is_known status then lift_io (Ok None)
       else
         bind_io (search_uncommitted T (unat last_index)) (\<lambda>found.
         case found of
           Some r \<Rightarrow> lift_io (Ok (Some r))
         | None \<Rightarrow>
             bind_io (get_transaction T 0) (\<lambda>transaction.
             bind_io (lift_io (prev_tx_id transaction)) (\<lambda>funding_id.
             bind_io (sync_transaction_status T funding_id) (\<lambda>status.
             if confirmations status = None
             then lift_io (Err (Sync_UnconfirmedFundingTransaction funding_id))
             else lift_io (Ok (Some (transaction, 0)))))))))))"

text \<open>The choice of the transaction to send; \<open>Inl\<close> is an early return.\<close>

definition choose_transaction ::
  "env \<Rightarrow> ('w, 'c, 'r) sync_task \<Rightarrow> u64 option \<Rightarrow>
     ('w, u64 option + u64 \<times> transaction, ('c, 'r) sync_error) io" where
  "choose_transaction E T latest_committed_tx_index =
     (case latest_committed_tx_index of
        Some index \<Rightarrow>
          bind_io (get_transaction T index) (\<lambda>transaction.
          bind_io (sync_transaction_status T (tx_id E transaction)) (\<lambda>status.
          if is_known status then
            bind_io (await Sync_Client (pa_transactions_count (sync_client T))) (\<lambda>chain_len.
            bind_io (lift_io (add_u64 (debug_build E) index 1)) (\<lambda>next_index.
            if next_index = chain_length_value chain_len then lift_io (Ok (Inl (Some index)))
            else
              bind_io (get_transaction T next_index) (\<lambda>transaction.
              lift_io (Ok (Inr (next_index, transaction))))))
          else lift_io (Ok (Inr (index, transaction)))))
      | None \<Rightarrow>
          bind_io (find_first_uncommitted_transaction E T) (\<lambda>r.
          case r of
            Some (transaction, index) \<Rightarrow> lift_io (Ok (Inr (index, transaction)))
          | None \<Rightarrow> lift_io (Ok (Inl None))))"

definition sync_process ::
  "env \<Rightarrow> ('w, 'c, 'r) sync_task \<Rightarrow> u64 option \<Rightarrow> ('w, u64 option, ('c, 'r) sync_error) io" where
  "sync_process E T latest_committed_tx_index =
     bind_io (choose_transaction E T latest_committed_tx_index) (\<lambda>r.
     case r of
       Inl result \<Rightarrow> lift_io (Ok result)
     | Inr (index, transaction) \<Rightarrow>
         bind_io (await Sync_Relay (send_transaction (btc_relay T) transaction)) (\<lambda>_.
         lift_io (Ok (Some index))))"

section \<open>The contract of the chain a client serves\<close>

text \<open>
  What the synchronisation relies on: the client reads a linked chain, the relay reports the
  network's view, and neither read changes the world.
\<close>

locale chain_client =
  fixes client :: "('w, 'c) private_api" and chain :: "'w \<Rightarrow> transaction list"
  assumes count_answer: "pa_transactions_count client w =
      (Inr \<lparr>chain_length_value = of_nat (length (chain w))\<rparr>, w)"
    and index_answer: "pa_transaction_with_index client i w = (Inr (get_nth (chain w) (unat i)), w)"

locale chain_sync = chain_client client chain + status_relay relay status
  for client :: "('w, 'c) private_api" and chain :: "'w \<Rightarrow> transaction list"
    and relay :: "('w, 'r) bitcoin_relay" and status :: "'w \<Rightarrow> sha256d \<Rightarrow> transaction_status"
begin

lemma get_transaction_eq:
  "get_transaction (sync_new relay client) i w =
     (ok_or (Sync_Internal i) (get_nth (chain w) (unat i)), w)"
  by (simp add: get_transaction_def sync_new_def index_answer io_simps)

lemma status_eq: "sync_transaction_status (sync_new relay client) txid w = (Ok (status w txid), w)"
  by (simp add: sync_transaction_status_def sync_new_def status_answer io_simps)

lemma count_eq:
  "await Sync_Client (pa_transactions_count (sync_client (sync_new relay client))) w =
     (Ok \<lparr>chain_length_value = of_nat (length (chain w))\<rparr>, w)"
  by (simp add: sync_new_def count_answer io_simps)

end

text \<open>
  A chain is linked when every transaction names its predecessor by its first input; the first
  one names a funding transaction.
\<close>

definition linked :: "env \<Rightarrow> transaction list \<Rightarrow> bool" where
  "linked E chain \<longleftrightarrow> length chain < 2 ^ 64 \<and>
     (\<forall>i. Suc i < length chain \<longrightarrow>
        prev_tx_id (chain ! Suc i) = (Ok (tx_id E (chain ! i)) :: (_, unit) outcome)) \<and>
     (chain \<noteq> [] \<longrightarrow> tx_input (chain ! 0) \<noteq> [])"

definition funding_txid :: "transaction list \<Rightarrow> sha256d" where
  "funding_txid chain = op_txid (previous_output (tx_input (chain ! 0) ! 0))"

lemma linked_prev:
  assumes "linked E chain"
  shows "Suc i < length chain \<Longrightarrow> prev_tx_id (chain ! Suc i) = Ok (tx_id E (chain ! i))"
    "chain \<noteq> [] \<Longrightarrow> prev_tx_id (chain ! 0) = Ok (funding_txid chain)"
  using assms
  by (auto simp: linked_def prev_tx_id_def funding_txid_def index_at_def get_nth_def split: if_splits)

text \<open>
  Which transaction of a chain of length \<open>n\<close> is to be sent: without a latest index, the one from which
  on none is known, when its predecessor is known or it is the first one and its funding is
  confirmed; otherwise the latest one again if it is not known, and else the one after it.
\<close>

definition to_send :: "(nat \<Rightarrow> bool) \<Rightarrow> bool \<Rightarrow> nat \<Rightarrow> u64 option \<Rightarrow> u64 \<Rightarrow> bool" where
  "to_send known funding_confirmed n latest i \<longleftrightarrow> unat i < n \<and>
     (case latest of
        None \<Rightarrow> (\<forall>j. unat i \<le> j \<and> j < n \<longrightarrow> \<not> known j) \<and>
          (if i = 0 then funding_confirmed else known (unat i - 1))
      | Some l \<Rightarrow> if known (unat l) then unat i = Suc (unat l) else i = l)"

context chain_sync
begin

abbreviation known :: "env \<Rightarrow> 'w \<Rightarrow> nat \<Rightarrow> bool" where
  "known E w j \<equiv> is_known (status w (tx_id E (chain w ! j)))"

abbreviation funding_confirmed :: "'w \<Rightarrow> bool" where
  "funding_confirmed w \<equiv> confirmations (status w (funding_txid (chain w))) \<noteq> None"

lemma search_uncommitted_spec:
  assumes "linked E (chain w)" "k < length (chain w)"
  shows "\<exists>r. search_uncommitted (sync_new relay client) k w = (Ok r, w) \<and>
    (case r of
       None \<Rightarrow> \<forall>j < k. \<not> known E w j
     | Some (tx, i) \<Rightarrow> 0 < unat i \<and> unat i \<le> k \<and> tx = chain w ! unat i \<and> known E w (unat i - 1) \<and>
         (\<forall>j. unat i \<le> j \<and> j < k \<longrightarrow> \<not> known E w j))"
  using assms(2)
proof (induction k)
  case 0
  then show ?case by (simp add: io_simps)
next
  case (Suc k)
  let ?i = "of_nat (Suc k) :: u64"
  have i: "unat ?i = Suc k"
    using assms(1) Suc.prems by (simp add: linked_def unat_of_nat del: of_nat_Suc)
  have eq: "search_uncommitted (sync_new relay client) (Suc k) w =
      (if known E w k then (Ok (Some (chain w ! Suc k, ?i)), w)
       else search_uncommitted (sync_new relay client) k w)"
    using Suc.prems
    by (simp add: Let_def get_transaction_eq i get_nth_def io_simps status_eq
        linked_prev(1) [OF assms(1)] del: of_nat_Suc)
  show ?case
  proof (cases "known E w k")
    case True
    with eq i show ?thesis
      by (intro exI [of _ "Some (chain w ! Suc k, ?i)"])
        (auto simp del: search_uncommitted.simps of_nat_Suc)
  next
    case False
    with Suc eq show ?thesis
      by (fastforce simp: less_Suc_eq simp del: search_uncommitted.simps split: option.splits)
  qed
qed

text \<open>
  The search from the tail: it stops at a transaction that the network does not know, after
  which no other is known; its predecessor is known, or it is the first one and its funding
  transaction is confirmed.
\<close>

definition found ::
  "env \<Rightarrow> 'w \<Rightarrow> ((transaction \<times> u64) option, ('c, 'r) sync_error) outcome \<Rightarrow> bool" where
  "found E w r \<longleftrightarrow> (case r of
       Ok None \<Rightarrow> chain w = [] \<or> known E w (length (chain w) - 1)
     | Ok (Some (tx, i)) \<Rightarrow> unat i < length (chain w) \<and> tx = chain w ! unat i \<and>
         (\<forall>j. unat i \<le> j \<and> j < length (chain w) \<longrightarrow> \<not> known E w j) \<and>
         (if i = 0 then confirmations (status w (funding_txid (chain w))) \<noteq> None
          else known E w (unat i - 1))
     | Err e \<Rightarrow> chain w \<noteq> [] \<and> e = Sync_UnconfirmedFundingTransaction (funding_txid (chain w)) \<and>
         (\<forall>j < length (chain w). \<not> known E w j) \<and>
         confirmations (status w (funding_txid (chain w))) = None
     | Panic _ \<Rightarrow> False)"

lemma find_first_spec:
  assumes "linked E (chain w)"
  shows "\<exists>r. find_first_uncommitted_transaction E (sync_new relay client) w = (r, w) \<and> found E w r"
proof (cases "chain w = []")
  case True
  then show ?thesis by (simp add: find_first_uncommitted_transaction_def io_simps count_eq found_def)
next
  case False
  let ?n = "length (chain w)" and ?T = "sync_new relay client :: ('w, 'c, 'r) sync_task"
  have small: "?n < 2 ^ 64" using assms by (simp add: linked_def)
  then have len: "unat (of_nat ?n :: u64) = ?n" by (simp add: unat_of_nat)
  have pos: "(of_nat ?n :: u64) \<noteq> 0" using len False by (metis length_0_conv unat_0)
  then have "(1 :: u64) \<le> of_nat ?n" by (simp add: word_le_nat_alt len Suc_le_eq False)
  note sub = sub_u64_exact [OF this, unfolded len]
  obtain r where r: "search_uncommitted ?T (?n - 1) w = (Ok r, w)"
    and spec: "case r of None \<Rightarrow> \<forall>j < ?n - 1. \<not> known E w j
      | Some (tx, i) \<Rightarrow> 0 < unat i \<and> unat i \<le> ?n - 1 \<and> tx = chain w ! unat i \<and>
         known E w (unat i - 1) \<and> (\<forall>j. unat i \<le> j \<and> j < ?n - 1 \<longrightarrow> \<not> known E w j)"
    using search_uncommitted_spec [OF assms, of "?n - 1"] False by auto
  have idx: "unat (of_nat ?n - 1 :: u64) = ?n - 1" using sub(2) by simp
  have first: "get_transaction ?T 0 w = (Ok (chain w ! 0), w)"
    and last: "get_transaction ?T (of_nat ?n - 1) w = (Ok (chain w ! (?n - 1)), w)"
    using False unfolding get_transaction_eq idx by (simp_all add: get_nth_def)
  have eq: "find_first_uncommitted_transaction E ?T w =
      (if known E w (?n - 1) then (Ok None, w)
       else case r of Some x \<Rightarrow> (Ok (Some x), w)
         | None \<Rightarrow> if confirmations (status w (funding_txid (chain w))) = None
             then (Err (Sync_UnconfirmedFundingTransaction (funding_txid (chain w))), w)
             else (Ok (Some (chain w ! 0, 0)), w))"
    using False
    by (simp add: find_first_uncommitted_transaction_def count_eq io_simps sub(1) first last
        status_eq idx r [simplified] pos linked_prev(2) [OF assms] split: option.split)
  have upto: "j < ?n \<longleftrightarrow> j < ?n - 1 \<or> j = ?n - 1" for j using False by auto
  show ?thesis
  proof (cases "known E w (?n - 1)")
    case True
    with eq show ?thesis by (auto simp: found_def)
  next
    case unknown: False
    show ?thesis
      using spec unknown False unfolding eq upto found_def
      by (cases r) (auto split: if_splits)
  qed
qed

text \<open>
  When the network knows a transaction only with its predecessors, the search finds the first one
  that is not known.
\<close>

lemma find_first_closed:
  assumes "linked E (chain w)"
    and "\<And>i j. i \<le> j \<Longrightarrow> j < length (chain w) \<Longrightarrow> known E w j \<Longrightarrow> known E w i"
  shows "\<exists>r. find_first_uncommitted_transaction E (sync_new relay client) w = (r, w) \<and>
    (case r of
       Ok None \<Rightarrow> \<forall>j < length (chain w). known E w j
     | Ok (Some (tx, i)) \<Rightarrow> unat i < length (chain w) \<and> tx = chain w ! unat i \<and>
         \<not> is_known (status w (tx_id E tx)) \<and> (\<forall>j < unat i. known E w j) \<and>
         (i = 0 \<longrightarrow> confirmations (status w (funding_txid (chain w))) \<noteq> None)
     | Err e \<Rightarrow> e = Sync_UnconfirmedFundingTransaction (funding_txid (chain w)) \<and>
         (\<forall>j < length (chain w). \<not> known E w j) \<and>
         confirmations (status w (funding_txid (chain w))) = None
     | Panic _ \<Rightarrow> False)"
proof -
  have down: "known E w i" if "known E w j" "i \<le> j" "j < length (chain w)" for i j
    using assms(2) that by blast
  obtain r where r: "find_first_uncommitted_transaction E (sync_new relay client) w = (r, w)"
    and spec: "found E w r"
    using find_first_spec [OF assms(1)] by blast
  have all: "\<forall>j < length (chain w). known E w j"
    if "chain w = [] \<or> known E w (length (chain w) - 1)"
    using that down [of "length (chain w) - 1"] by (cases "chain w = []") auto
  have below: "\<forall>j < unat i. known E w j"
    if "unat i < length (chain w)" "i = 0 \<or> known E w (unat i - 1)" for i :: u64
    using that down [of "unat i - 1"] by (cases "i = 0") auto
  have "case r of
       Ok None \<Rightarrow> \<forall>j < length (chain w). known E w j
     | Ok (Some (tx, i)) \<Rightarrow> unat i < length (chain w) \<and> tx = chain w ! unat i \<and>
         \<not> is_known (status w (tx_id E tx)) \<and> (\<forall>j < unat i. known E w j) \<and>
         (i = 0 \<longrightarrow> confirmations (status w (funding_txid (chain w))) \<noteq> None)
     | Err e \<Rightarrow> e = Sync_UnconfirmedFundingTransaction (funding_txid (chain w)) \<and>
         (\<forall>j < length (chain w). \<not> known E w j) \<and>
         confirmations (status w (funding_txid (chain w))) = None
     | Panic _ \<Rightarrow> False"
  proof (cases r)
    case (Ok found)
    show ?thesis
    proof (cases found)
      case None
      then show ?thesis using spec all by (simp add: Ok found_def)
    next
      case (Some entry)
      obtain tx i where entry: "entry = (tx, i)" by (cases entry)
      from spec have at: "unat i < length (chain w)" "tx = chain w ! unat i"
        and from_i: "\<forall>j. unat i \<le> j \<and> j < length (chain w) \<longrightarrow> \<not> known E w j"
        and before: "i = 0 \<Longrightarrow> confirmations (status w (funding_txid (chain w))) \<noteq> None"
          "i \<noteq> 0 \<Longrightarrow> known E w (unat i - 1)"
        unfolding found_def Ok Some entry outcome.case option.case prod.case by presburger+
      have "\<forall>j < unat i. known E w j"
        by (rule below [OF at(1)]) (use before(2) in blast)
      with at from_i before(1) show ?thesis by (simp add: Ok Some entry)
    qed
  qed (use spec in \<open>simp_all add: found_def\<close>)
  with r show ?thesis by blast
qed

text \<open>What may be chosen: to stop at the latest transaction, a transaction to send, or an error.\<close>

definition chosen ::
  "env \<Rightarrow> 'w \<Rightarrow> u64 option \<Rightarrow> (u64 option + u64 \<times> transaction, ('c, 'r) sync_error) outcome \<Rightarrow> bool" where
  "chosen E w latest c \<longleftrightarrow> (case c of
       Ok (Inl res) \<Rightarrow> res = latest \<and> (chain w = [] \<or> known E w (length (chain w) - 1)) \<and>
         (\<forall>l. latest = Some l \<longrightarrow> Suc (unat l) = length (chain w))
     | Ok (Inr (i, tx)) \<Rightarrow> tx = chain w ! unat i \<and>
         to_send (known E w) (funding_confirmed w) (length (chain w)) latest i
     | Err e \<Rightarrow> latest = None \<and> chain w \<noteq> [] \<and>
         e = Sync_UnconfirmedFundingTransaction (funding_txid (chain w)) \<and>
         \<not> funding_confirmed w \<and> (\<forall>j < length (chain w). \<not> known E w j)
     | Panic _ \<Rightarrow> False)"

lemma choose_first:
  assumes "linked E (chain w)"
  shows "\<exists>c. choose_transaction E (sync_new relay client) None w = (c, w) \<and> chosen E w None c"
proof -
  obtain r where r: "find_first_uncommitted_transaction E (sync_new relay client) w = (r, w)"
    and spec: "found E w r"
    using find_first_spec [OF assms(1)] by blast
  note eq = choose_transaction_def chosen_def r io_simps
  show ?thesis
  proof (cases r)
    case (Ok found)
    show ?thesis
    proof (cases found)
      case (Some entry)
      obtain tx i where entry: "entry = (tx, i)" by (cases entry)
      have "tx = chain w ! unat i" "to_send (known E w) (funding_confirmed w) (length (chain w)) None i"
        using spec unfolding found_def Ok Some entry outcome.case option.case prod.case to_send_def by blast+
      then show ?thesis
        by (intro exI [of _ "Ok (Inr (i, tx))"]) (simp add: eq Ok Some entry)
    qed (use spec in \<open>simp add: eq Ok found_def\<close>)
  qed (use spec in \<open>simp_all add: eq found_def\<close>)
qed

lemma choose_next:
  assumes "linked E (chain w)" "unat i < length (chain w)"
  shows "\<exists>c. choose_transaction E (sync_new relay client) (Some i) w = (c, w) \<and> chosen E w (Some i) c"
proof -
  let ?n = "length (chain w)" and ?T = "sync_new relay client :: ('w, 'c, 'r) sync_task"
  note i = assms(2)
  have small: "?n < 2 ^ 64" using assms(1) by (simp add: linked_def)
  have len: "unat (of_nat ?n :: u64) = ?n" using small by (simp add: unat_of_nat)
  have "unat i + unat (1 :: u64) < 2 ^ 64" using i small by simp
  note add = add_u64_exact [OF this]
  have nxt: "unat (i + 1) = Suc (unat i)" using add(2) by simp
  have eq_iff: "i + 1 = (of_nat ?n :: u64) \<longleftrightarrow> Suc (unat i) = ?n"
    using nxt len by (metis word_unat_eq_iff)
  have this_tx: "get_transaction ?T i w = (Ok (chain w ! unat i), w)"
    using i by (simp add: get_transaction_eq get_nth_def)
  have next_tx: "get_transaction ?T (i + 1) w = (Ok (chain w ! Suc (unat i)), w)" if "Suc (unat i) < ?n"
    using that by (simp add: get_transaction_eq get_nth_def nxt)
  show ?thesis
  proof (cases "known E w (unat i)")
    case False
    with i show ?thesis
      by (simp add: choose_transaction_def chosen_def this_tx status_eq io_simps to_send_def)
  next
    case True
    have eq: "choose_transaction E ?T (Some i) w =
        (if Suc (unat i) = ?n then (Ok (Inl (Some i)), w)
         else (Ok (Inr (i + 1, chain w ! Suc (unat i))), w))"
      using True i next_tx
      by (auto simp: choose_transaction_def chosen_def this_tx status_eq io_simps count_eq add(1) eq_iff)
    show ?thesis
    proof (cases "Suc (unat i) = ?n")
      case last: True
      with True have "known E w (?n - 1)" by (metis diff_Suc_1)
      with last show ?thesis by (simp add: eq chosen_def)
    next
      case False
      with True i show ?thesis by (simp add: eq chosen_def nxt to_send_def)
    qed
  qed
qed

lemma choose_spec:
  assumes "linked E (chain w)" "\<And>i. latest = Some i \<Longrightarrow> unat i < length (chain w)"
  shows "\<exists>c. choose_transaction E (sync_new relay client) latest w = (c, w) \<and> chosen E w latest c"
  using choose_first [OF assms(1)] choose_next [OF assms(1)] assms(2) by (cases latest) auto

lemma sync_process_eq:
  assumes "choose_transaction E (sync_new relay client) latest w = (c, w)"
  shows "sync_process E (sync_new relay client) latest w =
    (case c of
       Ok (Inl res) \<Rightarrow> (Ok res, w)
     | Ok (Inr (i, tx)) \<Rightarrow>
         (case send_transaction relay tx w of
            (Inr _, w') \<Rightarrow> (Ok (Some i), w')
          | (Inl e, w') \<Rightarrow> (Err (Sync_Relay e), w'))
     | Err e \<Rightarrow> (Err e, w)
     | Panic p \<Rightarrow> (Panic p, w))"
  using assms
  by (auto simp: sync_process_def sync_new_def bind_io_def await_def lift_io_def
      split: outcome.split sum.split prod.split)

lemma sync_process_spec:
  assumes "linked E (chain w)" and "\<forall>i. latest = Some i \<longrightarrow> unat i < length (chain w)"
  shows "(sync_process E (sync_new relay client) latest w = (Ok latest, w) \<and>
      (chain w = [] \<or> known E w (length (chain w) - 1)) \<and>
      (\<forall>l. latest = Some l \<longrightarrow> Suc (unat l) = length (chain w))) \<or>
    (latest = None \<and> chain w \<noteq> [] \<and> \<not> funding_confirmed w \<and>
      (\<forall>j < length (chain w). \<not> known E w j) \<and>
      sync_process E (sync_new relay client) latest w =
        (Err (Sync_UnconfirmedFundingTransaction (funding_txid (chain w))), w)) \<or>
    (\<exists>i. to_send (known E w) (funding_confirmed w) (length (chain w)) latest i \<and>
      sync_process E (sync_new relay client) latest w =
       (case send_transaction relay (chain w ! unat i) w of
          (Inr _, w') \<Rightarrow> (Ok (Some i), w')
        | (Inl e, w') \<Rightarrow> (Err (Sync_Relay e), w')))" (is "?idle \<or> ?stop \<or> ?send")
proof -
  obtain r where r: "choose_transaction E (sync_new relay client) latest w = (r, w)"
    and spec: "chosen E w latest r"
    using choose_spec [OF assms(1), of latest] assms(2) by blast
  note eq = sync_process_eq [OF r]
  show ?thesis
  proof (cases r)
    case (Ok choice)
    show ?thesis
    proof (cases choice)
      case (Inl res)
      then have ?idle using spec Ok by (simp add: eq chosen_def)
      then show ?thesis ..
    next
      case (Inr entry)
      obtain i tx where entry: "entry = (i, tx)" by (cases entry)
      have ?send using spec unfolding eq chosen_def Ok Inr entry outcome.case sum.case prod.case by blast
      then show ?thesis by blast
    qed
  next
    case (Err e)
    have ?stop using spec unfolding eq chosen_def Err outcome.case by blast
    then show ?thesis by blast
  qed (use spec in \<open>simp add: chosen_def\<close>)
qed

end

section \<open>The client of a node\<close>

text \<open>
  The world of a task that talks to one node: the node's API state, the transactions the node has
  broadcast, and the Bitcoin network. The endpoints of \<open>wire\<close> serve the handlers of \<open>ApiImpl\<close>; an
  error \<open>None\<close> stands for a handler that panicked.
\<close>

record 'n sync_world =
  sw_api :: api_state
  sw_broadcast :: "broadcast_tx list"
  sw_net :: 'n

definition client_result :: "('a, api_error) outcome \<Rightarrow> api_error option + 'a" where
  "client_result m = (case m of Ok x \<Rightarrow> Inr x | Err e \<Rightarrow> Inl (Some e) | Panic p \<Rightarrow> Inl None)"

definition node_client :: "env \<Rightarrow> ('n sync_world, api_error option) private_api" where
  "node_client E = \<lparr>
     pa_sign_input = (\<lambda>msg w. case api_sign_input E (sw_api w) msg of (r, bs) \<Rightarrow>
       (client_result r, w\<lparr>sw_broadcast := sw_broadcast w @ bs\<rparr>)),
     pa_add_funds = (\<lambda>tx w. case api_add_funds E (sw_api w) tx of (r, bs) \<Rightarrow>
       (client_result r, w\<lparr>sw_broadcast := sw_broadcast w @ bs\<rparr>)),
     pa_anchoring_proposal = (\<lambda>w. (client_result (api_anchoring_proposal E (sw_api w)), w)),
     pa_config = (\<lambda>w. (client_result (api_config (sw_api w)), w)),
     pa_transaction_with_index = (\<lambda>i w. (client_result (api_transaction_with_index (sw_api w) i), w)),
     pa_transactions_count = (\<lambda>w. (client_result (api_transactions_count (sw_api w)), w))\<rparr>"

definition node_chain :: "'n sync_world \<Rightarrow> transaction list" where
  "node_chain w = transactions_chain (api_schema (sw_api w))"

interpretation node: chain_client "node_client E" node_chain for E
  by unfold_locales
    (simp_all add: node_client_def node_chain_def client_result_def api_transactions_count_def
      anchoring_chain_length_from_def api_transaction_with_index_def)

text \<open>The synchronisation of a node through a Bitcoin Core client.\<close>

locale node_sync = bitcoin_node rpc seen
  for rpc :: "'n sync_world rpc_client" and seen :: "'n sync_world \<Rightarrow> sha256d \<Rightarrow> u32 option option"

sublocale node_sync \<subseteq> full: chain_sync "node_client E" node_chain "rpc_relay to_str rpc"
    "status_of_seen seen" for E to_str
  by unfold_locales

lemma reachable_linked:
  assumes "crate_laws E" "reachable E from_bytes core s" "length (transactions_chain s) < 2 ^ 64"
  shows "linked E (transactions_chain s)"
proof -
  have chain: "chain_ok E core s"
    by (rule reachable_stateE [OF assms(1,2)]) (simp add: schema_inv_def)
  have "prev_tx_id (transactions_chain s ! Suc i) =
      (Ok (tx_id E (transactions_chain s ! i)) :: (_, unit) outcome)"
    if "Suc i < length (transactions_chain s)" for i
  proof -
    have "chain_link E (transactions_chain s ! i) (transactions_chain s ! Suc i)"
      using chain that by (simp add: chain_ok_def successively_conv_nth)
    then show ?thesis
      by (auto simp: chain_link_def spends_tail_def prev_tx_id_def index_at_def split: list.splits)
  qed
  moreover have "tx_input (transactions_chain s ! 0) \<noteq> []" if "transactions_chain s \<noteq> []"
    using chain that by (simp add: chain_ok_def anchors_block_def)
  ultimately show ?thesis using assms(3) by (simp add: linked_def)
qed

end
