(* ===== verification/Sync_Properties.thy ===== *)
theory Sync_Properties
  imports Sync
begin

text \<open>
  What the tasks beside a node achieve: a node that holds a Bitcoin key signs every input of the
  current proposal with messages its own API accepts, and the anchoring transactions reach the
  Bitcoin network in the order of the chain.
\<close>

section \<open>Signing the proposal\<close>

text \<open>
  The documented behaviour of \<open>InputSigner\<close> for a pair of keys: signing with the private key
  succeeds, and what it returns verifies under the public key.
\<close>

definition keypair_signs :: "env \<Rightarrow> redeem_script \<Rightarrow> btc_public_key \<Rightarrow> btc_private_key \<Rightarrow> bool" where
  "keypair_signs E rs pk sk \<longleftrightarrow> (\<forall>ti inp. \<exists>sig. sign_input_with E rs ti inp sk = Inr sig \<and>
     verify_input E rs ti inp pk sig = None)"

lemma find_private_key_only:
  "key_pool T = [pk \<mapsto> sk] \<Longrightarrow> pk \<in> set ks \<Longrightarrow> find_private_key T ks = Some (pk, sk)"
  by (induction ks) (auto split: option.split if_splits)

lemma sign_messages_all:
  assumes "keypair_signs E rs pk sk"
  shows "\<exists>msgs. sign_messages E rs sk proposal k inputs =
      (Ok msgs :: (_, 'c chain_update_error) outcome) \<and> length msgs = length inputs \<and>
    (\<forall>i < length inputs. si_txid (msgs ! i) = tx_id E proposal \<and> si_input (msgs ! i) = of_nat (k + i) \<and>
       verify_input E rs (proposal, k + i) (inputs ! i) pk (si_input_signature (msgs ! i)) = None)"
proof (induction inputs arbitrary: k)
  case Nil
  then show ?case by simp
next
  case (Cons inp inputs)
  obtain sig where sig: "sign_input_with E rs (proposal, k) inp sk = Inr sig"
      "verify_input E rs (proposal, k) inp pk sig = None"
    using assms unfolding keypair_signs_def by blast
  obtain msgs where msgs: "sign_messages E rs sk proposal (k + 1) inputs =
        (Ok msgs :: (_, 'c chain_update_error) outcome)"
      "length msgs = length inputs"
    and each: "\<forall>i < length inputs. si_txid (msgs ! i) = tx_id E proposal \<and>
       si_input (msgs ! i) = of_nat (k + 1 + i) \<and>
       verify_input E rs (proposal, k + 1 + i) (inputs ! i) pk (si_input_signature (msgs ! i)) = None"
    using Cons.IH [of "k + 1"] by blast
  let ?msg = "\<lparr>si_txid = tx_id E proposal, si_input = of_nat k, si_input_signature = sig\<rparr>"
  have "sign_messages E rs sk proposal k (inp # inputs) =
      (Ok (?msg # msgs) :: (_, 'c chain_update_error) outcome)"
    using sig(1) msgs(1) by simp
  moreover have "si_txid ((?msg # msgs) ! i) = tx_id E proposal \<and>
      si_input ((?msg # msgs) ! i) = of_nat (k + i) \<and>
      verify_input E rs (proposal, k + i) ((inp # inputs) ! i) pk
        (si_input_signature ((?msg # msgs) ! i)) = None" if "i < length (inp # inputs)" for i
    using that sig(2) each by (cases i) auto
  ultimately show ?case using msgs(2) by (intro exI [of _ "?msg # msgs"]) simp
qed

lemma send_messages_accepted:
  assumes "\<forall>msg \<in> set msgs. verify_sign_input E (sw_api w) msg = Ok ()"
    and "api_broadcaster (sw_api w) = Some b" "\<And>tx. \<exists>h. b tx = Inr h"
  shows "send_messages (node_client E) msgs w =
    (Ok (), w\<lparr>sw_broadcast := sw_broadcast w @ map Broadcast_Sign_Input msgs\<rparr>)"
  using assms(1,2)
proof (induction msgs arbitrary: w)
  case Nil
  then show ?case by (simp add: io_simps)
next
  case (Cons msg msgs)
  let ?w = "w\<lparr>sw_broadcast := sw_broadcast w @ [Broadcast_Sign_Input msg]\<rparr>"
  obtain h where "b (Broadcast_Sign_Input msg) = Inr h" using assms(3) by blast
  then have "pa_sign_input (node_client E) msg w = (Inr h, ?w)"
    using Cons.prems
    by (simp add: node_client_def api_sign_input_def broadcast_def api_get_broadcaster_def
        client_result_def)
  then show ?case using Cons.IH [of ?w] Cons.prems by (simp add: io_simps)
qed

text \<open>With a client that reports a proposal, the task of an anchoring node sends what its key signs.\<close>

lemma chain_update_sends:
  fixes client :: "('w, 'c) private_api"
  assumes "hash_laws E" "valid_config E c" "find_bitcoin_key c a = Some (n, pk)"
    and "tx_payload E proposal = Some p"
    and "sign_messages E (redeem_of E c) sk proposal 0 inputs = (Ok msgs :: (_, 'c chain_update_error) outcome)"
    and "pa_anchoring_proposal client w = (Inr (Proposal_Available proposal inputs), w)"
    and "pa_config client w = (Inr c, w)"
  shows "chain_update_process E (chain_update_new [(pk, sk)] client) w = send_messages client msgs w"
proof -
  let ?T = "chain_update_new [(pk, sk)] client"
  have client: "update_client ?T = client" by (simp add: chain_update_new_def)
  have "pk \<in> set (map bitcoin_key (anchoring_keys c))"
    using assms(3) find_bitcoin_key_Some_iff [OF valid_configD(2) [OF assms(2)]] by force
  then have "find_private_key ?T (map bitcoin_key (anchoring_keys c)) = Some (pk, sk)"
    by (intro find_private_key_only) (simp_all add: chain_update_new_def)
  then show ?thesis
    by (simp add: chain_update_process_def anchoring_config_def client assms(4-7) io_simps handle_proposal_def
        valid_config_scripts [OF assms(2)] anchoring_payload_eq [OF assms(1)])
qed

text \<open>
  What the task of an anchoring node broadcasts: the messages it signs for the inputs of the proposal,
  each of which passes the node's own verification.
\<close>

lemma chain_update_messages:
  assumes "crate_laws E" and "reachable E from_bytes (api_core (sw_api w)) (api_schema (sw_api w))"
    and "actual_config_entry (api_schema (sw_api w)) = Some c"
    and "find_bitcoin_key c (api_service_key (sw_api w)) = Some (n, pk)"
    and "keypair_signs E (redeem_of E c) pk sk"
    and "api_broadcaster (sw_api w) = Some b" and "\<forall>tx. \<exists>h. b tx = Inr h"
    and "actual_proposed_anchoring_transaction E (api_core (sw_api w)) (api_schema (sw_api w)) =
      Ok (Some (proposal, inputs))"
  obtains msgs where "sign_messages E (redeem_of E c) sk proposal 0 inputs =
      (Ok msgs :: (_, api_error option chain_update_error) outcome)"
    and "chain_update_process E (chain_update_new [(pk, sk)] (node_client E)) w =
      (Ok (), w\<lparr>sw_broadcast := sw_broadcast w @ map Broadcast_Sign_Input msgs\<rparr>)"
    and "length msgs = length inputs"
    and "\<forall>i < length inputs. si_txid (msgs ! i) = tx_id E proposal \<and> unat (si_input (msgs ! i)) = i \<and>
       verify_sign_input E (sw_api w) (msgs ! i) = Ok ()"
proof -
  let ?a = "sw_api w"
  obtain inv: "core_laws (api_core ?a)" "schema_inv E (api_core ?a) (api_schema ?a)"
    and v: "valid_config E c"
    by (rule reachable_stateE [OF assms(1,2)]) (simp add: assms(3))
  have hl: "hash_laws E" using assms(1) by (simp add: crate_laws_def)
  have two: "length inputs \<le> 2"
    unfolding proposal_is_proposal_tx(3) [OF assms(1) inv assms(3,8)] by (simp split: option.split)
  obtain p where payload: "tx_payload E proposal = Some p"
    using proposal_is_proposal_tx(1) [OF assms(1) inv assms(3,8)]
    by (auto simp: proposal_tx_def anchors_block_def tx_metadata_def)
  obtain msgs where msgs: "sign_messages E (redeem_of E c) sk proposal 0 inputs =
        (Ok msgs :: (_, api_error option chain_update_error) outcome)" "length msgs = length inputs"
    and each: "\<forall>i < length inputs. si_txid (msgs ! i) = tx_id E proposal \<and>
       si_input (msgs ! i) = of_nat i \<and> verify_input E (redeem_of E c) (proposal, i) (inputs ! i) pk
         (si_input_signature (msgs ! i)) = None"
    using sign_messages_all [OF assms(5), of proposal 0 inputs] by auto
  have idx: "unat (si_input (msgs ! i)) = i" if "i < length inputs" for i
    using each that two by (simp add: unat_of_nat_small)
  have ok: "verify_sign_input E ?a (msgs ! i) = Ok ()" if "i < length inputs" for i
    using each that idx [OF that]
    by (simp add: verify_sign_input_def Let_def assms(3,4,8) get_nth_def actual_config_def
        valid_config_scripts [OF v])
  then have "\<forall>msg \<in> set msgs. verify_sign_input E ?a msg = Ok ()"
    using msgs(2) by (metis in_set_conv_nth)
  then have send: "send_messages (node_client E) msgs w =
      (Ok (), w\<lparr>sw_broadcast := sw_broadcast w @ map Broadcast_Sign_Input msgs\<rparr>)"
    by (rule send_messages_accepted) (use assms(6,7) in auto)
  have "pa_anchoring_proposal (node_client E) w = (Inr (Proposal_Available proposal inputs), w)"
    "pa_config (node_client E) w = (Inr c, w)"
    by (simp_all add: node_client_def api_anchoring_proposal_def assms(3,8) try_from_proposal_def
        client_result_def api_config_def api_actual_config_def actual_config_def)
  from chain_update_sends [OF hl v assms(4) payload msgs(1) this] send
  have "chain_update_process E (chain_update_new [(pk, sk)] (node_client E)) w =
      (Ok (), w\<lparr>sw_broadcast := sw_broadcast w @ map Broadcast_Sign_Input msgs\<rparr>)" by (rule trans)
  with that msgs each idx ok show thesis by blast
qed

text \<open>
  C18. A node signs the whole proposal: when the service has a proposal, the task of an anchoring
  node with its private key broadcasts one \<open>sign_input\<close> transaction per input, in order, for this
  proposal, and each passes the node's own verification; nothing else is broadcast.
\<close>

theorem chain_update_signs_proposal:
  assumes "crate_laws E" and "reachable E from_bytes (api_core (sw_api w)) (api_schema (sw_api w))"
    and "actual_config_entry (api_schema (sw_api w)) = Some c"
    and "find_bitcoin_key c (api_service_key (sw_api w)) = Some (n, pk)"
    and "keypair_signs E (redeem_of E c) pk sk"
    and "api_broadcaster (sw_api w) = Some b" and "\<forall>tx. \<exists>h. b tx = Inr h"
    and "actual_proposed_anchoring_transaction E (api_core (sw_api w)) (api_schema (sw_api w)) =
      Ok (Some (proposal, inputs))"
  shows "\<exists>msgs. chain_update_process E (chain_update_new [(pk, sk)] (node_client E)) w =
      (Ok (), w\<lparr>sw_broadcast := sw_broadcast w @ map Broadcast_Sign_Input msgs\<rparr>) \<and>
    length msgs = length inputs \<and>
    (\<forall>i < length inputs. si_txid (msgs ! i) = tx_id E proposal \<and> unat (si_input (msgs ! i)) = i \<and>
       verify_sign_input E (sw_api w) (msgs ! i) = Ok ())"
  using chain_update_messages [OF assms] by metis

text \<open>A world for the witnesses: a node, and a Bitcoin node that has seen some transactions.\<close>

definition sample_rpc :: "(sha256d \<Rightarrow> u32 option option) sync_world rpc_client" where
  "sample_rpc = \<lparr>send_raw_transaction = (\<lambda>_ w. (Inr (Sha256d 0), w)),
     get_raw_transaction_verbose = (\<lambda>txid w. (case sw_net w txid of
        None \<Rightarrow> Inl (JsonRpc_Rpc (Lib_Error ''not found'')) | Some c \<Rightarrow> Inr c, w))\<rparr>"

interpretation sample_node: node_sync sample_rpc sw_net
  by unfold_locales (simp_all add: sample_rpc_def)

definition sample_world :: "schema \<Rightarrow> (sha256d \<Rightarrow> u32 option option) sync_world" where
  "sample_world s = \<lparr>sw_api = \<lparr>api_schema = s, api_core = sample_core, api_service_key = Service_Key 0,
     api_broadcaster = Some (\<lambda>_. Inr (Hash 1))\<rparr>, sw_broadcast = [],
     sw_net = (\<lambda>txid. if txid = tx_id (ref_env False) sample_final_tx then Some (Some 3) else None)\<rparr>"

lemma sample_world_simps [simp]:
  "sw_broadcast (sample_world s) = []" "api_schema (sw_api (sample_world s)) = s"
  "api_core (sw_api (sample_world s)) = sample_core"
  "api_service_key (sw_api (sample_world s)) = Service_Key 0"
  "api_broadcaster (sw_api (sample_world s)) = Some (\<lambda>_. Inr (Hash 1))"
  by (simp_all add: sample_world_def)

lemma ref_keypair: "keypair_signs (ref_env dbg) rs (Btc_Public_Key k) (Btc_Private_Key k)"
  by (simp add: keypair_signs_def ref_sign_input_with_def ref_verify_input_def)

theorem chain_update_signs_proposal_witness:
  "\<exists>msgs. chain_update_process (ref_env False)
       (chain_update_new [(Btc_Public_Key 0, Btc_Private_Key 0)] (node_client (ref_env False)))
       (sample_world sample_funded) =
     (Ok (), (sample_world sample_funded)\<lparr>sw_broadcast := map Broadcast_Sign_Input msgs\<rparr>) \<and>
     length msgs = 1"
  using chain_update_signs_proposal [of "ref_env False" sample_decoder "sample_world sample_funded"
      solo_config 0 "Btc_Public_Key 0" "Btc_Private_Key 0" "\<lambda>_. Inr (Hash 1)" sample_proposal
      "[sample_fund]"] sample_run(2) sample_funded_simps(1) sample_key ref_keypair sample_proposed
  by auto

section \<open>Sending the chain to the Bitcoin network\<close>

text \<open>
  C20. The search for the first uncommitted transaction is right: for a node in a reachable state, and
  a network that knows a transaction only if it knows its predecessors in the chain,
  \<open>find_first_uncommitted_transaction\<close> returns nothing exactly when the whole chain is known, and
  otherwise the first transaction of the chain that is not known, with its index; if this is the
  first one of all, it is an error when its funding transaction is not confirmed.
\<close>

theorem find_first_uncommitted_correct:
  assumes "crate_laws E" and "reachable E from_bytes core (api_schema (sw_api w))"
    and "length (node_chain w) < 2 ^ 64"
    and "\<forall>txid v. relay_transaction_status relay txid v = (Inr (status v txid), v)"
    and "\<forall>i j. i \<le> j \<longrightarrow> j < length (node_chain w) \<longrightarrow>
      is_known (status w (tx_id E (node_chain w ! j))) \<longrightarrow>
      is_known (status w (tx_id E (node_chain w ! i)))"
  shows "\<exists>r. find_first_uncommitted_transaction E (sync_new relay (node_client E)) w = (r, w) \<and>
    (case r of
       Ok None \<Rightarrow> \<forall>j < length (node_chain w). is_known (status w (tx_id E (node_chain w ! j)))
     | Ok (Some (tx, i)) \<Rightarrow> unat i < length (node_chain w) \<and> tx = node_chain w ! unat i \<and>
         \<not> is_known (status w (tx_id E tx)) \<and>
         (\<forall>j < unat i. is_known (status w (tx_id E (node_chain w ! j)))) \<and>
         (i = 0 \<longrightarrow> confirmations (status w (funding_txid (node_chain w))) \<noteq> None)
     | Err e \<Rightarrow> e = Sync_UnconfirmedFundingTransaction (funding_txid (node_chain w)) \<and>
         (\<forall>j < length (node_chain w). \<not> is_known (status w (tx_id E (node_chain w ! j)))) \<and>
         confirmations (status w (funding_txid (node_chain w))) = None
     | Panic _ \<Rightarrow> False)"
proof -
  have sync: "chain_sync (node_client E) node_chain relay status"
    by (intro chain_sync.intro node.chain_client_axioms status_relay.intro) (simp add: assms(4))
  have "linked E (node_chain w)"
    unfolding node_chain_def
    by (rule reachable_linked [OF assms(1,2) assms(3) [unfolded node_chain_def]])
  then show ?thesis by (rule chain_sync.find_first_closed [OF sync]) (use assms(5) in blast)
qed

definition sample_relay :: "((sha256d \<Rightarrow> u32 option option) sync_world, rpc_error) bitcoin_relay" where
  "sample_relay = rpc_relay (\<lambda>_. []) sample_rpc"

lemma sample_relay_status:
  "relay_transaction_status sample_relay txid v = (Inr (status_of_seen sw_net v txid), v)"
  unfolding sample_relay_def by (rule sample_node.node_relay.status_answer)

lemma sample_chain_ids:
  "tx_id (ref_env False) sample_final_tx = Sha256d 4637396028172"
  "tx_id (ref_env False) second_final_tx = Sha256d 132764711143606795003"
proof -
  have ids: "tx_id (ref_env False) (solo_final tx) = tx_id (ref_env False) tx"
    if "length (tx_input tx) = 1" for tx
    using that
    by (auto simp: tx_id_def ref_txid_def solo_final_def ref_spend_input_def length_Suc_conv)
  show "tx_id (ref_env False) sample_final_tx = Sha256d 4637396028172"
    "tx_id (ref_env False) second_final_tx = Sha256d 132764711143606795003"
    unfolding second_final_tx_def sample_final_tx_def sample_txids [symmetric]
    by (simp_all add: ids second_proposal_def sample_proposal_def solo_tx_def second_sources
        sample_sources)
qed

lemma second_txid_unknown:
  "sw_net (sample_world s) (tx_id (ref_env False) second_final_tx) = None"
  "sw_net (sample_world s) (tx_id (ref_env False) sample_final_tx) = Some (Some 3)"
  by (simp_all add: sample_world_def sample_chain_ids)

theorem find_first_uncommitted_correct_witness:
  "find_first_uncommitted_transaction (ref_env False)
     (sync_new sample_relay (node_client (ref_env False))) (sample_world second_anchored) =
   (Ok (Some (second_final_tx, 1)), sample_world second_anchored)"
proof -
  let ?w = "sample_world second_anchored"
  have chain: "node_chain ?w = [sample_final_tx, second_final_tx]"
    by (simp add: node_chain_def second_chain)
  have known: "is_known (status_of_seen sw_net ?w (tx_id (ref_env False) (node_chain ?w ! j))) \<longleftrightarrow> j = 0"
    if "j < 2" for j
    using that
    by (cases "j = 0") (simp_all add: chain less_2_cases_iff status_of_seen_def second_txid_unknown
        is_known_def)
  have down: "\<forall>i j. i \<le> j \<longrightarrow> j < length (node_chain ?w) \<longrightarrow>
      is_known (status_of_seen sw_net ?w (tx_id (ref_env False) (node_chain ?w ! j))) \<longrightarrow>
      is_known (status_of_seen sw_net ?w (tx_id (ref_env False) (node_chain ?w ! i)))"
    using known by (simp add: chain)
  obtain r where r: "find_first_uncommitted_transaction (ref_env False)
      (sync_new sample_relay (node_client (ref_env False))) ?w = (r, ?w)"
    and spec: "case r of
       Ok None \<Rightarrow> \<forall>j < length (node_chain ?w).
         is_known (status_of_seen sw_net ?w (tx_id (ref_env False) (node_chain ?w ! j)))
     | Ok (Some (tx, i)) \<Rightarrow> unat i < length (node_chain ?w) \<and> tx = node_chain ?w ! unat i \<and>
         \<not> is_known (status_of_seen sw_net ?w (tx_id (ref_env False) tx)) \<and>
         (\<forall>j < unat i. is_known (status_of_seen sw_net ?w (tx_id (ref_env False) (node_chain ?w ! j)))) \<and>
         (i = 0 \<longrightarrow> confirmations (status_of_seen sw_net ?w (funding_txid (node_chain ?w))) \<noteq> None)
     | Err e \<Rightarrow> e = Sync_UnconfirmedFundingTransaction (funding_txid (node_chain ?w)) \<and>
         (\<forall>j < length (node_chain ?w).
           \<not> is_known (status_of_seen sw_net ?w (tx_id (ref_env False) (node_chain ?w ! j)))) \<and>
         confirmations (status_of_seen sw_net ?w (funding_txid (node_chain ?w))) = None
     | Panic _ \<Rightarrow> False"
    using find_first_uncommitted_correct [of "ref_env False" sample_decoder sample_core ?w
        sample_relay "status_of_seen sw_net"] sample_run(4) down sample_relay_status
    by (auto simp: chain)
  have one: "i = 1" if "unat i = 1" for i :: u64 using that by (metis unat_1 word_unat_eq_iff)
  have known: "is_known (status_of_seen sw_net ?w (tx_id (ref_env False) sample_final_tx))"
    "\<not> is_known (status_of_seen sw_net ?w (tx_id (ref_env False) second_final_tx))"
    using known [of 0] known [of 1] by (simp_all add: chain)
  have "r = Ok (Some (second_final_tx, 1))"
  proof (cases r)
    case (Ok found)
    then obtain tx i where found: "found = Some (tx, i)"
      using spec known by (cases found) (auto simp: chain less_2_cases_iff)
    have "unat i < length (node_chain ?w)" and tx: "tx = node_chain ?w ! unat i"
      and new: "\<not> is_known (status_of_seen sw_net ?w (tx_id (ref_env False) tx))"
      using spec unfolding Ok found outcome.case option.case prod.case by blast+
    then have "unat i < 2" "unat i \<noteq> 0" using known by (auto simp: chain intro: ccontr)
    then have "unat i = 1" by (simp add: less_2_cases_iff)
    with tx one show ?thesis by (simp add: Ok found chain)
  qed (use spec known in \<open>auto simp: chain less_2_cases_iff\<close>)
  with r show ?thesis by simp
qed

text \<open>
  C21. The chain reaches the Bitcoin network in order: one run of the task for a node in a reachable
  state sends at most one transaction. Without a latest index this is the transaction from which
  on the network knows none, and its predecessor is known, or it is the first one and its funding
  transaction is confirmed; otherwise it is the transaction of the latest index again, when the
  network does not know it, and else the one after it. The index of the transaction sent is
  returned. When nothing is left to send, the given index is returned, which is that of the end of
  the chain, and the end of the chain is known; without a latest index and with no transaction
  known, an unconfirmed funding transaction is an error. The task never panics and has no other
  error than those of the relay.
\<close>

theorem sync_sends_in_order:
  assumes "crate_laws E" and "reachable E from_bytes core (api_schema (sw_api w))"
    and "length (node_chain w) < 2 ^ 64"
    and "\<forall>txid v. relay_transaction_status relay txid v = (Inr (status v txid), v)"
    and "\<forall>i. latest = Some i \<longrightarrow> unat i < length (node_chain w)"
  shows "(sync_process E (sync_new relay (node_client E)) latest w = (Ok latest, w) \<and>
      (node_chain w = [] \<or>
       is_known (status w (tx_id E (node_chain w ! (length (node_chain w) - 1))))) \<and>
      (\<forall>l. latest = Some l \<longrightarrow> Suc (unat l) = length (node_chain w))) \<or>
    (latest = None \<and> node_chain w \<noteq> [] \<and>
      \<not> confirmations (status w (funding_txid (node_chain w))) \<noteq> None \<and>
      (\<forall>j < length (node_chain w). \<not> is_known (status w (tx_id E (node_chain w ! j)))) \<and>
      sync_process E (sync_new relay (node_client E)) latest w =
        (Err (Sync_UnconfirmedFundingTransaction (funding_txid (node_chain w))), w)) \<or>
    (\<exists>i. to_send (\<lambda>j. is_known (status w (tx_id E (node_chain w ! j))))
        (confirmations (status w (funding_txid (node_chain w))) \<noteq> None)
        (length (node_chain w)) latest i \<and>
      sync_process E (sync_new relay (node_client E)) latest w =
       (case send_transaction relay (node_chain w ! unat i) w of
          (Inr _, w') \<Rightarrow> (Ok (Some i), w')
        | (Inl e, w') \<Rightarrow> (Err (Sync_Relay e), w')))"
proof -
  have sync: "chain_sync (node_client E) node_chain relay status"
    by (intro chain_sync.intro node.chain_client_axioms status_relay.intro) (simp add: assms(4))
  have "linked E (node_chain w)"
    unfolding node_chain_def
    by (rule reachable_linked [OF assms(1,2) assms(3) [unfolded node_chain_def]])
  then show ?thesis by (rule chain_sync.sync_process_spec [OF sync _ assms(5)])
qed

theorem sync_sends_in_order_witness:
  "\<exists>i. unat i < 2 \<and> sync_process (ref_env False) (sync_new sample_relay (node_client (ref_env False)))
     (Some 0) (sample_world second_anchored) = (Ok (Some i), sample_world second_anchored)"
proof -
  let ?w = "sample_world second_anchored"
  have chain: "node_chain ?w = [sample_final_tx, second_final_tx]"
    by (simp add: node_chain_def second_chain)
  have send: "send_transaction sample_relay tx v = (Inr (Sha256d 0), v)" for tx v
    by (simp add: sample_relay_def rpc_relay_def rpc_send_transaction_def sample_rpc_def)
  have "\<not> is_known (status_of_seen sw_net ?w (tx_id (ref_env False) (node_chain ?w ! 1)))"
    by (simp add: chain status_of_seen_def second_txid_unknown is_known_def)
  then show ?thesis
    using sync_sends_in_order [of "ref_env False" sample_decoder sample_core ?w sample_relay
        "status_of_seen sw_net" "Some 0"] sample_run(4) sample_relay_status
    by (auto simp: chain send to_send_def)
qed

end
