(* ===== verification/Service_Events.thy ===== *)
theory Service_Events
  imports Service_Steps
begin

text \<open>
  Executions as sequences of events: the transactions of nodes and others, with whatever content,
  configurations from the supervisor, and new blocks. An event that the service rejects, or that
  panics, leaves the state as it is, because the runtime discards its changes. Every event is a step
  of the state machine or no step at all, so what holds of reachable states holds along every
  sequence of events.
\<close>

datatype service_event =
    Ev_Sign_Input service_key sign_input_msg
  | Ev_Add_Funds service_key add_funds_msg
  | Ev_Configure config
  | Ev_Block u64 hash

definition node_context :: "core_schema \<Rightarrow> service_key \<Rightarrow> exec_context" where
  "node_context core author =
     \<lparr>caller_author = Some author, caller_is_supervisor = False, for_core = core\<rparr>"

definition supervisor_context :: "core_schema \<Rightarrow> exec_context" where
  "supervisor_context core = \<lparr>caller_author = None, caller_is_supervisor = True, for_core = core\<rparr>"

definition or_unchanged :: "schema \<Rightarrow> (schema, 'e) outcome \<Rightarrow> schema" where
  "or_unchanged s r = (case r of Ok s' \<Rightarrow> s' | _ \<Rightarrow> s)"

fun execute :: "env \<Rightarrow> service_event \<Rightarrow> service_state \<Rightarrow> service_state" where
  "execute E (Ev_Sign_Input author msg) (core, s) =
     (core, or_unchanged s (sign_input E (node_context core author) s msg))"
| "execute E (Ev_Add_Funds author msg) (core, s) =
     (core, or_unchanged s (add_funds E (node_context core author) s msg))"
| "execute E (Ev_Configure params) (core, s) =
     (core, or_unchanged s (bind_oc (verify_config E (supervisor_context core) params)
        (\<lambda>_. apply_config E (supervisor_context core) s params)))"
| "execute E (Ev_Block height hash) (core, s) =
     (if core height = None \<and> unat height < 2 ^ 63 then core(height \<mapsto> hash) else core, s)"

abbreviation run_events :: "env \<Rightarrow> service_event list \<Rightarrow> service_state \<Rightarrow> service_state" where
  "run_events E \<equiv> fold (execute E)"

lemma node_context_simps [simp]:
  "caller_author (node_context core author) = Some author" "for_core (node_context core author) = core"
  by (simp_all add: node_context_def)

lemma or_unchanged_simps [simp]:
  "or_unchanged s (Ok s') = s'" "or_unchanged s (Err e) = s" "or_unchanged s (Panic p) = s"
  by (simp_all add: or_unchanged_def)

lemma execute_block_grows:
  assumes "core_laws core"
  shows "core \<subseteq>\<^sub>m fst (execute E (Ev_Block height hash) (core, s))"
    "core_laws (fst (execute E (Ev_Block height hash) (core, s)))"
  using assms by (auto simp: core_laws_def map_le_def dom_def)

lemma execute_step:
  assumes "core_laws core"
  shows "execute E e (core, s) = (core, s) \<or> service_step E (core, s) (execute E e (core, s))"
proof (cases e)
  case (Ev_Sign_Input author msg)
  then show ?thesis
    by (cases "sign_input E (node_context core author) s msg") (auto intro: step_sign_input [of "node_context core author"])
next
  case (Ev_Add_Funds author msg)
  then show ?thesis
    by (cases "add_funds E (node_context core author) s msg") (auto intro: step_add_funds [of "node_context core author"])
next
  case (Ev_Configure params)
  then show ?thesis
    by (cases "verify_config E (supervisor_context core) params";
        cases "apply_config E (supervisor_context core) s params") (auto intro: step_configure)
next
  case (Ev_Block height hash)
  then show ?thesis using step_block [OF execute_block_grows [OF assms, of E height hash s]] by simp
qed

lemma execute_inv:
  assumes "crate_laws E" "service_inv E st"
  shows "service_inv E (execute E e st)" "grows st (execute E e st)"
proof -
  obtain core s where st: "st = (core, s)" by (cases st)
  have "execute E e st = st \<or> service_step E st (execute E e st)"
    using execute_step [of core E e s] assms(2) by (simp add: st service_inv_def)
  then show "service_inv E (execute E e st)" "grows st (execute E e st)"
    using assms(2) service_step_grows [OF assms(1,2)] grows_refl
      crates.service_step_inv [OF crates.intro [OF assms(1)]] by metis+
qed

lemma run_events_inv:
  assumes "crate_laws E" "service_inv E st"
  shows "service_inv E (run_events E es st)" "grows st (run_events E es st)"
proof -
  have "service_inv E (run_events E es st) \<and> grows st (run_events E es st)"
    using assms(2)
  proof (induction es arbitrary: st)
    case Nil
    then show ?case by (simp add: grows_refl)
  next
    case (Cons e es)
    note step = execute_inv [OF assms(1) Cons.prems, of e]
    show ?case using Cons.IH [OF step(1)] grows_trans [OF step(2)] by simp
  qed
  then show "service_inv E (run_events E es st)" "grows st (run_events E es st)" by simp_all
qed

text \<open>A sequence of events is a path of the state machine, so it stays among the reachable states.\<close>

lemma run_events_steps:
  assumes "crate_laws E" "service_inv E st"
  shows "(service_step E)\<^sup>*\<^sup>* st (run_events E es st)"
  using assms(2)
proof (induction es arbitrary: st)
  case Nil
  show ?case by simp
next
  case (Cons e es)
  obtain core s where st: "st = (core, s)" by (cases st)
  have "(service_step E)\<^sup>*\<^sup>* st (execute E e st)"
    using execute_step [of core E e s] Cons.prems by (auto simp: st service_inv_def)
  with Cons.IH [OF execute_inv(1) [OF assms(1) Cons.prems]] show ?case
    by (simp add: rtranclp_trans [of "service_step E" st])
qed

lemma reachable_run_events:
  assumes "crate_laws E" "reachable E from_bytes core s"
  shows "reachable E from_bytes (fst (run_events E es (core, s))) (snd (run_events E es (core, s)))"
proof -
  have "service_inv E (core, s)"
    by (rule reachable_stateE [OF assms]) (simp add: service_inv_def)
  from run_events_steps [OF assms(1) this, of es] show ?thesis
    using crates.reachable_grows [OF crates.intro, OF assms] by (metis prod.collapse)
qed

end
