(* ===== verification/Vote_Count.thy ===== *)
theory Vote_Count
  imports Anchoring_Prelude
begin

text \<open>
  Counting votes, the argument behind the two quorums of the service: events happen one after the
  other, some of which are valid votes for one of several boxes. While the count is open, some box
  lacks a quorum, and no event takes a vote away; a valid vote is counted, unless its box is full.
  An event can close the count. Then, if the events contain votes of a quorum for every box, one of
  them closes the count, in whatever order they happen and whatever else happens in between. The
  rounds of signatures and of confirmations are instances.
\<close>

locale vote_count =
  fixes cast_vote :: "'v \<Rightarrow> 's \<Rightarrow> 's"
    and is_open :: "'s \<Rightarrow> bool"
    and closes :: "'s \<Rightarrow> 's \<Rightarrow> bool"
    and valid_vote :: "'v \<Rightarrow> bool"
    and voter :: "'v \<Rightarrow> 'n"
    and box :: "'v \<Rightarrow> nat"
    and boxes :: nat
    and tally :: "'s \<Rightarrow> nat \<Rightarrow> 'n set"
    and quorum :: nat
  assumes finite_tally: "finite (tally s i)"
    and open_lacks: "is_open s \<Longrightarrow> \<exists>i < boxes. card (tally s i) < quorum"
    and open_or_closes: "is_open s \<Longrightarrow> is_open (cast_vote v s) \<or> closes s (cast_vote v s)"
    and tally_mono: "is_open s \<Longrightarrow> is_open (cast_vote v s) \<Longrightarrow> i < boxes \<Longrightarrow>
      tally s i \<subseteq> tally (cast_vote v s) i"
    and vote_counted: "is_open s \<Longrightarrow> valid_vote v \<Longrightarrow> is_open (cast_vote v s) \<Longrightarrow>
      voter v \<in> tally (cast_vote v s) (box v) \<or> quorum \<le> card (tally (cast_vote v s) (box v))"
begin

definition voters :: "'v list \<Rightarrow> nat \<Rightarrow> 'n set" where
  "voters vs i = voter ` {v \<in> set vs. valid_vote v \<and> box v = i}"

lemma finite_voters: "finite (voters vs i)"
  by (simp add: voters_def)

lemma voters_Cons:
  "voters (v # vs) i =
     (if valid_vote v \<and> box v = i then insert (voter v) (voters vs i) else voters vs i)"
  by (auto simp: voters_def)

lemma count_closes_from:
  assumes "is_open s" "\<forall>i < boxes. quorum \<le> card (voters vs i \<union> tally s i)"
  shows "\<exists>us v ws. vs = us @ v # ws \<and> is_open (fold cast_vote us s) \<and>
    closes (fold cast_vote us s) (cast_vote v (fold cast_vote us s))"
  using assms
proof (induction vs arbitrary: s)
  case Nil
  then show ?case using open_lacks [of s] by (auto simp: voters_def not_le [symmetric])
next
  case (Cons v vs)
  let ?s = "cast_vote v s"
  show ?case
  proof (cases "is_open ?s")
    case True
    have "quorum \<le> card (voters vs i \<union> tally ?s i)" if i: "i < boxes" for i
    proof (cases "valid_vote v \<and> box v = i \<and> voter v \<notin> tally ?s i")
      case full: True
      then have "quorum \<le> card (tally ?s i)"
        using vote_counted [OF Cons.prems(1) _ True] by auto
      also have "\<dots> \<le> card (voters vs i \<union> tally ?s i)"
        by (rule card_mono) (simp_all add: finite_voters finite_tally)
      finally show ?thesis .
    next
      case False
      then have "voters (v # vs) i \<union> tally s i \<subseteq> voters vs i \<union> tally ?s i"
        using tally_mono [OF Cons.prems(1) True i] by (auto simp: voters_Cons)
      then have "card (voters (v # vs) i \<union> tally s i) \<le> card (voters vs i \<union> tally ?s i)"
        by (rule card_mono [rotated]) (simp add: finite_voters finite_tally)
      with Cons.prems(2) i show ?thesis by force
    qed
    then obtain us u ws where "vs = us @ u # ws" "is_open (fold cast_vote us ?s)"
        "closes (fold cast_vote us ?s) (cast_vote u (fold cast_vote us ?s))"
      using Cons.IH [OF True] by auto
    then show ?thesis by (intro exI [of _ "v # us"] exI [of _ u] exI [of _ ws]) simp
  next
    case False
    with open_or_closes [OF Cons.prems(1), of v] Cons.prems(1) show ?thesis
      by (intro exI [of _ "[]"] exI [of _ v] exI [of _ vs]) simp
  qed
qed

text \<open>It is enough that the events contain enough votes of enough voters.\<close>

lemma count_closes:
  assumes "is_open s" "V \<subseteq> set vs" "\<forall>v \<in> V. valid_vote v"
    and "\<forall>i < boxes. quorum \<le> card (voter ` {v \<in> V. box v = i})"
  shows "\<exists>us v ws. vs = us @ v # ws \<and> is_open (fold cast_vote us s) \<and>
    closes (fold cast_vote us s) (cast_vote v (fold cast_vote us s))"
proof (rule count_closes_from [OF assms(1)])
  have "voter ` {v \<in> V. box v = i} \<subseteq> voters vs i \<union> tally s i" for i
    using assms(2,3) by (auto simp: voters_def)
  then have "card (voter ` {v \<in> V. box v = i}) \<le> card (voters vs i \<union> tally s i)" for i
    by (rule card_mono [rotated]) (simp add: finite_voters finite_tally)
  with assms(4) show "\<forall>i < boxes. quorum \<le> card (voters vs i \<union> tally s i)"
    using order_trans by blast
qed

end

end
