(* ===== verification/Anchoring_Round.thy ===== *)
theory Anchoring_Round
  imports Sync_Properties Service_Events Vote_Count
begin

text \<open>
  A whole round of anchoring, across the components: the signing tasks of the nodes
  (\<open>src/sync/mod.rs\<close>) produce \<open>sign_input\<close> transactions, the blockchain executes them in some order
  (\<open>src/blockchain/transactions.rs\<close>), and the service extends the chain (\<open>src/blockchain/schema.rs\<close>).
  Whatever the order, however often a transaction is repeated, and whatever anybody else sends in
  between, a quorum of the nodes completes the round, unless a funding transaction or a configuration
  replaces the proposal.
\<close>

section \<open>Executing the signatures\<close>

text \<open>What the execution of one node's \<open>sign_input\<close> transaction makes of the schema.\<close>

definition deliver :: "env \<Rightarrow> core_schema \<Rightarrow> service_key \<times> sign_input_msg \<Rightarrow> schema \<Rightarrow> schema" where
  "deliver E core = (\<lambda>(author, msg) s. or_unchanged s (sign_input E (node_context core author) s msg))"

lemma execute_sign_input:
  "execute E (Ev_Sign_Input author msg) (core, s) = (core, deliver E core (author, msg) s)"
  by (simp add: deliver_def)

definition input_key :: "env \<Rightarrow> transaction \<Rightarrow> nat \<Rightarrow> tx_input_id" where
  "input_key E proposal i = tx_input_id_new (tx_id E proposal) (of_nat i)"

definition signers :: "env \<Rightarrow> transaction \<Rightarrow> schema \<Rightarrow> nat \<Rightarrow> u16 set" where
  "signers E proposal s i = fst ` set (input_signatures s (input_key E proposal i))"

text \<open>
  A round that began in the state \<open>s0\<close> and is not complete: what the proposal depends on is as it was,
  no input has more than a quorum of signatures, and one has less.
\<close>

definition same_round :: "schema \<Rightarrow> schema \<Rightarrow> bool" where
  "same_round s0 s \<longleftrightarrow> transactions_chain s = transactions_chain s0 \<and>
     actual_config_entry s = actual_config_entry s0 \<and>
     following_config_entry s = following_config_entry s0 \<and>
     unspent_funding_entry s = unspent_funding_entry s0"

definition round_open ::
  "env \<Rightarrow> core_schema \<Rightarrow> config \<Rightarrow> transaction \<Rightarrow> transaction list \<Rightarrow> schema \<Rightarrow> schema \<Rightarrow> bool" where
  "round_open E core c proposal inputs s0 s \<longleftrightarrow>
     core_laws core \<and> schema_inv E core s \<and> actual_config_entry s = Some c \<and>
     (following_config_entry s = None \<or> transactions_chain s \<noteq> []) \<and>
     actual_proposed_anchoring_transaction E core s = Ok (Some (proposal, inputs)) \<and>
     same_round s0 s \<and>
     (\<forall>i < length inputs. card (signers E proposal s i) \<le> config_byzantine_quorum E c) \<and>
     (\<exists>i < length inputs. card (signers E proposal s i) < config_byzantine_quorum E c)"

definition valid_signature ::
  "env \<Rightarrow> config \<Rightarrow> transaction \<Rightarrow> transaction list \<Rightarrow> service_key \<times> sign_input_msg \<Rightarrow> bool" where
  "valid_signature E c proposal inputs = (\<lambda>(author, msg).
     si_txid msg = tx_id E proposal \<and> unat (si_input msg) < length inputs \<and>
     (\<exists>n pk. find_bitcoin_key c author = Some (n, pk) \<and>
        verify_input E (redeem_of E c) (proposal, unat (si_input msg))
          (inputs ! unat (si_input msg)) pk (si_input_signature msg) = None))"

definition signing_node :: "config \<Rightarrow> service_key \<times> sign_input_msg \<Rightarrow> u16" where
  "signing_node c = (\<lambda>(author, msg). fst (the (find_bitcoin_key c author)))"

definition signed_input :: "service_key \<times> sign_input_msg \<Rightarrow> nat" where
  "signed_input = (\<lambda>(author, msg). unat (si_input msg))"

text \<open>
  The two ways in which a round ends. It is complete when the proposal, signed, is on the chain, its
  funding is spent and a following configuration is in force. It is preempted when the chain is as
  before, but a funding transaction was accepted or a configuration applied.
\<close>

definition round_done :: "env \<Rightarrow> transaction \<Rightarrow> schema \<Rightarrow> schema \<Rightarrow> bool" where
  "round_done E proposal s s' \<longleftrightarrow>
     (\<exists>fin. transactions_chain s' = transactions_chain s @ [fin] \<and>
        strip_witness fin = strip_witness proposal) \<and>
     unspent_funding_entry s' = None \<and>
     (\<forall>f. unspent_funding_entry s = Some f \<longrightarrow> spent_funding_transactions s' (tx_id E f) = Some f) \<and>
     following_config_entry s' = None \<and>
     actual_config_entry s' =
       (case following_config_entry s of None \<Rightarrow> actual_config_entry s | Some f \<Rightarrow> Some f)"

definition round_preempted :: "schema \<Rightarrow> schema \<Rightarrow> bool" where
  "round_preempted s s' \<longleftrightarrow> transactions_chain s' = transactions_chain s \<and>
     (unspent_funding_entry s' \<noteq> unspent_funding_entry s \<or>
      actual_config_entry s' \<noteq> actual_config_entry s \<or>
      following_config_entry s' \<noteq> following_config_entry s)"

lemma round_done_pushed:
  assumes "same_round s s1" "strip_witness fin = strip_witness proposal"
  shows "round_done E proposal s (pushed E s1 fin)"
  using assms by (auto simp: round_done_def same_round_def pushed_def split: option.split)

lemma round_ends_cong:
  assumes "same_round s s'"
  shows "round_done E proposal s' t = round_done E proposal s t" "round_preempted s' t = round_preempted s t"
  using assms
  by (cases "following_config_entry s"; simp add: same_round_def round_done_def round_preempted_def)+

lemma same_round_trans: "same_round s0 s \<Longrightarrow> same_round s s' \<Longrightarrow> same_round s0 s'"
  by (simp add: same_round_def)

lemma finalize_inputs_incomplete:
  assumes "i \<in> set idxs" "bmap_len (input_signatures s (tx_input_id_new pid (of_nat i))) \<noteq> q"
    and "\<forall>j \<in> set idxs. j < length (tx_input tx)"
  shows "finalize_inputs E signer s pid q tx idxs = (Ok None :: (_, 'e) outcome)"
  using assms
  by (induction idxs arbitrary: tx) (auto simp: Let_def index_at_def get_nth_def)

text \<open>The proposal is a function of what a round keeps, and new blocks do not change it.\<close>

lemma proposal_cong:
  "same_round s s' \<Longrightarrow> actual_proposed_anchoring_transaction E core s' =
     actual_proposed_anchoring_transaction E core s"
  by (simp add: same_round_def actual_proposed_anchoring_transaction_def actual_state_def
      actual_config_def following_config_def proposed_anchoring_transaction_def
      latest_anchored_height_def)

lemma proposal_new_blocks:
  assumes "crate_laws E" "core_laws core" "schema_inv E core s" "actual_config_entry s = Some c"
    and "actual_proposed_anchoring_transaction E core s = Ok (Some (proposal, inputs))"
    and "core \<subseteq>\<^sub>m core'" "core_laws core'"
  shows "actual_proposed_anchoring_transaction E core' s = Ok (Some (proposal, inputs))"
proof -
  obtain hash where h: "core (proposal_height E s c) = Some hash" and stuck: "\<not> transition_stuck E s c"
    and create: "create E (proposal_builder E s c (proposal_height E s c) hash) = Ok (proposal, inputs)"
    by (rule proposal_OkD [OF assms(1-5)])
  have "core' (proposal_height E s c) = Some hash"
    using assms(6) h by (auto simp: map_le_def dom_def)
  with stuck create show ?thesis
    by (simp add: actual_proposed_eq [OF assms(1,7) schema_inv_core_mono [OF assms(3,6)] assms(4)])
qed

lemma card_signers:
  "schema_inv E core s \<Longrightarrow>
     card (signers E proposal s i) = bmap_len (input_signatures s (input_key E proposal i))"
  using btree.size_card [OF input_signatures_ok(1), of E s "input_key E proposal i"]
  by (simp add: signers_def bmap_keys schema_inv_def)

lemma finite_signers: "finite (signers E proposal s i)"
  by (simp add: signers_def)

lemma input_key_eq_iff:
  assumes "i < length inputs" "j < length inputs" "length inputs \<le> 2"
  shows "input_key E proposal i = input_key E proposal j \<longleftrightarrow> i = j"
proof -
  have "unat (of_nat k :: u32) = k" if "k < length inputs" for k
    using that assms(3) by (intro unat_of_nat_small) simp
  then show ?thesis
    using assms(1,2) by (auto simp: input_key_def tx_input_id_new_def) metis
qed

lemma signed_key_input_key:
  "si_txid msg = tx_id E proposal \<Longrightarrow> signed_key msg = input_key E proposal (unat (si_input msg))"
  by (simp add: signed_key_def input_key_def)

lemma signers_with_signature:
  assumes "i < length inputs" "j < length inputs" "length inputs \<le> 2"
  shows "signers E proposal (with_signature s (input_key E proposal i) n sig) j =
    (if j = i then insert n (signers E proposal s i) else signers E proposal s j)"
  using assms
  by (auto simp: signers_def input_signatures_with_signature input_key_eq_iff keys_bmap_insert)

lemma round_open_two: "crate_laws E \<Longrightarrow> round_open E core c proposal inputs s0 s \<Longrightarrow> length inputs \<le> 2"
  using proposal_is_proposal_tx(3) [of E core s c proposal inputs]
  by (auto simp: round_open_def split: option.split)

text \<open>What a valid signature does in an open round.\<close>

definition stored :: "env \<Rightarrow> config \<Rightarrow> transaction \<Rightarrow> service_key \<times> sign_input_msg \<Rightarrow> schema \<Rightarrow> schema" where
  "stored E c proposal v s = with_signature s (input_key E proposal (signed_input v)) (signing_node c v)
     (si_input_signature (snd v))"

lemma deliver_eq:
  assumes "crate_laws E" "round_open E core c proposal inputs s0 s" "valid_signature E c proposal inputs v"
  shows "deliver E core v s =
    (case use_signature E s (redeem_of E c) (config_byzantine_quorum E c) (signing_node c v)
        proposal inputs (snd v) of Ok s' \<Rightarrow> s' | _ \<Rightarrow> s)"
proof -
  obtain author msg where v: "v = (author, msg)" by (cases v)
  have open_s: "schema_inv E core s" "actual_config_entry s = Some c"
    "actual_proposed_anchoring_transaction E core s = Ok (Some (proposal, inputs))"
    using assms(2) by (simp_all add: round_open_def)
  have "valid_config E c" using open_s by (simp add: schema_inv_def configs_ok_def)
  then have q: "redeem_quorum E (redeem_of E c) = config_byzantine_quorum E c"
    using assms(1) by (simp add: redeem_quorum_of crate_laws_def)
  show ?thesis
    using assms(3) open_s(3)
    by (auto simp: deliver_def v valid_signature_def signing_node_def q
        sign_input_eq [OF open_s(1,2)] or_unchanged_def)
qed

lemma deliver_full:
  assumes "crate_laws E" "round_open E core c proposal inputs s0 s" "valid_signature E c proposal inputs v"
    and "card (signers E proposal s (signed_input v)) = config_byzantine_quorum E c"
  shows "deliver E core v s = s"
proof -
  have "tx_input_id_new (tx_id E proposal) (si_input (snd v)) = input_key E proposal (signed_input v)"
    by (cases v) (simp add: input_key_def signed_input_def)
  moreover have "schema_inv E core s" using assms(2) by (simp add: round_open_def)
  ultimately show ?thesis
    using assms(4) unfolding deliver_eq [OF assms(1-3)]
    by (simp add: use_signature_def card_signers)
qed

lemma deliver_stored:
  assumes "crate_laws E" "round_open E core c proposal inputs s0 s" "valid_signature E c proposal inputs v"
    and "card (signers E proposal s (signed_input v)) < config_byzantine_quorum E c"
    and "i < length inputs"
      "card (signers E proposal (stored E c proposal v s) i) \<noteq> config_byzantine_quorum E c"
    and "schema_inv E core (stored E c proposal v s)"
  shows "deliver E core v s = stored E c proposal v s"
proof -
  have key: "tx_input_id_new (tx_id E proposal) (si_input (snd v)) = input_key E proposal (signed_input v)"
    by (cases v) (simp add: input_key_def signed_input_def)
  have inv: "schema_inv E core s" and len: "length (tx_input proposal) = length inputs"
    using assms(1,2) proposal_is_proposal_tx(2) by (auto simp: round_open_def)
  have none: "finalize_inputs E (redeem_of E c) (stored E c proposal v s) (tx_id E proposal)
      (config_byzantine_quorum E c) proposal [0..<length inputs] =
      (Ok None :: (_, execution_error) outcome)"
    using assms(5,6) len card_signers [OF assms(7), of proposal i]
    by (intro finalize_inputs_incomplete [of i]) (simp_all add: input_key_def)
  have "use_signature E s (redeem_of E c) (config_byzantine_quorum E c) (signing_node c v)
      proposal inputs (snd v) = Ok (stored E c proposal v s)"
    using assms(4) none
    by (simp add: use_signature_def Let_def key card_signers [OF inv] stored_def
        with_signature_def [symmetric])
  then show ?thesis by (simp add: deliver_eq [OF assms(1-3)])
qed

lemma stored_inv:
  assumes "round_open E core c proposal inputs s0 s" "valid_signature E c proposal inputs v"
  shows "schema_inv E core (stored E c proposal v s)"
proof -
  obtain author msg where v: "v = (author, msg)" by (cases v)
  have "valid_config E c" using assms(1) by (simp add: round_open_def schema_inv_def configs_ok_def)
  moreover obtain n pk where "find_bitcoin_key c author = Some (n, pk)" "si_txid msg = tx_id E proposal"
      "verify_input E (redeem_of E c) (proposal, unat (si_input msg))
          (inputs ! unat (si_input msg)) pk (si_input_signature msg) = None"
    using assms(2) by (auto simp: v valid_signature_def)
  ultimately have "sig_justified E (input_key E proposal (signed_input v)) (signing_node c v)
      (si_input_signature msg)"
    using sig_justifiedI [of E c author n pk proposal msg] signed_key_input_key [of msg E proposal]
    by (simp add: v signed_input_def signing_node_def)
  with assms(1) show ?thesis
    by (simp add: stored_def v round_open_def with_signature_inv)
qed

lemma signers_stored:
  assumes "crate_laws E" "round_open E core c proposal inputs s0 s" "valid_signature E c proposal inputs v"
    and "j < length inputs"
  shows "signers E proposal (stored E c proposal v s) j =
    (if j = signed_input v then insert (signing_node c v) (signers E proposal s j)
     else signers E proposal s j)"
proof -
  have "signed_input v < length inputs"
    using assms(3) by (cases v) (simp add: valid_signature_def signed_input_def)
  then show ?thesis
    using signers_with_signature [OF _ assms(4) round_open_two [OF assms(1,2)], of "signed_input v"]
    by (simp add: stored_def)
qed

lemma deliver_pushed:
  assumes "crate_laws E" "round_open E core c proposal inputs s0 s" "valid_signature E c proposal inputs v"
    and "card (signers E proposal s (signed_input v)) < config_byzantine_quorum E c"
    and all: "\<forall>i < length inputs.
      card (signers E proposal (stored E c proposal v s) i) = config_byzantine_quorum E c"
  shows "\<exists>fin. deliver E core v s = pushed E (stored E c proposal v s) fin \<and>
    strip_witness fin = strip_witness proposal"
proof -
  obtain author msg where v: "v = (author, msg)" by (cases v)
  let ?i = "signed_input v" and ?n = "signing_node c v" and ?q = "config_byzantine_quorum E c"
  have o: "core_laws core" "schema_inv E core s" "actual_config_entry s = Some c"
    "actual_proposed_anchoring_transaction E core s = Ok (Some (proposal, inputs))"
    "following_config_entry s = None \<or> transactions_chain s \<noteq> []"
    using assms(2) by (simp_all add: round_open_def)
  obtain pk where key: "find_bitcoin_key c author = Some (?n, pk)"
    and id: "si_txid msg = tx_id E proposal" and i: "unat (si_input msg) < length inputs"
    and ver: "verify_input E (redeem_of E c) (proposal, unat (si_input msg))
          (inputs ! unat (si_input msg)) pk (si_input_signature msg) = None"
    using assms(3) by (auto simp: v valid_signature_def signing_node_def)
  have i': "?i = unat (si_input msg)" "?i < length inputs" using i by (simp_all add: v signed_input_def)
  note st = signers_stored [OF assms(1-3)]
  have sk: "signed_key msg = input_key E proposal ?i" by (simp add: i' signed_key_input_key [OF id])
  have this_input: "card (insert ?n (signers E proposal s ?i)) = ?q"
    using spec [OF all, of ?i] i'(2) by (simp add: st)
  then have new: "?n \<notin> signers E proposal s ?i" "card (signers E proposal s ?i) + 1 = ?q"
    using assms(4) by (auto simp: card_insert_if finite_signers split: if_splits)
  have others: "\<forall>j < length inputs. j \<noteq> unat (si_input msg) \<longrightarrow>
      bmap_len (input_signatures s (tx_input_id_new (si_txid msg) (of_nat j))) = ?q"
  proof (intro allI impI)
    fix j assume "j < length inputs" "j \<noteq> unat (si_input msg)"
    then have "card (signers E proposal s j) = ?q" using spec [OF all, of j] by (simp add: st i'(1))
    then show "bmap_len (input_signatures s (tx_input_id_new (si_txid msg) (of_nat j))) = ?q"
      by (simp add: card_signers [OF o(2)] id input_key_def)
  qed
  obtain fin where "sign_input E (node_context core author) s msg =
      Ok (pushed E (with_signature s (signed_key msg) ?n (si_input_signature msg)) fin)"
    and "strip_witness fin = strip_witness proposal"
    using new sign_input_completes [OF assms(1) o(1-4) _ _ others o(5) id i _ key ver,
        where ctx = "node_context core author"]
    by (auto simp: sk card_signers [OF o(2)] signers_def [symmetric])
  then show ?thesis by (auto simp: deliver_def v stored_def sk)
qed

lemma stored_open:
  assumes "crate_laws E" "round_open E core c proposal inputs s0 s" "valid_signature E c proposal inputs v"
    and "card (signers E proposal s (signed_input v)) < config_byzantine_quorum E c"
    and "i < length inputs"
      "card (signers E proposal (stored E c proposal v s) i) \<noteq> config_byzantine_quorum E c"
  shows "round_open E core c proposal inputs s0 (stored E c proposal v s)"
proof -
  have le: "card (signers E proposal (stored E c proposal v s) j) \<le> config_byzantine_quorum E c"
    if "j < length inputs" for j
    using assms(2,4) that
    by (auto simp: signers_stored [OF assms(1-3) that] card_insert_if finite_signers round_open_def)
  have same: "same_round s (stored E c proposal v s)"
    by (simp add: stored_def same_round_def)
  then have "same_round s0 (stored E c proposal v s)"
    using same_round_trans assms(2) by (auto simp: round_open_def)
  moreover have "card (signers E proposal (stored E c proposal v s) i) < config_byzantine_quorum E c"
    using le [OF assms(5)] assms(6) by simp
  ultimately show ?thesis
    using le assms(2,5) stored_inv [OF assms(2,3)]
    unfolding round_open_def proposal_cong [OF same] by (auto simp: stored_def)
qed

text \<open>So a valid signature stays without effect, is stored, or ends the round.\<close>

lemma deliver_cases:
  assumes "crate_laws E" "round_open E core c proposal inputs s0 s" "valid_signature E c proposal inputs v"
  obtains (full) "deliver E core v s = s"
      "card (signers E proposal s (signed_input v)) = config_byzantine_quorum E c"
  | (counted) "deliver E core v s = stored E c proposal v s"
      "round_open E core c proposal inputs s0 (stored E c proposal v s)"
  | (complete) "round_done E proposal s (deliver E core v s)"
proof -
  let ?q = "config_byzantine_quorum E c" and ?s = "stored E c proposal v s"
  have "signed_input v < length inputs"
    using assms(3) by (cases v) (simp add: valid_signature_def signed_input_def)
  then consider "card (signers E proposal s (signed_input v)) = ?q"
    | "card (signers E proposal s (signed_input v)) < ?q"
    using assms(2) by (force simp: round_open_def)
  then show thesis
  proof cases
    case 1
    then show ?thesis by (intro full deliver_full [OF assms])
  next
    case 2
    show ?thesis
    proof (cases "\<forall>i < length inputs. card (signers E proposal ?s i) = ?q")
      case True
      then obtain fin where "deliver E core v s = pushed E ?s fin" "strip_witness fin = strip_witness proposal"
        using deliver_pushed [OF assms 2] by blast
      moreover have "same_round s ?s" by (simp add: stored_def same_round_def)
      ultimately show ?thesis by (intro complete) (simp add: round_done_pushed)
    next
      case False
      then obtain i where "i < length inputs" "card (signers E proposal ?s i) \<noteq> ?q" by blast
      then show ?thesis
        using deliver_stored [OF assms 2] stored_open [OF assms 2] stored_inv [OF assms(2,3)]
        by (intro counted) blast+
    qed
  qed
qed

text \<open>Any other message is rejected.\<close>

lemma deliver_invalid:
  assumes "round_open E core c proposal inputs s0 s" "\<not> valid_signature E c proposal inputs v"
  shows "deliver E core v s = s"
proof -
  have o: "schema_inv E core s" "actual_config_entry s = Some c"
    "actual_proposed_anchoring_transaction E core s = Ok (Some (proposal, inputs))"
    using assms(1) by (simp_all add: round_open_def)
  show ?thesis
    using assms(2) o(3)
    by (cases v) (auto simp: deliver_def valid_signature_def sign_input_eq [OF o(1,2)]
        split: option.split)
qed

section \<open>The other events of a round\<close>

lemma other_event_frame:
  assumes "\<And>author msg. e \<noteq> Ev_Sign_Input author msg" "schema_inv E core s"
  shows "transactions_chain (snd (execute E e (core, s))) = transactions_chain s"
    "transaction_signatures (snd (execute E e (core, s))) = transaction_signatures s"
proof -
  obtain c where c: "actual_config_entry s = Some c" using assms(2) by (rule schema_inv_config)
  have "transactions_chain (snd (execute E e (core, s))) = transactions_chain s \<and>
      transaction_signatures (snd (execute E e (core, s))) = transaction_signatures s"
  proof (cases e)
    case (Ev_Add_Funds author msg)
    then show ?thesis
      by (simp add: add_funds_eq [OF assms(2) c] Let_def split: option.split)
  next
    case (Ev_Configure params)
    then show ?thesis
      by (auto simp: or_unchanged_def apply_config_def outcome_simps split: outcome.split if_splits)
  qed (use assms(1) in simp_all)
  then show "transactions_chain (snd (execute E e (core, s))) = transactions_chain s"
    "transaction_signatures (snd (execute E e (core, s))) = transaction_signatures s" by simp_all
qed

lemma signers_cong:
  "transaction_signatures s' = transaction_signatures s \<Longrightarrow> signers E proposal s' i = signers E proposal s i"
  by (simp add: signers_def input_signatures_def)

lemma round_kept:
  assumes "crate_laws E" "round_open E core c proposal inputs s0 s" "core \<subseteq>\<^sub>m core'" "core_laws core'"
    "schema_inv E core' s'" "same_round s s'" "transaction_signatures s' = transaction_signatures s"
  shows "round_open E core' c proposal inputs s0 s'"
proof -
  have "same_round s0 s'" using assms(2,6) same_round_trans by (auto simp: round_open_def)
  moreover have "actual_proposed_anchoring_transaction E core' s = Ok (Some (proposal, inputs))"
    by (rule proposal_new_blocks [OF assms(1) _ _ _ _ assms(3,4)])
      (use assms(2) in \<open>simp_all add: round_open_def\<close>)
  ultimately show ?thesis
    using assms(2,4-6)
    unfolding round_open_def signers_cong [OF assms(7)] proposal_cong [OF assms(6)]
    by (auto simp: same_round_def)
qed

lemma other_event:
  assumes "crate_laws E" "round_open E core c proposal inputs s0 s"
    and "\<And>author msg. e \<noteq> Ev_Sign_Input author msg" "execute E e (core, s) = (core', s')"
  shows "round_open E core' c proposal inputs s0 s' \<or> round_preempted s s'"
    "transaction_signatures s' = transaction_signatures s"
proof -
  have inv: "service_inv E (core, s)" using assms(2) by (simp add: round_open_def service_inv_def)
  note step = execute_inv [OF assms(1) inv, of e, unfolded assms(4)]
  have si: "schema_inv E core s" using inv by (simp add: service_inv_def)
  note frame = other_event_frame [OF assms(3) si, unfolded assms(4) snd_conv]
  show "transaction_signatures s' = transaction_signatures s" by (rule frame)
  show "round_open E core' c proposal inputs s0 s' \<or> round_preempted s s'"
  proof (cases "same_round s s'")
    case True
    have "round_open E core' c proposal inputs s0 s'"
      by (rule round_kept [OF assms(1,2) _ _ _ True frame(2)])
        (use step in \<open>simp_all add: grows_def service_inv_def\<close>)
    then show ?thesis ..
  next
    case False
    with frame(1) show ?thesis by (auto simp: same_round_def round_preempted_def)
  qed
qed

section \<open>The count of the signatures\<close>

definition event_valid :: "env \<Rightarrow> config \<Rightarrow> transaction \<Rightarrow> transaction list \<Rightarrow> service_event \<Rightarrow> bool" where
  "event_valid E c proposal inputs e =
     (case e of Ev_Sign_Input author msg \<Rightarrow> valid_signature E c proposal inputs (author, msg) | _ \<Rightarrow> False)"

definition event_node :: "config \<Rightarrow> service_event \<Rightarrow> u16" where
  "event_node c e = (case e of Ev_Sign_Input author msg \<Rightarrow> signing_node c (author, msg) | _ \<Rightarrow> 0)"

definition event_input :: "service_event \<Rightarrow> nat" where
  "event_input e = (case e of Ev_Sign_Input author msg \<Rightarrow> signed_input (author, msg) | _ \<Rightarrow> 0)"

definition round_ends :: "env \<Rightarrow> transaction \<Rightarrow> service_state \<Rightarrow> service_state \<Rightarrow> bool" where
  "round_ends E proposal st st' \<longleftrightarrow>
     round_done E proposal (snd st) (snd st') \<or> round_preempted (snd st) (snd st')"

abbreviation open_state ::
  "env \<Rightarrow> config \<Rightarrow> transaction \<Rightarrow> transaction list \<Rightarrow> schema \<Rightarrow> service_state \<Rightarrow> bool" where
  "open_state E c proposal inputs s0 \<equiv> \<lambda>st. round_open E (fst st) c proposal inputs s0 (snd st)"

lemma event_cases:
  assumes "crate_laws E" "open_state E c proposal inputs s0 st"
  shows "open_state E c proposal inputs s0 (execute E e st) \<and>
      (\<forall>i < length inputs. signers E proposal (snd st) i \<subseteq> signers E proposal (snd (execute E e st)) i) \<and>
      (event_valid E c proposal inputs e \<longrightarrow>
         event_node c e \<in> signers E proposal (snd (execute E e st)) (event_input e) \<or>
         card (signers E proposal (snd (execute E e st)) (event_input e)) = config_byzantine_quorum E c) \<or>
    round_ends E proposal st (execute E e st)"
proof (cases "\<exists>author msg. e = Ev_Sign_Input author msg")
  case False
  then have other: "e \<noteq> Ev_Sign_Input author msg" for author msg by blast
  obtain core s core' s' where st: "st = (core, s)" and st': "execute E e st = (core', s')"
    by (meson surj_pair)
  have "\<not> event_valid E c proposal inputs e"
    using False by (cases e) (auto simp: event_valid_def)
  moreover have "round_open E core' c proposal inputs s0 s' \<or> round_preempted s s'"
    and sigs: "transaction_signatures s' = transaction_signatures s"
    using other_event [OF assms(1) assms(2) [unfolded st fst_conv snd_conv] other st' [unfolded st]]
    by blast+
  ultimately show ?thesis
    unfolding st' by (simp add: st round_ends_def signers_cong [OF sigs]) blast
next
  case True
  then obtain author msg where e: "e = Ev_Sign_Input author msg" by blast
  let ?v = "(author, msg)"
  obtain core s where st: "st = (core, s)" by (cases st)
  have s: "round_open E core c proposal inputs s0 s" using assms(2) by (simp add: st)
  have ex: "execute E e st = (core, deliver E core ?v s)" by (simp only: e st execute_sign_input)
  show ?thesis
  proof (cases "valid_signature E c proposal inputs ?v")
    case False
    then show ?thesis using s unfolding ex deliver_invalid [OF s False] by (simp add: st e event_valid_def)
  next
    case v: True
    have box: "signed_input ?v < length inputs"
      using v by (simp add: valid_signature_def signed_input_def)
    show ?thesis
      unfolding ex
      by (rule deliver_cases [OF assms(1) s v])
        (use s box in \<open>auto simp: st e event_node_def event_input_def round_ends_def
          signers_stored [OF assms(1) s v]\<close>)
  qed
qed

lemma open_not_ended:
  assumes "open_state E c proposal inputs s0 st" "open_state E c proposal inputs s0 st'"
  shows "\<not> round_ends E proposal st st'"
  using assms
  by (auto simp: round_open_def same_round_def round_ends_def round_done_def round_preempted_def)

sublocale crates \<subseteq> anchoring_round: vote_count "execute E" "open_state E c proposal inputs s0"
    "round_ends E proposal" "event_valid E c proposal inputs" "event_node c" event_input
    "length inputs" "\<lambda>st. signers E proposal (snd st)" "config_byzantine_quorum E c"
  for c proposal inputs s0
proof
  show "finite (signers E proposal (snd st) i)" for st i by (rule finite_signers)
  show "\<exists>i < length inputs. card (signers E proposal (snd st) i) < config_byzantine_quorum E c"
    if "open_state E c proposal inputs s0 st" for st
    using that by (simp add: round_open_def)
  fix st e assume st: "open_state E c proposal inputs s0 st"
  note cases = event_cases [OF laws st, of e]
  show "open_state E c proposal inputs s0 (execute E e st) \<or> round_ends E proposal st (execute E e st)"
    using cases by blast
  assume st': "open_state E c proposal inputs s0 (execute E e st)"
  note kept = cases [simplified open_not_ended [OF st st'], simplified]
  show "signers E proposal (snd st) i \<subseteq> signers E proposal (snd (execute E e st)) i"
    if "i < length inputs" for i
    using kept that by blast
  show "event_node c e \<in> signers E proposal (snd (execute E e st)) (event_input e) \<or>
      config_byzantine_quorum E c \<le> card (signers E proposal (snd (execute E e st)) (event_input e))"
    if "event_valid E c proposal inputs e"
    using kept that by auto
qed

section \<open>A quorum of nodes completes the round\<close>

text \<open>At the start of a round no node has signed the proposal.\<close>

lemma round_start:
  assumes "crate_laws E" "core_laws core" "schema_inv E core s" "actual_config_entry s = Some c"
    and "actual_proposed_anchoring_transaction E core s = Ok (Some (proposal, inputs))"
    and "following_config_entry s = None \<or> transactions_chain s \<noteq> []"
    and "\<forall>i < length inputs. transaction_signatures s (input_key E proposal i) = None"
  shows "round_open E core c proposal inputs s s"
proof -
  have none: "signers E proposal s i = {}" if "i < length inputs" for i
    using assms(7) that
    by (simp add: signers_def input_signatures_def unwrap_or_default_def bmap_default_def)
  have "valid_config E c" using assms(3,4) by (simp add: schema_inv_def configs_ok_def)
  then have "0 < config_byzantine_quorum E c"
    using assms(1) by (simp add: quorum_bounds crate_laws_def)
  moreover have "0 < length inputs"
    using proposal_inputs_nonempty [OF assms(1-5)] by simp
  ultimately show ?thesis using assms none unfolding round_open_def by (auto simp: same_round_def)
qed

text \<open>The messages of the signing tasks are valid, and each node signs every input.\<close>

lemma task_messages:
  assumes "keypair_signs E (redeem_of E c) pk sk" "find_bitcoin_key c author = Some (n, pk)"
    and "sign_messages E (redeem_of E c) sk proposal 0 inputs =
      (Ok msgs :: (_, 'e chain_update_error) outcome)"
    and "length inputs \<le> 2"
  shows "\<forall>msg \<in> set msgs. valid_signature E c proposal inputs (author, msg)"
    "\<forall>i < length inputs. \<exists>msg \<in> set msgs. signed_input (author, msg) = i"
proof -
  have msgs: "length msgs = length inputs"
    and each: "\<forall>i < length inputs. si_txid (msgs ! i) = tx_id E proposal \<and> si_input (msgs ! i) = of_nat i \<and>
       verify_input E (redeem_of E c) (proposal, i) (inputs ! i) pk (si_input_signature (msgs ! i)) = None"
    using sign_messages_all [where 'c = 'e, OF assms(1), of proposal 0 inputs] assms(3) by auto
  have idx: "unat (of_nat i :: u32) = i" if "i < length inputs" for i
    using that assms(4) by (intro unat_of_nat_small) simp
  show "\<forall>msg \<in> set msgs. valid_signature E c proposal inputs (author, msg)"
    using each msgs idx assms(2) by (auto simp: in_set_conv_nth valid_signature_def)
  show "\<forall>i < length inputs. \<exists>msg \<in> set msgs. signed_input (author, msg) = i"
    using each msgs idx by (metis nth_mem signed_input_def prod.case)
qed

lemma nodes_distinct:
  assumes "valid_config E c" "\<forall>a \<in> A. find_bitcoin_key c a \<noteq> None"
  shows "inj_on (\<lambda>a. fst (the (find_bitcoin_key c a))) A"
proof (rule inj_onI)
  have own: "service_key (anchoring_keys c ! unat (fst (the (find_bitcoin_key c a)))) = a" if a: "a \<in> A" for a
  proof -
    obtain n pk where k: "find_bitcoin_key c a = Some (n, pk)" using assms(2) a by fastforce
    then have "service_key (anchoring_keys c ! unat n) = a"
      by (simp only: find_bitcoin_key_Some_iff [OF valid_configD(2) [OF assms(1)]])
    with k show ?thesis by simp
  qed
  show "a = b" if "a \<in> A" "b \<in> A" "fst (the (find_bitcoin_key c a)) = fst (the (find_bitcoin_key c b))" for a b
    using own [OF that(1)] own [OF that(2)] unfolding that(3) by (rule trans [OF sym])
qed

text \<open>The events of the signing tasks of the nodes \<open>A\<close>.\<close>

definition task_events ::
  "service_key set \<Rightarrow> (service_key \<Rightarrow> sign_input_msg list) \<Rightarrow> service_event set" where
  "task_events A msgs = {Ev_Sign_Input a m | a m. a \<in> A \<and> m \<in> set (msgs a)}"

lemma task_votes:
  assumes "valid_config E c" "length inputs \<le> 2"
    and "\<forall>a \<in> A. \<exists>n pk. find_bitcoin_key c a = Some (n, pk) \<and> keypair_signs E (redeem_of E c) pk (sk a) \<and>
      sign_messages E (redeem_of E c) (sk a) proposal 0 inputs =
        (Ok (msgs a) :: (_, 'e chain_update_error) outcome)"
    and "finite A"
  shows "\<forall>e \<in> task_events A msgs. event_valid E c proposal inputs e"
    "\<forall>i < length inputs. card A \<le> card (event_node c ` {e \<in> task_events A msgs. event_input e = i})"
proof -
  show "\<forall>e \<in> task_events A msgs. event_valid E c proposal inputs e"
    using assms(3) task_messages(1) [OF _ _ _ assms(2)]
    by (fastforce simp: task_events_def event_valid_def)
  have "task_events A msgs = (\<Union>a \<in> A. Ev_Sign_Input a ` set (msgs a))" by (auto simp: task_events_def)
  then have fin: "finite (task_events A msgs)" using assms(4) by simp
  let ?node = "\<lambda>a. fst (the (find_bitcoin_key c a))"
  show "\<forall>i < length inputs. card A \<le> card (event_node c ` {e \<in> task_events A msgs. event_input e = i})"
  proof (intro allI impI)
    fix i assume i: "i < length inputs"
    let ?E = "{e \<in> task_events A msgs. event_input e = i}"
    have "?node a \<in> event_node c ` ?E" if a: "a \<in> A" for a
    proof -
      obtain m where "m \<in> set (msgs a)" "signed_input (a, m) = i"
        using assms(3) a i task_messages(2) [OF _ _ _ assms(2)] by blast
      with a have "Ev_Sign_Input a m \<in> ?E" by (auto simp: task_events_def event_input_def)
      then show ?thesis by (rule rev_image_eqI) (simp add: event_node_def signing_node_def)
    qed
    then have "card (?node ` A) \<le> card (event_node c ` ?E)"
      using fin by (intro card_mono) auto
    moreover have "card (?node ` A) = card A"
      by (rule card_image [OF nodes_distinct [OF assms(1)]]) (use assms(3) in auto)
    ultimately show "card A \<le> card (event_node c ` ?E)" by simp
  qed
qed

context crates
begin

lemmas round_closes = anchoring_round.count_closes

end

lemma ending_event:
  assumes "crate_laws E" "round_open E core c proposal inputs s s"
    and "V \<subseteq> set es" "\<forall>e \<in> V. event_valid E c proposal inputs e"
    and "\<forall>i < length inputs. config_byzantine_quorum E c \<le> card (event_node c ` {e \<in> V. event_input e = i})"
  obtains us e ws where "es = us @ e # ws" "open_state E c proposal inputs s (run_events E us (core, s))"
    "round_ends E proposal (run_events E us (core, s)) (execute E e (run_events E us (core, s)))"
  using crates.round_closes [OF crates.intro [OF assms(1)] _ assms(3-5), of "(core, s)" s] assms(2)
  by (simp only: fst_conv snd_conv) blast

text \<open>
  Events with valid signatures of a quorum for every input end the round: one of them either
  completes or preempts it, and until then the proposal is the current one.
\<close>

lemma votes_end_round:
  assumes "crate_laws E" "round_open E core c proposal inputs s s"
    and "V \<subseteq> set es" "\<forall>e \<in> V. event_valid E c proposal inputs e"
    and "\<forall>i < length inputs. config_byzantine_quorum E c \<le> card (event_node c ` {e \<in> V. event_input e = i})"
  shows "\<exists>us e ws core' s'. es = us @ e # ws \<and> run_events E us (core, s) = (core', s') \<and>
    actual_proposed_anchoring_transaction E core' s' = Ok (Some (proposal, inputs)) \<and>
    same_round s s' \<and>
    (round_done E proposal s (snd (run_events E (us @ [e]) (core, s))) \<or>
     round_preempted s (snd (run_events E (us @ [e]) (core, s))))"
proof -
  obtain us e ws where es: "es = us @ e # ws"
    and mid: "open_state E c proposal inputs s (run_events E us (core, s))"
    and ended: "round_ends E proposal (run_events E us (core, s)) (execute E e (run_events E us (core, s)))"
    by (rule ending_event [OF assms])
  obtain core' s' where st: "run_events E us (core, s) = (core', s')" by (cases "run_events E us (core, s)")
  have same: "same_round s s'" "actual_proposed_anchoring_transaction E core' s' = Ok (Some (proposal, inputs))"
    using mid by (simp_all add: st round_open_def)
  then have "round_done E proposal s (snd (run_events E (us @ [e]) (core, s))) \<or>
     round_preempted s (snd (run_events E (us @ [e]) (core, s)))"
    using ended by (simp add: st round_ends_def round_ends_cong)
  with es st same show ?thesis by blast
qed

text \<open>Signatures and blocks cannot preempt a round, so without other events it is completed.\<close>

fun keeps_proposal :: "service_event \<Rightarrow> bool" where
  "keeps_proposal (Ev_Sign_Input _ _) = True"
| "keeps_proposal (Ev_Block _ _) = True"
| "keeps_proposal _ = False"

lemma keeps_not_preempted:
  assumes "crate_laws E" "open_state E c proposal inputs s0 st" "keeps_proposal e"
  shows "\<not> round_preempted (snd st) (snd (execute E e st))"
proof (cases e)
  case (Ev_Sign_Input author msg)
  obtain core s where st: "st = (core, s)" by (cases st)
  have s: "round_open E core c proposal inputs s0 s" using assms(2) by (simp add: st)
  have "\<not> round_preempted s (deliver E core (author, msg) s)"
  proof (cases "valid_signature E c proposal inputs (author, msg)")
    case True
    show ?thesis
      by (rule deliver_cases [OF assms(1) s True])
        (auto simp: round_preempted_def round_done_def stored_def)
  qed (simp add: deliver_invalid [OF s] round_preempted_def)
  then show ?thesis by (simp add: Ev_Sign_Input st deliver_def)
next
  case (Ev_Block height hash)
  then show ?thesis by (cases st) (simp add: round_preempted_def)
qed (use assms(3) in simp_all)

lemma signatures_end_round:
  assumes "crate_laws E" "round_open E core c proposal inputs s s"
    and "V \<subseteq> set es" "\<forall>e \<in> V. event_valid E c proposal inputs e"
    and "\<forall>i < length inputs. config_byzantine_quorum E c \<le> card (event_node c ` {e \<in> V. event_input e = i})"
    and "\<forall>e \<in> set es. keeps_proposal e"
  obtains us ws where "es = us @ ws" "round_done E proposal s (snd (run_events E us (core, s)))"
proof -
  obtain us e ws where es: "es = us @ e # ws"
    and mid: "open_state E c proposal inputs s (run_events E us (core, s))"
    and ended: "round_ends E proposal (run_events E us (core, s)) (execute E e (run_events E us (core, s)))"
    by (rule ending_event [OF assms(1-5)])
  have same: "same_round s (snd (run_events E us (core, s)))" using mid by (simp add: round_open_def)
  have "round_done E proposal s (snd (run_events E (us @ [e]) (core, s)))"
    using ended keeps_not_preempted [OF assms(1) mid, of e] assms(6)
    by (simp add: es round_ends_def round_ends_cong [OF same])
  with that [of "us @ [e]" ws] es show thesis by simp
qed

lemma signatures_complete_round:
  assumes "crate_laws E" "round_open E core c proposal inputs s s"
    and "V \<subseteq> set es" "\<forall>e \<in> V. event_valid E c proposal inputs e"
    and "\<forall>i < length inputs. config_byzantine_quorum E c \<le> card (event_node c ` {e \<in> V. event_input e = i})"
    and "\<forall>e \<in> set es. keeps_proposal e"
  shows "\<exists>fin rest. transactions_chain (snd (run_events E es (core, s))) = transactions_chain s @ fin # rest \<and>
    strip_witness fin = strip_witness proposal"
proof -
  obtain us ws where es: "es = us @ ws" and "round_done E proposal s (snd (run_events E us (core, s)))"
    by (rule signatures_end_round [OF assms])
  then obtain fin where fin: "transactions_chain (snd (run_events E us (core, s))) = transactions_chain s @ [fin]"
    "strip_witness fin = strip_witness proposal"
    by (auto simp: round_done_def)
  have "service_inv E (core, s)" using assms(2) by (simp add: round_open_def service_inv_def)
  then have "grows (run_events E us (core, s)) (run_events E es (core, s))"
    using run_events_inv [OF assms(1)] by (simp add: es)
  with fin show ?thesis by (auto simp: grows_def)
qed

text \<open>The signing tasks of a quorum of nodes, for a proposal that nobody has signed, open a round with enough votes.\<close>

lemma task_quorum:
  assumes "crate_laws E" "reachable E from_bytes core s" "actual_config_entry s = Some c"
    and "following_config_entry s = None \<or> transactions_chain s \<noteq> []"
    and "actual_proposed_anchoring_transaction E core s = Ok (Some (proposal, inputs))"
    and "\<forall>i < length inputs. transaction_signatures s (input_key E proposal i) = None"
    and "config_byzantine_quorum E c \<le> card A"
    and "\<forall>a \<in> A. \<exists>n pk. find_bitcoin_key c a = Some (n, pk) \<and> keypair_signs E (redeem_of E c) pk (sk a) \<and>
      sign_messages E (redeem_of E c) (sk a) proposal 0 inputs =
        (Ok (msgs a) :: (_, 'e chain_update_error) outcome)"
  shows "round_open E core c proposal inputs s s"
    "\<forall>e \<in> task_events A msgs. event_valid E c proposal inputs e"
    "\<forall>i < length inputs. config_byzantine_quorum E c \<le>
       card (event_node c ` {e \<in> task_events A msgs. event_input e = i})"
proof -
  obtain inv: "core_laws core" "schema_inv E core s" and v: "valid_config E c"
    by (rule reachable_stateE [OF assms(1,2)]) (simp add: assms(3))
  show start: "round_open E core c proposal inputs s s"
    by (rule round_start [OF assms(1) inv assms(3,5,4,6)])
  note two = round_open_two [OF assms(1) start]
  have "0 < config_byzantine_quorum E c" using assms(1) v by (simp add: quorum_bounds crate_laws_def)
  then have "finite A" using assms(7) by (intro card_ge_0_finite) simp
  note votes = task_votes [OF v two assms(8) this]
  show "\<forall>e \<in> task_events A msgs. event_valid E c proposal inputs e" by (rule votes(1))
  show "\<forall>i < length inputs. config_byzantine_quorum E c \<le>
      card (event_node c ` {e \<in> task_events A msgs. event_input e = i})"
    using votes(2) by (auto intro: order_trans [OF assms(7)])
qed

text \<open>
  C6. A quorum of nodes completes the round: when the service has a proposal, nobody has signed it
  yet, and no change of address waits for the chain to be established, then any sequence of events
  that contains the \<open>sign_input\<close> transactions which the signing tasks of at least a quorum of
  anchoring nodes make for the proposal has an event that ends the round: it puts the proposal,
  signed, onto the chain, spends the funding transaction and puts a following configuration into
  force, or it is an accepted funding transaction or a configuration that replaces the proposal.
  Until then the proposal stays the current one. The order of the events, repetitions, new blocks
  and whatever other transactions are sent, by nodes or by others, cannot prevent it.
\<close>

theorem round_completes:
  assumes "crate_laws E" and "reachable E from_bytes core s"
    and "actual_config_entry s = Some c"
    and "following_config_entry s = None \<or> transactions_chain s \<noteq> []"
    and "actual_proposed_anchoring_transaction E core s = Ok (Some (proposal, inputs))"
    and "\<forall>i < length inputs. transaction_signatures s (input_key E proposal i) = None"
    and "config_byzantine_quorum E c \<le> card A"
    and "\<forall>a \<in> A. \<exists>n pk. find_bitcoin_key c a = Some (n, pk) \<and> keypair_signs E (redeem_of E c) pk (sk a) \<and>
      sign_messages E (redeem_of E c) (sk a) proposal 0 inputs =
        (Ok (msgs a) :: (_, 'e chain_update_error) outcome)"
    and "task_events A msgs \<subseteq> set es"
  shows "\<exists>us e ws core' s'. es = us @ e # ws \<and> run_events E us (core, s) = (core', s') \<and>
    actual_proposed_anchoring_transaction E core' s' = Ok (Some (proposal, inputs)) \<and>
    same_round s s' \<and>
    (round_done E proposal s (snd (run_events E (us @ [e]) (core, s))) \<or>
     round_preempted s (snd (run_events E (us @ [e]) (core, s))))"
proof -
  note quorum = task_quorum [OF assms(1-8)]
  show ?thesis by (rule votes_end_round [OF assms(1) quorum(1) assms(9) quorum(2,3)])
qed

text \<open>
  In the witness both nodes sign, one of them twice, while a stranger sends a message of its own, the
  blockchain grows, and a node sends a signature for an input that does not exist.
\<close>

definition duo_msg :: "nat \<Rightarrow> sign_input_msg" where
  "duo_msg i = \<lparr>si_txid = tx_id (ref_env False) duo_proposal, si_input = 0,
     si_input_signature = ref_signature i 0\<rparr>"

definition duo_events :: "service_event list" where
  "duo_events = [Ev_Sign_Input (Service_Key 7) (duo_msg 7), Ev_Sign_Input (Service_Key 1) (duo_msg 1),
     Ev_Block 13 (Hash 99), Ev_Sign_Input (Service_Key 0) ((duo_msg 0)\<lparr>si_input := 5\<rparr>),
     Ev_Sign_Input (Service_Key 1) (duo_msg 1), Ev_Sign_Input (Service_Key 0) (duo_msg 0)]"

lemma duo_tasks:
  "\<forall>a \<in> {Service_Key 0, Service_Key 1}. \<exists>n pk. find_bitcoin_key (sample_config 2) a = Some (n, pk) \<and>
     keypair_signs (ref_env False) (redeem_of (ref_env False) (sample_config 2)) pk
       (Btc_Private_Key (case a of Service_Key i \<Rightarrow> i)) \<and>
     sign_messages (ref_env False) (redeem_of (ref_env False) (sample_config 2))
       (Btc_Private_Key (case a of Service_Key i \<Rightarrow> i)) duo_proposal 0 [duo_fund] =
       (Ok [duo_msg (case a of Service_Key i \<Rightarrow> i)] :: (_, unit chain_update_error) outcome)"
  using duo_keys [of 0] duo_keys [of 1] ref_keypair by (simp add: ref_sign_input_with_def duo_msg_def)

theorem round_completes_witness:
  "\<exists>us e ws. duo_events = us @ e # ws \<and>
     (round_done (ref_env False) duo_proposal duo_funded
        (snd (run_events (ref_env False) (us @ [e]) (sample_core, duo_funded))) \<or>
      round_preempted duo_funded
        (snd (run_events (ref_env False) (us @ [e]) (sample_core, duo_funded))))"
proof -
  have "following_config_entry duo_funded = None \<or> transactions_chain duo_funded \<noteq> []"
    and "\<forall>i < length [duo_fund].
      transaction_signatures duo_funded (input_key (ref_env False) duo_proposal i) = None"
    and "config_byzantine_quorum (ref_env False) (sample_config 2) \<le>
      card {Service_Key 0, Service_Key 1}"
    by (simp_all add: duo_simps duo_quorum)
  note hyps = this
  have "task_events {Service_Key 0, Service_Key 1} (\<lambda>a. [duo_msg (case a of Service_Key i \<Rightarrow> i)]) \<subseteq>
      set duo_events"
    by (auto simp: task_events_def duo_events_def)
  from round_completes [OF ref_crate_laws duo_reachable(2) duo_simps(3) hyps(1) duo_proposed hyps(2,3)
      duo_tasks this]
  show ?thesis by blast
qed

end
