(* ===== verification/Address_Change.thy ===== *)
theory Address_Change
  imports Anchoring_Round
begin

text \<open>
  A change of the anchoring address on an established chain, across the supervisor's configuration,
  the transition transaction and the signing tasks (\<open>apply_config\<close> of \<open>src/service.rs\<close>, the transition
  state of \<open>src/blockchain/mod.rs\<close>, \<open>push_anchoring_transaction\<close> of \<open>src/blockchain/schema.rs\<close>).
\<close>

section \<open>The configuration along signatures and blocks\<close>

lemma sign_input_keeps_config:
  assumes "crate_laws E" "core_laws core" "schema_inv E core s" "actual_config_entry s = Some c"
    and "following_config_entry s = None" "for_core ctx = core" "sign_input E ctx s msg = Ok s'"
  shows "actual_config_entry s' = Some c \<and> following_config_entry s' = None"
proof (cases "transactions_chain s' = transactions_chain s")
  case True
  then show ?thesis
    by (rule sign_input_sameE [OF assms(1-4,6,7)]) (use assms(4,5) in simp_all)
next
  case False
  then show ?thesis
    by (rule sign_input_finalizedE [OF assms(1-4,6,7)]) (use assms(4,5) in \<open>simp add: pushed_def\<close>)
qed

text \<open>Without a following configuration, signatures and blocks leave the actual one in force.\<close>

lemma run_events_keep_config:
  assumes "crate_laws E" "service_inv E st" "\<forall>e \<in> set es. keeps_proposal e"
    and "actual_config_entry (snd st) = Some c" "following_config_entry (snd st) = None"
  shows "actual_config_entry (snd (run_events E es st)) = Some c \<and>
    following_config_entry (snd (run_events E es st)) = None"
  using assms(2-)
proof (induction es arbitrary: st)
  case Nil
  then show ?case by simp
next
  case (Cons e es)
  obtain core s where st: "st = (core, s)" by (cases st)
  have inv: "core_laws core" "schema_inv E core s" using Cons.prems(1) by (simp_all add: st service_inv_def)
  have "actual_config_entry (snd (execute E e st)) = Some c \<and>
      following_config_entry (snd (execute E e st)) = None"
  proof (cases e)
    case (Ev_Sign_Input a msg)
    then show ?thesis
      using Cons.prems(3,4) sign_input_keeps_config [OF assms(1) inv, of c "node_context core a" msg]
      by (cases "sign_input E (node_context core a) s msg") (simp_all add: st)
  qed (use Cons.prems(2-4) in \<open>simp_all add: st\<close>)
  with Cons.IH [OF execute_inv(1) [OF assms(1) Cons.prems(1)]] Cons.prems(2) show ?case by simp
qed

section \<open>The transition\<close>

text \<open>A configuration with another output script becomes the following one.\<close>

lemma configure_other_address:
  assumes "crate_laws E" "schema_inv E core s" "actual_config_entry s = Some c" "valid_config E c'"
    and "out_script_of E c' \<noteq> out_script_of E c"
  shows "execute E (Ev_Configure c') (core, s) = (core, s\<lparr>following_config_entry := Some c'\<rparr>)"
    "in_transition E (s\<lparr>following_config_entry := Some c'\<rparr>) c"
proof -
  have v: "valid_config E c" using assms(2,3) by (simp add: schema_inv_def configs_ok_def)
  have "p2wsh_laws E" using assms(1) by (simp add: crate_laws_def)
  then have "p2wsh_address E (redeem_of E c) (network c) \<noteq> p2wsh_address E (redeem_of E c') (network c')"
    using assms(5) unfolding p2wsh_laws_def out_script_of_def by metis
  then show "execute E (Ev_Configure c') (core, s) = (core, s\<lparr>following_config_entry := Some c'\<rparr>)"
    using assms(4)
    by (simp add: verify_config_def apply_config_def supervisor_context_def actual_config_def assms(3)
        valid_config_scripts [OF v] valid_config_scripts [OF assms(4)] valid_config_def)
  show "in_transition E (s\<lparr>following_config_entry := Some c'\<rparr>) c"
    using assms(5) by (auto simp: in_transition_def out_script_of_def)
qed

text \<open>The transition transaction anchors the latest anchored block again, at the new address.\<close>

lemma transition_proposal:
  assumes "crate_laws E" "core_laws core" "schema_inv E core s" "actual_config_entry s = Some c"
    and "following_config_entry s = Some c'" "transactions_chain s \<noteq> []" "in_transition E s c"
    and "actual_proposed_anchoring_transaction E core s = Ok (Some (proposal, inputs))"
  shows "\<exists>h p. latest_anchored_height E s = (Ok (Some h) :: (_, 'e) outcome) \<and>
    anchoring_metadata E proposal = (Ok (Some (out_script_of E c', p)) :: (_, 'e) outcome) \<and>
    block_height p = h"
proof -
  have hl: "hash_laws E" using assms(1) by (simp add: crate_laws_def)
  have "proposal_tx E core s c proposal"
    by (rule proposal_is_proposal_tx(1) [OF assms(1-4,8)])
  then have "anchoring_metadata E proposal =
      (Ok (Some (out_script_of E c', anchored E proposal)) :: (_, 'e) outcome)"
    and "block_height (anchored E proposal) = block_height (anchored E (last (transactions_chain s)))"
    using assms(5-7)
    by (auto simp: proposal_tx_def anchors_block_def anchored_def anchoring_metadata_eq [OF hl]
        target_config_def proposal_height_def Let_def)
  then show ?thesis
    using latest_anchored_height_eq [OF hl assms(3)] assms(6) by (simp add: last_opt_def)
qed

text \<open>
  C16. A change of address completes: on an established chain, a valid configuration with another
  output script leaves the actual configuration in force until the chain is moved. The proposal is
  then the transition transaction: it pays to the new address and anchors the latest anchored block
  again. When nobody has signed it yet and the signatures that the tasks of a quorum of the old nodes
  make for it are executed, in any order and among any other signatures and new blocks, the
  transaction is on the chain, the new configuration is the actual one and no configuration waits.
\<close>

theorem address_change_completes:
  assumes "crate_laws E" and "reachable E from_bytes core s"
    and "actual_config_entry s = Some c" and "transactions_chain s \<noteq> []"
    and "validate E c' = Ok ()" and "out_script_of E c' \<noteq> out_script_of E c"
    and "execute E (Ev_Configure c') (core, s) = (core, t)"
    and "actual_proposed_anchoring_transaction E core t = Ok (Some (proposal, inputs))"
    and "\<forall>i < length inputs. transaction_signatures s (input_key E proposal i) = None"
    and "config_byzantine_quorum E c \<le> card A"
    and "\<forall>a \<in> A. \<exists>n pk. find_bitcoin_key c a = Some (n, pk) \<and> keypair_signs E (redeem_of E c) pk (sk a) \<and>
      sign_messages E (redeem_of E c) (sk a) proposal 0 inputs =
        (Ok (msgs a) :: (_, 'e chain_update_error) outcome)"
    and "task_events A msgs \<subseteq> set es" and "\<forall>e \<in> set es. keeps_proposal e"
  shows "actual_config_entry t = Some c \<and> following_config_entry t = Some c' \<and>
    (\<exists>h p. latest_anchored_height E s = (Ok (Some h) :: (_, 'e) outcome) \<and>
      anchoring_metadata E proposal = (Ok (Some (out_script_of E c', p)) :: (_, 'e) outcome) \<and>
      block_height p = h) \<and>
    (\<exists>fin rest. transactions_chain (snd (run_events E es (core, t))) = transactions_chain s @ fin # rest \<and>
      strip_witness fin = strip_witness proposal) \<and>
    actual_config_entry (snd (run_events E es (core, t))) = Some c' \<and>
    following_config_entry (snd (run_events E es (core, t))) = None"
proof -
  obtain inv: "core_laws core" "schema_inv E core s"
    by (rule reachable_stateE [OF assms(1,2)])
  have v': "valid_config E c'" using assms(5) by (simp add: valid_config_def)
  note conf = configure_other_address [OF assms(1) inv(2) assms(3) v' assms(6)]
  have t: "t = s\<lparr>following_config_entry := Some c'\<rparr>" using assms(7) conf(1) by simp
  have reach: "reachable E from_bytes core t"
    using reachable_run_events [OF assms(1,2), of "[Ev_Configure c']"] assms(7) by simp
  obtain tinv: "schema_inv E core t" by (rule reachable_stateE [OF assms(1) reach])
  have tc: "actual_config_entry t = Some c" "following_config_entry t = Some c'"
    "transactions_chain t = transactions_chain s" "in_transition E t c"
    using assms(3) conf(2) by (simp_all add: t)
  have "latest_anchored_height E t = (latest_anchored_height E s :: (_, 'e) outcome)"
    by (simp add: latest_anchored_height_def t)
  then have again: "\<exists>h p. latest_anchored_height E s = (Ok (Some h) :: (_, 'e) outcome) \<and>
      anchoring_metadata E proposal = (Ok (Some (out_script_of E c', p)) :: (_, 'e) outcome) \<and>
      block_height p = h"
    using transition_proposal [where 'e = 'e, OF assms(1) inv(1) tinv tc(1,2) _ tc(4) assms(8)] tc(3) assms(4)
    by simp
  have chain: "following_config_entry t = None \<or> transactions_chain t \<noteq> []" using tc(3) assms(4) by simp
  have unsigned: "\<forall>i < length inputs. transaction_signatures t (input_key E proposal i) = None"
    using assms(9) by (simp add: t)
  note quorum = task_quorum [OF assms(1) reach tc(1) chain assms(8) unsigned assms(10,11)]
  obtain us ws where es: "es = us @ ws" and moved: "round_done E proposal t (snd (run_events E us (core, t)))"
    by (rule signatures_end_round [OF assms(1) quorum(1) assms(12) quorum(2,3) assms(13)])
  have sinv: "service_inv E (core, t)" using inv(1) tinv by (simp add: service_inv_def)
  have "actual_config_entry (snd (run_events E us (core, t))) = Some c'"
    "following_config_entry (snd (run_events E us (core, t))) = None"
    using moved tc(2) by (simp_all add: round_done_def)
  then have "actual_config_entry (snd (run_events E es (core, t))) = Some c' \<and>
      following_config_entry (snd (run_events E es (core, t))) = None"
    using run_events_keep_config [OF assms(1) run_events_inv(1) [OF assms(1) sinv], of ws us c'] assms(13)
    by (simp add: es)
  moreover have "\<exists>fin rest. transactions_chain (snd (run_events E es (core, t))) =
      transactions_chain s @ fin # rest \<and> strip_witness fin = strip_witness proposal"
    using signatures_complete_round [OF assms(1) quorum(1) assms(12) quorum(2,3) assms(13)] tc(3) by simp
  ultimately show ?thesis using tc(1,2) again by blast
qed

text \<open>In the witness a second node joins the single one after the first anchoring transaction.\<close>

definition joining :: schema where
  "joining = sample_anchored\<lparr>following_config_entry := Some (sample_config 2)\<rparr>"

definition joining_proposal :: transaction where
  "joining_proposal = draft_tx (ref_env False)
     (proposal_builder (ref_env False) joining solo_config 0 (Hash 0))
     \<lparr>block_height = 0, block_hash = Hash 0, prev_tx_chain = None\<rparr> 1940"

lemma joining_step: "execute (ref_env False) (Ev_Configure (sample_config 2)) (sample_core, sample_anchored) =
    (sample_core, joining)"
  "in_transition (ref_env False) joining solo_config"
  using configure_other_address [OF ref_crate_laws sample_anchored_inv sample_anchored_simps(1) moving_valid
      moving_scripts]
  by (simp_all add: joining_def)

lemma joining_inv: "schema_inv (ref_env False) sample_core joining"
proof -
  have "reachable (ref_env False) sample_decoder sample_core joining"
    using reachable_run_events [OF ref_crate_laws sample_run(3), of "[Ev_Configure (sample_config 2)]"]
    by (simp add: joining_step(1) del: execute.simps)
  then show ?thesis by (rule reachable_stateE [OF ref_crate_laws])
qed

lemma joining_builder:
  "builder_sources (proposal_builder (ref_env False) joining solo_config h hash) = [(0, sample_final_tx)]"
  "builder_output (proposal_builder (ref_env False) joining solo_config h hash) =
     out_script_of (ref_env False) (sample_config 2)"
  using joining_step(2)
  by (simp_all add: proposal_builder_sources proposal_builder_output target_config_def)
    (simp_all add: joining_def sample_anchored_simps)

lemma joining_proposed:
  "actual_proposed_anchoring_transaction (ref_env False) sample_core joining =
     Ok (Some (joining_proposal, [sample_final_tx]))"
proof -
  let ?b = "proposal_builder (ref_env False) joining solo_config 0 (Hash 0)"
  have b: "builder_payload ?b = Some (0, Hash 0)" "builder_fee ?b = Some 10" "builder_recovery_tx ?b = None"
    by (simp_all add: proposal_builder_def solo_config_def sample_config_def)
  have size: "size_of_tx (ref_env False) (draft_tx (ref_env False) ?b
      \<lparr>block_height = 0, block_hash = Hash 0, prev_tx_chain = None\<rparr> bal) = 153" for bal
    by (subst ref_draft_size)
      (simp_all add: joining_builder out_script_of_def moving_redeem ref_to_v0_p2wsh_def)
  have "create (ref_env False) ?b = Ok (joining_proposal, [sample_final_tx])"
    by (simp add: create_eq [OF ref_crate_laws b(1,2) refl] joining_builder(1) index_at_def get_nth_def
        sample_final_output add_u64_def b(3) size mul_u64_def joining_proposal_def)
  moreover have "anchored (ref_env False) sample_final_tx =
      \<lparr>block_height = 0, block_hash = Hash 0, prev_tx_chain = None\<rparr>"
    using solo_metadata [OF sample_funded_simps(2), of 0 3470]
    by (simp add: anchored_def sample_final_tx_def sample_proposal_def)
  moreover have c: "actual_config_entry joining = Some solo_config" "transactions_chain joining = [sample_final_tx]"
    "following_config_entry joining = Some (sample_config 2)"
    by (simp_all add: joining_def sample_anchored_simps)
  ultimately show ?thesis
    using joining_step(2) moving_scripts
    by (simp add: actual_proposed_eq [OF ref_crate_laws sample_core_laws joining_inv c(1)] sample_core_def
        transition_stuck_def proposal_height_def)
qed

lemma joining_unsigned:
  "transaction_signatures sample_anchored (input_key (ref_env False) joining_proposal 0) = None"
proof -
  have "tx_id (ref_env False) joining_proposal = (case tx_id (ref_env False) sample_final_tx of Sha256d w \<Rightarrow>
      Sha256d (((((((7 * 31 + w) * 31) * 31 + 1940) * 31 + 34) * 31) * 31) + 50))"
    by (simp add: tx_id_def joining_proposal_def ref_txid_def joining_builder ref_out_point_words_def
        funding_txin_def length_payload_bytes ref_op_return_script_def out_script_of_def moving_redeem
        ref_to_v0_p2wsh_def split: sha256d.split)
  then have "tx_id (ref_env False) joining_proposal \<noteq> tx_id (ref_env False) sample_proposal"
    by (simp add: sample_txids(1) sample_chain_ids(1))
  then show ?thesis
    by (simp add: sample_anchored_simps input_key_def signed_key_def solo_msg_def tx_input_id_new_def)
qed

theorem address_change_completes_witness:
  "(\<exists>fin rest. transactions_chain (snd (run_events (ref_env False)
        [Ev_Block 13 (Hash 99), Ev_Sign_Input (Service_Key 0) (solo_msg joining_proposal)]
        (sample_core, joining))) = sample_final_tx # fin # rest \<and>
      strip_witness fin = strip_witness joining_proposal) \<and>
   actual_config_entry (snd (run_events (ref_env False)
     [Ev_Block 13 (Hash 99), Ev_Sign_Input (Service_Key 0) (solo_msg joining_proposal)]
     (sample_core, joining))) = Some (sample_config 2)"
proof -
  let ?es = "[Ev_Block 13 (Hash 99), Ev_Sign_Input (Service_Key 0) (solo_msg joining_proposal)]"
  have tasks: "\<forall>a \<in> {Service_Key 0}. \<exists>n pk. find_bitcoin_key solo_config a = Some (n, pk) \<and>
      keypair_signs (ref_env False) (redeem_of (ref_env False) solo_config) pk (Btc_Private_Key 0) \<and>
      sign_messages (ref_env False) (redeem_of (ref_env False) solo_config) (Btc_Private_Key 0)
        joining_proposal 0 [sample_final_tx] =
        (Ok [solo_msg joining_proposal] :: (_, unit chain_update_error) outcome)"
    using sample_key ref_keypair by (simp add: ref_sign_input_with_def solo_msg_def)
  have "validate (ref_env False) (sample_config 2) = Ok ()" using moving_valid by (simp add: valid_config_def)
  moreover have "\<forall>i < length [sample_final_tx]. transaction_signatures sample_anchored
      (input_key (ref_env False) joining_proposal i) = None" using joining_unsigned by simp
  moreover have "task_events {Service_Key 0} (\<lambda>_. [solo_msg joining_proposal]) \<subseteq> set ?es"
    by (auto simp: task_events_def)
  ultimately show ?thesis
    using address_change_completes [OF ref_crate_laws sample_run(3) sample_anchored_simps(1) _ _ moving_scripts
        joining_step(1) joining_proposed _ _ tasks, of ?es]
    by (simp add: sample_anchored_simps(3) sample_quorum)
qed

end
