(* ===== verification/Sync_Utility.thy ===== *)
theory Sync_Utility
  imports Sync_Properties
begin

text \<open>
  The loop of the synchronisation utility, \<open>RunCommand::run\<close> of \<open>examples/btc_anchoring_sync.rs\<close>:
  each round signs the current proposal and sends one transaction of the chain to the Bitcoin network,
  then sleeps. The loop has no end of its own, so the model runs a given number of rounds; the pause
  at the end of a round is a function \<open>delay\<close> on the world, in which the node and the network go on.
\<close>

section \<open>One round\<close>

datatype run_error =
    Run_Chain_Internal chain_internal_error
  | Run_Sync_Internal u64
  | Run_Unconfirmed_Funding sha256d

definition round_sync ::
  "env \<Rightarrow> ('w, 'c, 'r) sync_task option \<Rightarrow> ('w \<Rightarrow> 'w) \<Rightarrow> u64 option \<Rightarrow> ('w, u64 option, run_error) io" where
  "round_sync E bitcoin_relay delay latest w =
     (case bitcoin_relay of
        None \<Rightarrow> (Ok latest, delay w)
      | Some relay \<Rightarrow>
          (case sync_process E relay latest w of
             (Ok index, w') \<Rightarrow> (Ok index, delay w')
           | (Err (Sync_Client e), w') \<Rightarrow> (Ok latest, delay w')
           | (Err (Sync_Relay e), w') \<Rightarrow> (Ok latest, delay w')
           | (Err (Sync_UnconfirmedFundingTransaction txid), w') \<Rightarrow>
               (Err (Run_Unconfirmed_Funding txid), w')
           | (Err (Sync_Internal i), w') \<Rightarrow> (Err (Run_Sync_Internal i), w')
           | (Panic p, w') \<Rightarrow> (Panic p, w')))"

text \<open>The address is only computed for a message; the early \<open>continue\<close> also skips the pause.\<close>

definition run_round ::
  "env \<Rightarrow> ('w, 'c) chain_update_task \<Rightarrow> ('w, 'c, 'r) sync_task option \<Rightarrow> ('w \<Rightarrow> 'w) \<Rightarrow>
     u64 option \<Rightarrow> ('w, u64 option, run_error) io" where
  "run_round E chain_updater bitcoin_relay delay latest w =
     (case chain_update_process E chain_updater w of
        (Ok _, w') \<Rightarrow> round_sync E bitcoin_relay delay latest w'
      | (Err (Chain_Client e), w') \<Rightarrow> round_sync E bitcoin_relay delay latest w'
      | (Err (Chain_InsufficientFunds total_fee balance), w') \<Rightarrow>
          round_sync E bitcoin_relay delay latest w'
      | (Err Chain_NoInitialFunds, w') \<Rightarrow>
          (case anchoring_config chain_updater w' of
             (Inl e, w'') \<Rightarrow> (Ok latest, w'')
           | (Inr config, w'') \<Rightarrow>
               bind_io (lift_io (anchoring_address E config)) (\<lambda>_.
               round_sync E bitcoin_relay delay latest) w'')
      | (Err (Chain_Internal e), w') \<Rightarrow> (Err (Run_Chain_Internal e), w')
      | (Panic p, w') \<Rightarrow> (Panic p, w'))"

fun run_rounds ::
  "env \<Rightarrow> ('w, 'c) chain_update_task \<Rightarrow> ('w, 'c, 'r) sync_task option \<Rightarrow> ('w \<Rightarrow> 'w) \<Rightarrow>
     nat \<Rightarrow> u64 option \<Rightarrow> ('w, u64 option, run_error) io" where
  "run_rounds E chain_updater bitcoin_relay delay 0 latest = lift_io (Ok latest)"
| "run_rounds E chain_updater bitcoin_relay delay (Suc n) latest =
     bind_io (run_round E chain_updater bitcoin_relay delay latest) (\<lambda>latest.
     run_rounds E chain_updater bitcoin_relay delay n latest)"

section \<open>Signing changes nothing but the broadcasts\<close>

lemma sign_messages_Err:
  assumes "sign_messages E signer key proposal index inputs = Err e"
  shows "\<exists>l. e = Chain_Internal (Signing_Failed l)"
  using assms
  by (induction inputs arbitrary: index) (auto simp: outcome_simps)

lemma sign_messages_not_Panic [simp]: "sign_messages E signer key proposal index inputs \<noteq> Panic p"
  by (induction inputs arbitrary: index) (auto simp: outcome_simps)

lemma send_messages_frame:
  "\<exists>r bs. send_messages (node_client E) msgs w = (r, w\<lparr>sw_broadcast := bs\<rparr>) \<and>
     (r = Ok () \<or> (\<exists>e. r = Err (Chain_Client e)))"
proof (induction msgs arbitrary: w)
  case Nil
  show ?case by (rule exI [of _ "Ok ()"], rule exI [of _ "sw_broadcast w"]) (simp add: io_simps)
next
  case (Cons msg msgs)
  obtain a bs where send: "api_sign_input E (sw_api w) msg = (a, bs)" by fastforce
  let ?w = "w\<lparr>sw_broadcast := sw_broadcast w @ bs\<rparr>"
  have call: "pa_sign_input (node_client E) msg w = (client_result a, ?w)"
    by (simp add: node_client_def send)
  show ?case
  proof (cases "client_result a")
    case (Inl e)
    then have "send_messages (node_client E) (msg # msgs) w = (Err (Chain_Client e), ?w)"
      using call by (simp add: io_simps)
    then show ?thesis by blast
  next
    case (Inr h)
    then have "send_messages (node_client E) (msg # msgs) w = send_messages (node_client E) msgs ?w"
      using call by (simp add: io_simps)
    then show ?thesis using Cons.IH [of ?w] by auto
  qed
qed

text \<open>
  A run of the signing task against a node in a reachable state: the node's state and the network
  stay as they are, and the only error that ends the utility is a failure to sign.
\<close>

definition chain_update_ends :: "(unit, 'c chain_update_error) outcome \<Rightarrow> bool" where
  "chain_update_ends r \<longleftrightarrow> (\<exists>p. r = Panic p) \<or> (\<exists>tx. r = Err (Chain_Internal (Incorrect_Proposal tx)))"

lemma proposal_has_payload:
  assumes "crate_laws E" "reachable E from_bytes core s"
    and "actual_proposed_anchoring_transaction E core s = Ok (Some (tx, inputs))"
  obtains p where "anchoring_payload E tx = (Ok (Some p) :: (_, 'e) outcome)"
proof -
  obtain c where inv: "core_laws core" "schema_inv E core s" "actual_config_entry s = Some c"
    by (rule reachable_stateE [OF assms(1,2)])
  have hl: "hash_laws E" using assms(1) by (simp add: crate_laws_def)
  have "anchors_block E core tx"
    using proposal_is_proposal_tx(1) [OF assms(1) inv assms(3)] by (simp add: proposal_tx_def)
  then show ?thesis
    using that by (auto simp: anchors_block_def anchoring_payload_eq [OF hl] tx_metadata_def)
qed

lemma handle_proposal_frame:
  assumes "crate_laws E" "valid_config E c"
    and payload: "anchoring_payload E tx =
      (Ok (Some p) :: (_, api_error option chain_update_error) outcome)"
  shows "\<exists>r bs. handle_proposal E (chain_update_new keys (node_client E)) c tx inputs w =
      (r, w\<lparr>sw_broadcast := bs\<rparr>) \<and> \<not> chain_update_ends r"
proof (cases "find_private_key (chain_update_new keys (node_client E) :: ('a sync_world, _) chain_update_task)
    (map bitcoin_key (anchoring_keys c))")
  case None
  then show ?thesis
    by (intro exI [of _ "Ok ()"] exI [of _ "sw_broadcast w"])
      (simp add: handle_proposal_def io_simps chain_update_ends_def)
next
  case (Some keypair)
  let ?sign = "sign_messages E (redeem_of E c) (snd keypair) tx 0 inputs ::
    (_, api_error option chain_update_error) outcome"
  have eq: "handle_proposal E (chain_update_new keys (node_client E)) c tx inputs w =
      bind_io (lift_io ?sign) (send_messages (node_client E)) w"
    by (simp add: handle_proposal_def Some io_simps valid_config_scripts [OF assms(2)] payload)
      (simp add: chain_update_new_def)
  show ?thesis
  proof (cases ?sign)
    case (Ok msgs)
    obtain r bs where "send_messages (node_client E) msgs w = (r, w\<lparr>sw_broadcast := bs\<rparr>)"
      "r = Ok () \<or> (\<exists>e. r = Err (Chain_Client e))" using send_messages_frame by blast
    then show ?thesis
      unfolding eq Ok by (auto simp: io_simps chain_update_ends_def)
  next
    case (Err e)
    then show ?thesis
      using sign_messages_Err [OF Err]
      by (intro exI [of _ "Err e"] exI [of _ "sw_broadcast w"])
        (auto simp: eq io_simps chain_update_ends_def)
  qed simp
qed

lemma node_config:
  assumes "actual_config_entry (api_schema (sw_api w)) = Some c"
  shows "anchoring_config (chain_update_new keys (node_client E)) w = (Inr c, w)"
  by (simp add: anchoring_config_def chain_update_new_def)
    (simp add: node_client_def api_config_def api_actual_config_def actual_config_def assms
      client_result_def)

lemma node_proposal:
  "pa_anchoring_proposal (update_client (chain_update_new keys (node_client E))) w =
     (client_result (api_anchoring_proposal E (sw_api w)), w)"
  by (simp add: chain_update_new_def) (simp add: node_client_def)

lemma try_from_proposal_Available:
  "try_from_proposal r = Ok (Proposal_Available tx inputs) \<longleftrightarrow> r = Ok (Some (tx, inputs))"
  by (auto simp: try_from_proposal_def split: outcome.splits option.splits builder_error.splits)

lemma chain_update_frame:
  assumes "crate_laws E" and "reachable E from_bytes (api_core (sw_api w)) (api_schema (sw_api w))"
  shows "\<exists>r bs. chain_update_process E (chain_update_new keys (node_client E)) w =
      (r, w\<lparr>sw_broadcast := bs\<rparr>) \<and> \<not> chain_update_ends r"
proof -
  let ?T = "chain_update_new keys (node_client E) :: ('a sync_world, _) chain_update_task"
  obtain c where c: "actual_config_entry (api_schema (sw_api w)) = Some c" and v: "valid_config E c"
    by (rule reachable_stateE [OF assms])
  have idle: ?thesis if "chain_update_process E ?T w = (r, w)" "\<not> chain_update_ends r" for r
    using that by (intro exI [of _ r] exI [of _ "sw_broadcast w"]) simp
  show ?thesis
  proof (cases "client_result (api_anchoring_proposal E (sw_api w))")
    case (Inl e)
    then show ?thesis
      by (intro idle [of "Err (Chain_Client e)"])
        (simp_all add: chain_update_process_def node_proposal io_simps chain_update_ends_def)
  next
    case (Inr st)
    then have st: "api_anchoring_proposal E (sw_api w) = Ok st"
      by (auto simp: client_result_def split: outcome.splits)
    show ?thesis
    proof (cases st)
      case (Proposal_Available tx inputs)
      then have proposed: "actual_proposed_anchoring_transaction E (api_core (sw_api w))
          (api_schema (sw_api w)) = Ok (Some (tx, inputs))"
        using st by (simp add: api_anchoring_proposal_def try_from_proposal_Available)
      obtain p where p: "anchoring_payload E tx =
          (Ok (Some p) :: (_, api_error option chain_update_error) outcome)"
        by (rule proposal_has_payload [OF assms proposed])
      have "chain_update_process E ?T w = handle_proposal E ?T c tx inputs w"
        by (simp add: chain_update_process_def node_proposal Inr Proposal_Available io_simps
            node_config [where keys = keys and E = E, OF c])
      then show ?thesis using handle_proposal_frame [OF assms(1) v p] by metis
    next
      case Proposal_None
      then show ?thesis
        by (intro idle [of "Ok ()"])
          (simp_all add: chain_update_process_def node_proposal Inr io_simps chain_update_ends_def)
    next
      case (Proposal_InsufficientFunds total_fee balance)
      then show ?thesis
        by (intro idle [of "Err (Chain_InsufficientFunds total_fee balance)"])
          (simp_all add: chain_update_process_def node_proposal Inr io_simps chain_update_ends_def)
    next
      case Proposal_NoInitialFunds
      then show ?thesis
        by (intro idle [of "Err Chain_NoInitialFunds"])
          (simp_all add: chain_update_process_def node_proposal Inr io_simps chain_update_ends_def)
    qed
  qed
qed

section \<open>The rounds against a node\<close>

definition node_state :: "'n sync_world \<Rightarrow> service_state" where
  "node_state w = (api_core (sw_api w), api_schema (sw_api w))"

definition node_ok :: "env \<Rightarrow> (bytes \<Rightarrow> lib_error + config) \<Rightarrow> 'n sync_world \<Rightarrow> bool" where
  "node_ok E from_bytes w \<longleftrightarrow> reachable E from_bytes (api_core (sw_api w)) (api_schema (sw_api w)) \<and>
     length (node_chain w) < 2 ^ 64"

definition latest_ok :: "u64 option \<Rightarrow> 'n sync_world \<Rightarrow> bool" where
  "latest_ok latest w \<longleftrightarrow> (\<forall>i. latest = Some i \<longrightarrow> unat i < length (node_chain w))"

lemma node_ok_broadcast [simp]:
  "node_ok E from_bytes (w\<lparr>sw_broadcast := bs\<rparr>) = node_ok E from_bytes w"
  "node_chain (w\<lparr>sw_broadcast := bs\<rparr>) = node_chain w"
  "latest_ok latest (w\<lparr>sw_broadcast := bs\<rparr>) = latest_ok latest w"
  by (simp_all add: node_ok_def node_chain_def latest_ok_def)

text \<open>
  The world of the utility: the relay answers, sending a transaction does not touch the node, and
  during the pause the node executes steps of the service; the chain never gets to \<open>2 ^ 64\<close>
  transactions.
\<close>

locale utility_world = status_relay relay status
  for relay :: "('n sync_world, 'r) bitcoin_relay"
    and status :: "'n sync_world \<Rightarrow> sha256d \<Rightarrow> transaction_status" +
  fixes E :: env and from_bytes :: "bytes \<Rightarrow> lib_error + config"
    and delay :: "'n sync_world \<Rightarrow> 'n sync_world"
  assumes laws: "crate_laws E"
    and send_node: "sw_api (snd (send_transaction relay tx w)) = sw_api w"
    and delay_steps: "(service_step E)\<^sup>*\<^sup>* (node_state w) (node_state (delay w))"
    and delay_short: "length (node_chain w) < 2 ^ 64 \<Longrightarrow> length (node_chain (delay w)) < 2 ^ 64"

sublocale utility_world \<subseteq> sync: chain_sync "node_client E" node_chain relay status
  by unfold_locales

context utility_world
begin

abbreviation ok :: "'n sync_world \<Rightarrow> bool" where
  "ok \<equiv> node_ok E from_bytes"

abbreviation task :: "('n sync_world, api_error option, 'r) sync_task" where
  "task \<equiv> sync_new relay (node_client E)"

lemma node_ok_delay:
  assumes "ok w"
  shows "ok (delay w)" "latest_ok latest w \<Longrightarrow> latest_ok latest (delay w)"
proof -
  have r: "reachable E from_bytes (api_core (sw_api w)) (api_schema (sw_api w))"
    using assms by (simp add: node_ok_def)
  have "grows (node_state w) (node_state (delay w))"
    and "reachable E from_bytes (api_core (sw_api (delay w))) (api_schema (sw_api (delay w)))"
    using crates.reachable_grows [OF crates.intro, OF laws r] delay_steps [of w]
    by (simp_all add: node_state_def)
  then show "ok (delay w)" "latest_ok latest w \<Longrightarrow> latest_ok latest (delay w)"
    using assms delay_short
    by (auto simp: node_ok_def latest_ok_def grows_def node_state_def node_chain_def)
qed

lemma node_ok_send:
  assumes "send_transaction relay tx w = (r, w')"
  shows "ok w' = ok w" "latest_ok latest w' = latest_ok latest w" "node_chain w' = node_chain w"
  using send_node [of tx w] assms by (simp_all add: node_ok_def latest_ok_def node_chain_def)

lemma linked_node: "ok w \<Longrightarrow> linked E (node_chain w)"
  using reachable_linked [OF laws] by (auto simp: node_ok_def node_chain_def)

text \<open>What is left of a run that keeps going, and why it may end.\<close>

definition fine :: "(u64 option, run_error) outcome \<times> 'n sync_world \<Rightarrow> bool" where
  "fine rw \<longleftrightarrow>
     (case rw of
        (Ok latest, w) \<Rightarrow> ok w \<and> latest_ok latest w
      | (Err (Run_Chain_Internal (Signing_Failed e)), w) \<Rightarrow> True
      | (Err (Run_Unconfirmed_Funding txid), w) \<Rightarrow>
          node_chain w \<noteq> [] \<and> (\<forall>tx \<in> set (node_chain w). \<not> is_known (status w (tx_id E tx))) \<and>
          txid = funding_txid (node_chain w) \<and> confirmations (status w txid) = None
      | _ \<Rightarrow> False)"

lemma round_sync_fine:
  assumes "ok w" "latest_ok latest w"
  shows "fine (round_sync E (Some task) delay latest w)"
proof -
  let ?step = "sync_process E task latest w"
  note go = node_ok_delay [OF assms(1)]
  consider (idle) "?step = (Ok latest, w)"
    | (stop) "node_chain w \<noteq> []" "\<not> sync.funding_confirmed w"
        "\<forall>j < length (node_chain w). \<not> sync.known E w j"
        "?step = (Err (Sync_UnconfirmedFundingTransaction (funding_txid (node_chain w))), w)"
    | (send) i where "to_send (sync.known E w) (sync.funding_confirmed w) (length (node_chain w)) latest i"
        "?step = (case send_transaction relay (node_chain w ! unat i) w of
          (Inr _, w') \<Rightarrow> (Ok (Some i), w') | (Inl e, w') \<Rightarrow> (Err (Sync_Relay e), w'))"
    using sync.sync_process_spec [OF linked_node [OF assms(1)], of latest] assms(2)
    unfolding latest_ok_def by blast
  then show ?thesis
  proof cases
    case idle
    then show ?thesis using go assms by (simp add: round_sync_def fine_def)
  next
    case stop
    then show ?thesis by (simp add: round_sync_def fine_def all_set_conv_all_nth)
  next
    case send
    obtain r w' where w': "send_transaction relay (node_chain w ! unat i) w = (r, w')" by fastforce
    have "latest_ok (Some i) w" using send(1) by (simp add: latest_ok_def to_send_def)
    with w' assms have "ok w'" "latest_ok latest w'" "latest_ok (Some i) w'"
      by (simp_all add: node_ok_send)
    then show ?thesis
      using node_ok_delay [of w'] by (cases r) (simp_all add: round_sync_def send(2) w' fine_def)
  qed
qed

text \<open>Up to the synchronisation a round only signs.\<close>

lemma run_round_cases:
  assumes "ok w"
  shows "\<exists>bs. run_round E (chain_update_new keys (node_client E)) (Some task) delay latest w =
        round_sync E (Some task) delay latest (w\<lparr>sw_broadcast := bs\<rparr>) \<or>
    (\<exists>e. run_round E (chain_update_new keys (node_client E)) (Some task) delay latest w =
        (Err (Run_Chain_Internal (Signing_Failed e)), w\<lparr>sw_broadcast := bs\<rparr>))"
proof -
  let ?T = "chain_update_new keys (node_client E) :: ('n sync_world, _) chain_update_task"
  have reach: "reachable E from_bytes (api_core (sw_api w)) (api_schema (sw_api w))"
    using assms by (simp add: node_ok_def)
  obtain r bs where r: "chain_update_process E ?T w = (r, w\<lparr>sw_broadcast := bs\<rparr>)"
    and ends: "\<not> chain_update_ends r"
    using chain_update_frame [OF laws reach] by blast
  let ?w = "w\<lparr>sw_broadcast := bs\<rparr>"
  obtain c where c: "actual_config_entry (api_schema (sw_api ?w)) = Some c" and v: "valid_config E c"
    by (rule reachable_stateE [OF laws reach]) simp
  note cfg = node_config [where keys = keys and E = E, OF c]
  have addr: "bind_io (lift_io (anchoring_address E c))
      (\<lambda>_. round_sync E (Some task) delay latest) ?w = round_sync E (Some task) delay latest ?w"
    by (simp add: valid_config_scripts [OF v] io_simps)
  show ?thesis
  proof (cases r)
    case (Ok u)
    then show ?thesis by (intro exI [of _ bs]) (simp add: run_round_def r)
  next
    case (Err e)
    then show ?thesis
      using ends
      by (intro exI [of _ bs], cases e)
        (auto simp: run_round_def r cfg addr chain_update_ends_def intro: chain_internal_error.exhaust)
  next
    case (Panic p)
    with ends show ?thesis by (simp add: chain_update_ends_def)
  qed
qed

lemma run_round_fine:
  assumes "ok w" "latest_ok latest w"
  shows "fine (run_round E (chain_update_new keys (node_client E)) (Some task) delay latest w)"
proof -
  have "fine (round_sync E (Some task) delay latest (w\<lparr>sw_broadcast := bs\<rparr>))" for bs
    by (rule round_sync_fine) (use assms in simp_all)
  moreover have "fine (Err (Run_Chain_Internal (Signing_Failed e)), v)" for e v
    by (simp add: fine_def)
  ultimately show ?thesis using run_round_cases [OF assms(1), of keys latest] by metis
qed

lemma run_rounds_fine:
  assumes "ok w" "latest_ok latest w"
  shows "fine (run_rounds E (chain_update_new keys (node_client E)) (Some task) delay n latest w)"
  using assms
proof (induction n arbitrary: latest w)
  case 0
  then show ?case by (simp add: io_simps fine_def)
next
  case (Suc n)
  obtain r w' where step: "run_round E (chain_update_new keys (node_client E)) (Some task) delay latest w =
      (r, w')" by fastforce
  with run_round_fine [OF Suc.prems, of keys] have fine: "fine (r, w')" by simp
  show ?case
  proof (cases r)
    case (Ok l)
    with fine have "ok w'" "latest_ok l w'" by (simp_all add: fine_def)
    with Suc.IH Ok show ?thesis by (simp add: io_simps step)
  qed (use fine step in \<open>simp_all add: io_simps\<close>)
qed

end

section \<open>Draining the chain\<close>

text \<open>
  A relay that delivers: what it sends is known from then on, and what is known stays known. While
  the node's chain stays as it is, the utility brings all of it to the network, one transaction in
  every round.
\<close>

locale delivering_world = utility_world relay status E from_bytes delay
  for relay :: "('n sync_world, 'r) bitcoin_relay"
    and status :: "'n sync_world \<Rightarrow> sha256d \<Rightarrow> transaction_status"
    and E :: env and from_bytes :: "bytes \<Rightarrow> lib_error + config"
    and delay :: "'n sync_world \<Rightarrow> 'n sync_world" +
  assumes send_ok: "\<exists>txid. fst (send_transaction relay tx w) = Inr txid"
    and send_adds: "is_known (status (snd (send_transaction relay tx w)) (tx_id E tx))"
    and send_keeps: "is_known (status w txid) \<Longrightarrow> is_known (status (snd (send_transaction relay tx w)) txid)"
    and delay_keeps: "is_known (status w txid) \<Longrightarrow> is_known (status (delay w) txid)"
    and delay_chain: "node_chain (delay w) = node_chain w"
    and broadcast_status: "status (w\<lparr>sw_broadcast := bs\<rparr>) = status w"
begin

definition all_known :: "'n sync_world \<Rightarrow> bool" where
  "all_known w \<longleftrightarrow> (\<forall>j < length (node_chain w). sync.known E w j)"

text \<open>After \<open>m\<close> rounds: all is known, or the first \<open>m\<close> transactions and those up to the latest index.\<close>

definition progress :: "nat \<Rightarrow> u64 option \<Rightarrow> 'n sync_world \<Rightarrow> bool" where
  "progress m latest w \<longleftrightarrow> all_known w \<or>
     (case latest of
        None \<Rightarrow> m = 0 \<and> sync.funding_confirmed w \<and>
          (\<forall>i j. i \<le> j \<longrightarrow> j < length (node_chain w) \<longrightarrow> sync.known E w j \<longrightarrow> sync.known E w i)
      | Some l \<Rightarrow> m \<le> Suc (unat l) \<and> (\<forall>j \<le> unat l. sync.known E w j))"

lemma progress_broadcast [simp]: "progress m latest (w\<lparr>sw_broadcast := bs\<rparr>) = progress m latest w"
  by (simp add: progress_def all_known_def broadcast_status split: option.split)

lemma progress_end:
  assumes "progress m latest w" "latest_ok latest w" "length (node_chain w) \<le> m"
  shows "all_known w"
  using assms
  by (fastforce simp: progress_def all_known_def latest_ok_def split: option.splits)

lemma send_progress:
  assumes "progress m latest w"
    and "to_send (sync.known E w) (sync.funding_confirmed w) (length (node_chain w)) latest i"
    and w': "send_transaction relay (node_chain w ! unat i) w = (Inr txid, w')"
  shows "progress (Suc m) (Some i) w'"
proof -
  have adds: "sync.known E w' (unat i)" and mono: "sync.known E w j \<Longrightarrow> sync.known E w' j" for j
    using send_adds [of "node_chain w ! unat i" w] send_keeps [of w _ "node_chain w ! unat i"]
    by (simp_all add: w' node_ok_send(3) [OF w'])
  show ?thesis
  proof (cases "all_known w")
    case True
    then show ?thesis using mono by (simp add: progress_def all_known_def node_ok_send(3) [OF w'])
  next
    case False
    have below: "j \<le> unat i - 1" "unat i - 1 < length (node_chain w)" if "j < unat i" for j
      using that assms(2) by (auto simp: to_send_def)
    have "m \<le> unat i" "\<forall>j < unat i. sync.known E w j"
      using False assms(1,2) below
      by (force simp: progress_def to_send_def split: option.splits if_splits)+
    then show ?thesis using adds mono by (auto simp: progress_def le_less)
  qed
qed

lemma round_sync_progress:
  assumes "ok w" "latest_ok latest w" "progress m latest w"
  shows "\<exists>l w'. round_sync E (Some task) delay latest w = (Ok l, w') \<and> progress (Suc m) l w' \<and>
    node_chain w' = node_chain w"
proof -
  let ?step = "sync_process E task latest w" and ?n = "length (node_chain w)"
  have keeps: "all_known (delay v)" if "all_known v" for v
    using that delay_keeps by (simp add: all_known_def delay_chain)
  consider (idle) "?step = (Ok latest, w)" "node_chain w = [] \<or> sync.known E w (?n - 1)"
        "\<forall>l. latest = Some l \<longrightarrow> Suc (unat l) = ?n"
    | (stop) "latest = None" "node_chain w \<noteq> []" "\<not> sync.funding_confirmed w"
        "\<forall>j < ?n. \<not> sync.known E w j"
    | (send) i where "to_send (sync.known E w) (sync.funding_confirmed w) ?n latest i"
        "?step = (case send_transaction relay (node_chain w ! unat i) w of
          (Inr _, w') \<Rightarrow> (Ok (Some i), w') | (Inl e, w') \<Rightarrow> (Err (Sync_Relay e), w'))"
    using sync.sync_process_spec [OF linked_node [OF assms(1)], of latest] assms(2)
    unfolding latest_ok_def by blast
  then show ?thesis
  proof cases
    case idle
    have below: "j \<le> ?n - 1" "?n - 1 < ?n" if "j < ?n" for j using that by auto
    have "all_known w"
      using assms(3) idle(2,3) below
      by (cases latest; cases "node_chain w = []") (force simp: progress_def all_known_def)+
    then show ?thesis
      using idle(1) keeps by (simp add: round_sync_def progress_def delay_chain)
  next
    case stop
    then show ?thesis using assms(3) by (auto simp: progress_def all_known_def)
  next
    case send
    obtain txid w' where w': "send_transaction relay (node_chain w ! unat i) w = (Inr txid, w')"
      using send_ok by (metis prod.collapse)
    have "progress (Suc m) (Some i) w'" by (rule send_progress [OF assms(3) send(1) w'])
    then have "progress (Suc m) (Some i) (delay w')"
      using delay_keeps by (auto simp: progress_def all_known_def delay_chain)
    then show ?thesis
      by (simp add: round_sync_def send(2) w' delay_chain node_ok_send(3) [OF w'])
  qed
qed

text \<open>A whole round either stops because signing failed or makes progress.\<close>

lemma run_round_progress:
  assumes "ok w" "latest_ok latest w" "progress m latest w"
  shows "(\<exists>e w'. run_round E (chain_update_new keys (node_client E)) (Some task) delay latest w =
        (Err (Run_Chain_Internal (Signing_Failed e)), w')) \<or>
    (\<exists>l w'. run_round E (chain_update_new keys (node_client E)) (Some task) delay latest w = (Ok l, w') \<and>
      progress (Suc m) l w' \<and> node_chain w' = node_chain w)"
proof -
  obtain v where v: "ok v" "latest_ok latest v" "progress m latest v" "node_chain v = node_chain w"
    and eq: "run_round E (chain_update_new keys (node_client E)) (Some task) delay latest w =
        round_sync E (Some task) delay latest v \<or>
      (\<exists>e. run_round E (chain_update_new keys (node_client E)) (Some task) delay latest w =
        (Err (Run_Chain_Internal (Signing_Failed e)), v))"
    using run_round_cases [OF assms(1), of keys latest] assms by (metis node_ok_broadcast progress_broadcast)
  from round_sync_progress [OF v(1-3)] obtain l w' where
    "round_sync E (Some task) delay latest v = (Ok l, w')" "progress (Suc m) l w'"
    "node_chain w' = node_chain w" unfolding v(4) by blast
  with eq show ?thesis by auto
qed

lemma run_rounds_progress:
  assumes "ok w" "latest_ok latest w" "progress m latest w"
  shows "(\<exists>e w'. run_rounds E (chain_update_new keys (node_client E)) (Some task) delay n latest w =
        (Err (Run_Chain_Internal (Signing_Failed e)), w')) \<or>
    (\<exists>l w'. run_rounds E (chain_update_new keys (node_client E)) (Some task) delay n latest w = (Ok l, w') \<and>
      latest_ok l w' \<and> progress (m + n) l w' \<and> node_chain w' = node_chain w)"
  using assms
proof (induction n arbitrary: latest w m)
  case 0
  then show ?case by (simp add: io_simps)
next
  case (Suc n)
  let ?round = "run_round E (chain_update_new keys (node_client E)) (Some task) delay latest w"
  from run_round_progress [OF Suc.prems, of keys] show ?case
  proof
    assume "\<exists>e w'. ?round = (Err (Run_Chain_Internal (Signing_Failed e)), w')"
    then show ?thesis by (auto simp: io_simps)
  next
    assume "\<exists>l w'. ?round = (Ok l, w') \<and> progress (Suc m) l w' \<and> node_chain w' = node_chain w"
    then obtain l w' where step: "?round = (Ok l, w')" "progress (Suc m) l w'"
      "node_chain w' = node_chain w" by blast
    have "ok w'" "latest_ok l w'"
      using run_round_fine [OF Suc.prems(1,2), of keys] by (simp_all add: step(1) fine_def)
    with Suc.IH [OF this step(2)] step show ?thesis by (simp add: io_simps)
  qed
qed

text \<open>As many rounds as the chain has transactions are enough for the network to know all of it.\<close>

lemma run_rounds_drain:
  assumes "ok w" "sync.funding_confirmed w" "length (node_chain w) \<le> n"
    and "\<forall>i j. i \<le> j \<longrightarrow> j < length (node_chain w) \<longrightarrow> sync.known E w j \<longrightarrow> sync.known E w i"
  shows "\<exists>r w'. run_rounds E (chain_update_new keys (node_client E)) (Some task) delay n None w = (r, w') \<and>
    ((\<exists>e. r = Err (Run_Chain_Internal (Signing_Failed e))) \<or>
     (\<exists>latest. r = Ok latest) \<and> node_chain w' = node_chain w \<and>
       (\<forall>tx \<in> set (node_chain w). is_known (status w' (tx_id E tx))))"
proof -
  let ?run = "run_rounds E (chain_update_new keys (node_client E)) (Some task) delay n None w"
  have "progress 0 None w" using assms(2,4) by (auto simp: progress_def)
  from run_rounds_progress [OF assms(1) _ this, of keys n] consider
      (failed) e w' where "?run = (Err (Run_Chain_Internal (Signing_Failed e)), w')"
    | (ran) l w' where "?run = (Ok l, w')" "latest_ok l w'" "progress n l w'" "node_chain w' = node_chain w"
    by (auto simp: latest_ok_def)
  then show ?thesis
  proof cases
    case ran
    then have "all_known w'" using progress_end assms(3) by simp
    then have "\<forall>tx \<in> set (node_chain w). is_known (status w' (tx_id E tx))"
      unfolding all_known_def ran(4) by (metis in_set_conv_nth)
    with ran show ?thesis by blast
  qed blast
qed

end

section \<open>What the utility guarantees\<close>

text \<open>
  C22. The utility keeps running: against a node that started in a reachable state and goes on
  executing steps of the service between the rounds, and with a relay that answers, any number of
  rounds leaves an index of the chain as it then is, or none. The rounds end early only when a key
  cannot sign, or when nothing of the chain is known to the network and the first funding transaction
  has no confirmations. They never panic, and neither a missing index nor a proposal without a
  payload ever ends them.
\<close>

theorem utility_keeps_running:
  assumes "crate_laws E" and "node_ok E from_bytes w"
    and "\<And>txid v. relay_transaction_status relay txid v = (Inr (status v txid), v)"
    and "\<And>tx v. sw_api (snd (send_transaction relay tx v)) = sw_api v"
    and "\<And>v. (service_step E)\<^sup>*\<^sup>* (node_state v) (node_state (delay v))"
    and "\<And>v. length (node_chain v) < 2 ^ 64 \<Longrightarrow> length (node_chain (delay v)) < 2 ^ 64"
  shows "case run_rounds E (chain_update_new keys (node_client E))
       (Some (sync_new relay (node_client E))) delay n None w of
     (Ok latest, w') \<Rightarrow> node_ok E from_bytes w' \<and> latest_ok latest w'
   | (Err (Run_Chain_Internal (Signing_Failed e)), w') \<Rightarrow> True
   | (Err (Run_Unconfirmed_Funding txid), w') \<Rightarrow> node_chain w' \<noteq> [] \<and>
       (\<forall>tx \<in> set (node_chain w'). \<not> is_known (status w' (tx_id E tx))) \<and>
       txid = funding_txid (node_chain w') \<and> confirmations (status w' txid) = None
   | _ \<Rightarrow> False"
proof -
  have world: "utility_world relay status E delay"
    by unfold_locales (fact assms)+
  show ?thesis
    using utility_world.run_rounds_fine [OF world assms(2), of None keys n]
    unfolding utility_world.fine_def [OF world] by (simp add: latest_ok_def)
qed

text \<open>A relay into a network that accepts what it gets, for the witnesses.\<close>

definition open_relay :: "((sha256d \<Rightarrow> u32 option option) sync_world, lib_error) bitcoin_relay" where
  "open_relay = \<lparr>
     send_transaction = (\<lambda>tx w. (Inr (tx_id (ref_env False) tx),
       w\<lparr>sw_net := (sw_net w)(tx_id (ref_env False) tx \<mapsto> None)\<rparr>)),
     relay_transaction_status = (\<lambda>txid w. (Inr (status_of_seen sw_net w txid), w))\<rparr>"

interpretation open_network: delivering_world open_relay "status_of_seen sw_net" "ref_env False"
    sample_decoder "\<lambda>w. w"
  by unfold_locales
    (simp_all add: open_relay_def ref_crate_laws status_of_seen_def is_known_def fun_eq_iff)

lemma sample_world_ok:
  "reachable (ref_env False) sample_decoder sample_core s \<Longrightarrow> length (transactions_chain s) < 2 ^ 64 \<Longrightarrow>
   node_ok (ref_env False) sample_decoder (sample_world s)"
  by (simp add: node_ok_def node_chain_def)

theorem utility_keeps_running_witness:
  "case run_rounds (ref_env False) (chain_update_new [] (node_client (ref_env False)))
       (Some (sync_new open_relay (node_client (ref_env False)))) (\<lambda>w. w) 3 None
       (sample_world second_anchored) of
     (Ok latest, w') \<Rightarrow> node_ok (ref_env False) sample_decoder w' \<and> latest_ok latest w'
   | (Err (Run_Chain_Internal (Signing_Failed e)), w') \<Rightarrow> True
   | (Err (Run_Unconfirmed_Funding txid), w') \<Rightarrow> node_chain w' \<noteq> [] \<and>
       (\<forall>tx \<in> set (node_chain w').
          \<not> is_known (status_of_seen sw_net w' (tx_id (ref_env False) tx))) \<and>
       txid = funding_txid (node_chain w') \<and> confirmations (status_of_seen sw_net w' txid) = None
   | _ \<Rightarrow> False"
proof (rule utility_keeps_running [OF ref_crate_laws])
  show "node_ok (ref_env False) sample_decoder (sample_world second_anchored)"
    by (rule sample_world_ok [OF sample_run(4)]) (simp add: second_chain)
qed (simp_all add: open_relay_def)

text \<open>
  C23. The utility reaches the end of the chain: when the relay delivers what it sends, the network
  forgets nothing and the chain stays as it is, then, from a start where the network knows a
  transaction only with its predecessors and the first funding transaction is confirmed, as many
  rounds as the chain has transactions are enough for the network to know all of them, unless a key
  fails to sign.
\<close>

theorem utility_drains_chain:
  assumes "crate_laws E" and "node_ok E from_bytes w"
    and "\<And>txid v. relay_transaction_status relay txid v = (Inr (status v txid), v)"
    and "\<And>tx v. sw_api (snd (send_transaction relay tx v)) = sw_api v"
    and "\<And>v. (service_step E)\<^sup>*\<^sup>* (node_state v) (node_state (delay v))"
    and "\<And>v. node_chain (delay v) = node_chain v"
    and "\<And>tx v. \<exists>txid. fst (send_transaction relay tx v) = Inr txid"
    and "\<And>tx v. is_known (status (snd (send_transaction relay tx v)) (tx_id E tx))"
    and "\<And>tx v txid. is_known (status v txid) \<Longrightarrow>
      is_known (status (snd (send_transaction relay tx v)) txid)"
    and "\<And>v txid. is_known (status v txid) \<Longrightarrow> is_known (status (delay v) txid)"
    and "\<And>v bs. status (v\<lparr>sw_broadcast := bs\<rparr>) = status v"
    and "confirmations (status w (funding_txid (node_chain w))) \<noteq> None"
    and "\<And>i j. i \<le> j \<Longrightarrow> j < length (node_chain w) \<Longrightarrow> is_known (status w (tx_id E (node_chain w ! j))) \<Longrightarrow>
      is_known (status w (tx_id E (node_chain w ! i)))"
    and "length (node_chain w) \<le> n"
  shows "\<exists>r w'. run_rounds E (chain_update_new keys (node_client E))
       (Some (sync_new relay (node_client E))) delay n None w = (r, w') \<and>
     ((\<exists>e. r = Err (Run_Chain_Internal (Signing_Failed e))) \<or>
      (\<exists>latest. r = Ok latest) \<and> node_chain w' = node_chain w \<and>
        (\<forall>tx \<in> set (node_chain w). is_known (status w' (tx_id E tx))))"
proof -
  have world: "delivering_world relay status E delay"
    by unfold_locales (use assms in auto)
  show ?thesis
    by (rule delivering_world.run_rounds_drain [OF world assms(2,12,14)]) (use assms(13) in blast)
qed

definition unsent_world :: "(sha256d \<Rightarrow> u32 option option) sync_world" where
  "unsent_world = (sample_world second_anchored)\<lparr>sw_net := [Sha256d 161761 \<mapsto> Some 3]\<rparr>"

theorem utility_drains_chain_witness:
  "\<exists>r w'. run_rounds (ref_env False) (chain_update_new [] (node_client (ref_env False)))
       (Some (sync_new open_relay (node_client (ref_env False)))) (\<lambda>w. w) 2 None unsent_world = (r, w') \<and>
     ((\<exists>e. r = Err (Run_Chain_Internal (Signing_Failed e))) \<or>
      (\<exists>latest. r = Ok latest) \<and> node_chain w' = [sample_final_tx, second_final_tx] \<and>
        (\<forall>tx \<in> {sample_final_tx, second_final_tx}.
          is_known (status_of_seen sw_net w' (tx_id (ref_env False) tx))))"
proof -
  have chain: "node_chain unsent_world = [sample_final_tx, second_final_tx]"
    by (simp add: unsent_world_def node_chain_def second_chain)
  have ok: "node_ok (ref_env False) sample_decoder unsent_world"
    using sample_run(4) by (simp add: unsent_world_def node_ok_def node_chain_def second_chain)
  have funding: "funding_txid [sample_final_tx, second_final_tx] = Sha256d 161761"
    by (simp add: funding_txid_def sample_final_tx_def solo_final_def ref_spend_input_def
        sample_proposal_def solo_tx_def sample_sources funding_txin_def sample_txids(3) [symmetric] tx_id_def)
  have unknown: "\<not> is_known (status_of_seen sw_net unsent_world (tx_id (ref_env False)
      ([sample_final_tx, second_final_tx] ! j)))" if "j < 2" for j
    using that
    by (auto simp: less_2_cases_iff unsent_world_def status_of_seen_def is_known_def sample_chain_ids)
  have confirmed: "confirmations (status_of_seen sw_net unsent_world (Sha256d 161761)) \<noteq> None"
    by (simp add: unsent_world_def status_of_seen_def confirmations_def)
  show ?thesis
    using utility_drains_chain [OF ref_crate_laws ok, of open_relay "status_of_seen sw_net" "\<lambda>w. w" 2 "[]"]
      unknown confirmed
    by (simp add: chain funding open_relay_def status_of_seen_def is_known_def fun_eq_iff)
qed

end
