(* ===== verification/Api_Endpoints.thy ===== *)
theory Api_Endpoints
  imports Sync_Properties
begin

text \<open>
  The way from a client to the handlers: \<open>wire\<close> of \<open>src/api.rs\<close> registers the handlers under their
  endpoints, and \<open>ApiClient\<close> of \<open>examples/btc_anchoring_sync.rs\<close> is the implementation of
  \<open>PrivateApi\<close> that calls them over HTTP. The HTTP client, the web server and the JSON
  representation belong to other crates, so they are arguments; what they promise is the locale
  \<open>http_node\<close>, under which the client is shown to behave as the handlers do.
\<close>

section \<open>Requests and replies\<close>

record find_transaction_query =
  query_height :: "u64 option"

record index_query =
  query_index :: u64

text \<open>What a request carries and what a reply carries, by the types of the handlers.\<close>

datatype api_query =
    Query_Unit
  | Query_Find find_transaction_query
  | Query_Sign_Input sign_input_msg
  | Query_Transaction transaction
  | Query_Index index_query

datatype ('ip, 'lp) api_reply =
    Reply_Address address
  | Reply_Following "address option"
  | Reply_Proof "('ip, 'lp) transaction_proof"
  | Reply_Config config
  | Reply_Hash hash
  | Reply_Proposal anchoring_proposal_state
  | Reply_Transaction "transaction option"
  | Reply_Count anchoring_chain_length

datatype api_scope = Public_Scope | Private_Scope
datatype http_method = Get | Post

type_synonym ('ip, 'lp) handler_result =
  "(('ip, 'lp) api_reply, api_error) outcome \<times> broadcast_tx list"

text \<open>A query of another type than the handler's is refused by the framework: \<open>None\<close>.\<close>

type_synonym ('ip, 'lp) handler = "api_state \<Rightarrow> api_query \<Rightarrow> ('ip, 'lp) handler_result option"

fun on_unit :: "(api_state \<Rightarrow> ('ip, 'lp) handler_result) \<Rightarrow> ('ip, 'lp) handler" where
  "on_unit f a Query_Unit = Some (f a)"
| "on_unit f a _ = None"

fun on_find :: "(api_state \<Rightarrow> find_transaction_query \<Rightarrow> ('ip, 'lp) handler_result) \<Rightarrow> ('ip, 'lp) handler" where
  "on_find f a (Query_Find q) = Some (f a q)"
| "on_find f a _ = None"

fun on_sign_input :: "(api_state \<Rightarrow> sign_input_msg \<Rightarrow> ('ip, 'lp) handler_result) \<Rightarrow> ('ip, 'lp) handler" where
  "on_sign_input f a (Query_Sign_Input q) = Some (f a q)"
| "on_sign_input f a _ = None"

fun on_transaction :: "(api_state \<Rightarrow> transaction \<Rightarrow> ('ip, 'lp) handler_result) \<Rightarrow> ('ip, 'lp) handler" where
  "on_transaction f a (Query_Transaction q) = Some (f a q)"
| "on_transaction f a _ = None"

fun on_index :: "(api_state \<Rightarrow> index_query \<Rightarrow> ('ip, 'lp) handler_result) \<Rightarrow> ('ip, 'lp) handler" where
  "on_index f a (Query_Index q) = Some (f a q)"
| "on_index f a _ = None"

definition reads :: "('x \<Rightarrow> ('ip, 'lp) api_reply) \<Rightarrow> ('x, api_error) outcome \<Rightarrow> ('ip, 'lp) handler_result" where
  "reads reply m = (map_ok reply m, [])"

definition sends :: "(hash, api_error) outcome \<times> broadcast_tx list \<Rightarrow> ('ip, 'lp) handler_result" where
  "sends r = (map_ok Reply_Hash (fst r), snd r)"

section \<open>The endpoints\<close>

definition wire ::
  "env \<Rightarrow> (string \<Rightarrow> 'ip option) \<Rightarrow> (transaction list \<Rightarrow> nat \<Rightarrow> 'lp) \<Rightarrow>
     api_scope \<Rightarrow> http_method \<Rightarrow> string \<Rightarrow> ('ip, 'lp) handler option" where
  "wire E proof_for_service_index get_proof scope meth name =
     map_of (case scope of
       Public_Scope \<Rightarrow>
         [((Get, ''address/actual''),
             on_unit (\<lambda>a. reads Reply_Address (api_actual_address E a))),
          ((Get, ''address/following''),
             on_unit (\<lambda>a. reads Reply_Following (api_following_address E a))),
          ((Get, ''find-transaction''),
             on_find (\<lambda>a q. reads Reply_Proof
               (find_transaction E proof_for_service_index get_proof a (query_height q)))),
          ((Get, ''config''), on_unit (\<lambda>a. reads Reply_Config (api_config a)))]
     | Private_Scope \<Rightarrow>
         [((Post, ''sign-input''), on_sign_input (\<lambda>a q. sends (api_sign_input E a q))),
          ((Post, ''add-funds''), on_transaction (\<lambda>a q. sends (api_add_funds E a q))),
          ((Get, ''anchoring-proposal''),
             on_unit (\<lambda>a. reads Reply_Proposal (api_anchoring_proposal E a))),
          ((Get, ''config''), on_unit (\<lambda>a. reads Reply_Config (api_config a))),
          ((Get, ''transaction''),
             on_index (\<lambda>a q. reads Reply_Transaction (api_transaction_with_index a (query_index q)))),
          ((Get, ''transactions-count''),
             on_unit (\<lambda>a. reads Reply_Count (api_transactions_count a)))])
     (meth, name)"

text \<open>The hook of the service.\<close>

definition wire_api ::
  "env \<Rightarrow> (string \<Rightarrow> 'ip option) \<Rightarrow> (transaction list \<Rightarrow> nat \<Rightarrow> 'lp) \<Rightarrow>
     api_scope \<Rightarrow> http_method \<Rightarrow> string \<Rightarrow> ('ip, 'lp) handler option" where
  "wire_api E proof_for_service_index get_proof = wire E proof_for_service_index get_proof"

section \<open>ApiClient\<close>

text \<open>
  \<open>http meth url content\<close> sends a request with \<open>reqwest\<close> and returns the JSON body of the
  response, whatever its status; \<open>decode\<close> is the deserialisation into the type that is asked for.
\<close>

type_synonym ('w, 'j) http = "http_method \<Rightarrow> string \<Rightarrow> 'j option \<Rightarrow> 'w \<Rightarrow> (lib_error + 'j) \<times> 'w"

record 'j json_codec =
  json_query :: "api_query \<Rightarrow> 'j"
  json_hash :: "'j \<Rightarrow> lib_error + hash"
  json_proposal :: "'j \<Rightarrow> lib_error + anchoring_proposal_state"
  json_config :: "'j \<Rightarrow> lib_error + config"
  json_transaction :: "'j \<Rightarrow> lib_error + transaction option"
  json_count :: "'j \<Rightarrow> lib_error + anchoring_chain_length"

record ('w, 'j) api_client =
  client_prefix :: string
  client_http :: "('w, 'j) http"

definition api_client_new :: "('w, 'j) http \<Rightarrow> string \<Rightarrow> string \<Rightarrow> ('w, 'j) api_client" where
  "api_client_new http hostname instance_name =
     \<lparr>client_prefix = hostname @ ''/api/services/'' @ instance_name, client_http = http\<rparr>"

definition client_endpoint :: "('w, 'j) api_client \<Rightarrow> string \<Rightarrow> string" where
  "client_endpoint C name = client_prefix C @ ''/'' @ name"

definition client_call ::
  "('w, 'j) api_client \<Rightarrow> http_method \<Rightarrow> 'j option \<Rightarrow> ('j \<Rightarrow> lib_error + 'x) \<Rightarrow> string \<Rightarrow>
     'w \<Rightarrow> (lib_error + 'x) \<times> 'w" where
  "client_call C meth content decode endpoint w =
     (case client_http C meth (client_endpoint C endpoint) content w of
        (Inl e, w') \<Rightarrow> (Inl e, w')
      | (Inr body, w') \<Rightarrow> (decode body, w'))"

definition client_get ::
  "('w, 'j) api_client \<Rightarrow> ('j \<Rightarrow> lib_error + 'x) \<Rightarrow> string \<Rightarrow> 'w \<Rightarrow> (lib_error + 'x) \<times> 'w" where
  "client_get C decode endpoint = client_call C Get None decode endpoint"

definition client_get_query ::
  "('w, 'j) api_client \<Rightarrow> ('j \<Rightarrow> lib_error + 'x) \<Rightarrow> string \<Rightarrow> 'j \<Rightarrow> 'w \<Rightarrow> (lib_error + 'x) \<times> 'w" where
  "client_get_query C decode endpoint query = client_call C Get (Some query) decode endpoint"

definition client_post ::
  "('w, 'j) api_client \<Rightarrow> ('j \<Rightarrow> lib_error + 'x) \<Rightarrow> string \<Rightarrow> 'j \<Rightarrow> 'w \<Rightarrow> (lib_error + 'x) \<times> 'w" where
  "client_post C decode endpoint body = client_call C Post (Some body) decode endpoint"

definition http_private_api ::
  "'j json_codec \<Rightarrow> ('w, 'j) api_client \<Rightarrow> ('w, lib_error) private_api" where
  "http_private_api J C = \<lparr>
     pa_sign_input = (\<lambda>msg. client_post C (json_hash J) ''sign-input'' (json_query J (Query_Sign_Input msg))),
     pa_add_funds = (\<lambda>tx. client_post C (json_hash J) ''add-funds'' (json_query J (Query_Transaction tx))),
     pa_anchoring_proposal = client_get C (json_proposal J) ''anchoring-proposal'',
     pa_config = client_get C (json_config J) ''config'',
     pa_transaction_with_index = (\<lambda>index.
       client_get_query C (json_transaction J) ''transaction''
         (json_query J (Query_Index \<lparr>query_index = index\<rparr>))),
     pa_transactions_count = client_get C (json_count J) ''transactions-count''\<rparr>"

section \<open>The contract of the web server\<close>

text \<open>
  A reachable server of the private scope: it decodes the query, runs the handler that is wired under
  the endpoint of the instance, hands on what the handler broadcasts, and answers with the JSON
  representation of the result or of the error. A representation of a value is read back, and a
  representation of an error is not read as a value. A handler that panics gives an error too.
\<close>

definition run_handler ::
  "('ip, 'lp) handler option \<Rightarrow> api_query \<Rightarrow> 'n sync_world \<Rightarrow>
     (api_error option + ('ip, 'lp) api_reply) \<times> 'n sync_world" where
  "run_handler h q w =
     (case Option.bind h (\<lambda>f. f (sw_api w) q) of
        None \<Rightarrow> (Inl None, w)
      | Some (r, bs) \<Rightarrow> (client_result r, w\<lparr>sw_broadcast := sw_broadcast w @ bs\<rparr>))"

text \<open>Results agree up to the error, which the client replaces by one of its own.\<close>

definition agrees :: "(lib_error + 'x) \<times> 'w \<Rightarrow> (api_error option + 'x) \<times> 'w \<Rightarrow> bool" where
  "agrees a b \<longleftrightarrow> snd a = snd b \<and> (\<forall>x. fst a = Inr x \<longleftrightarrow> fst b = Inr x)"

locale http_node =
  fixes E :: env and pf :: "string \<Rightarrow> 'ip option" and gp :: "transaction list \<Rightarrow> nat \<Rightarrow> 'lp"
    and J :: "'j json_codec" and enc_reply :: "('ip, 'lp) api_reply \<Rightarrow> 'j"
    and enc_error :: "api_error option \<Rightarrow> 'j" and http :: "('n sync_world, 'j) http"
    and hostname :: string and instance_name :: string
  assumes serve: "content = None \<and> q = Query_Unit \<or> content = Some (json_query J q) \<Longrightarrow>
      http meth (hostname @ ''/api/services/'' @ instance_name @ ''/'' @ name) content w =
      (case run_handler (wire E pf gp Private_Scope meth name) q w of (r, w') \<Rightarrow>
        (Inr (case r of Inl e \<Rightarrow> enc_error e | Inr x \<Rightarrow> enc_reply x), w'))"
    and decode: "json_hash J (enc_reply (Reply_Hash h)) = Inr h"
      "json_proposal J (enc_reply (Reply_Proposal p)) = Inr p"
      "json_config J (enc_reply (Reply_Config c)) = Inr c"
      "json_transaction J (enc_reply (Reply_Transaction t)) = Inr t"
      "json_count J (enc_reply (Reply_Count n)) = Inr n"
    and decode_error: "\<exists>m. json_hash J (enc_error e) = Inl m" "\<exists>m. json_proposal J (enc_error e) = Inl m"
      "\<exists>m. json_config J (enc_error e) = Inl m" "\<exists>m. json_transaction J (enc_error e) = Inl m"
      "\<exists>m. json_count J (enc_error e) = Inl m"
begin

abbreviation api :: "('n sync_world, lib_error) private_api" where
  "api \<equiv> http_private_api J (api_client_new http hostname instance_name)"

lemma call:
  assumes "content = None \<and> q = Query_Unit \<or> content = Some (json_query J q)"
  shows "client_call (api_client_new http hostname instance_name) meth content dec name w =
    (case run_handler (wire E pf gp Private_Scope meth name) q w of (r, w') \<Rightarrow>
      (dec (case r of Inl e \<Rightarrow> enc_error e | Inr x \<Rightarrow> enc_reply x), w'))"
  using serve [OF assms, of meth name w]
  by (simp add: client_call_def api_client_new_def client_endpoint_def split: prod.split)

lemma reads_agree:
  assumes "\<And>x. dec (enc_reply (reply x)) = Inr x" "\<And>e. \<exists>m. dec (enc_error e) = Inl m"
    and "wire E pf gp Private_Scope meth name = Some h" "h (sw_api w) q = Some (reads reply m)"
    and "content = None \<and> q = Query_Unit \<or> content = Some (json_query J q)"
  shows "agrees (client_call (api_client_new http hostname instance_name) meth content dec name w)
    (client_result m, w)"
  using assms(1,2) unfolding call [OF assms(5)]
  by (cases m) (auto simp: agrees_def run_handler_def assms(3,4) reads_def client_result_def,
    (metis Inl_Inr_False)+)

lemma sends_agree:
  assumes "wire E pf gp Private_Scope meth name = Some h" "h (sw_api w) q = Some (sends (m, bs))"
    and "content = Some (json_query J q)"
  shows "agrees (client_call (api_client_new http hostname instance_name) meth content (json_hash J) name w)
    (client_result m, w\<lparr>sw_broadcast := sw_broadcast w @ bs\<rparr>)"
  using decode(1) decode_error(1) call [of content q meth "json_hash J" name w] assms(3)
  by (cases m) (auto simp: agrees_def run_handler_def assms(1,2) sends_def client_result_def,
    (metis Inl_Inr_False)+)

lemma client_agrees:
  "agrees (pa_sign_input api msg w) (pa_sign_input (node_client E) msg w)"
  "agrees (pa_add_funds api tx w) (pa_add_funds (node_client E) tx w)"
  "agrees (pa_anchoring_proposal api w) (pa_anchoring_proposal (node_client E) w)"
  "agrees (pa_config api w) (pa_config (node_client E) w)"
  "agrees (pa_transaction_with_index api i w) (pa_transaction_with_index (node_client E) i w)"
  "agrees (pa_transactions_count api w) (pa_transactions_count (node_client E) w)"
proof -
  note client = http_private_api_def client_post_def client_get_def client_get_query_def
  show "agrees (pa_sign_input api msg w) (pa_sign_input (node_client E) msg w)"
    using sends_agree [of Post "''sign-input''" _ w "Query_Sign_Input msg"]
    by (simp add: client wire_def node_client_def split: prod.split)
  show "agrees (pa_add_funds api tx w) (pa_add_funds (node_client E) tx w)"
    using sends_agree [of Post "''add-funds''" _ w "Query_Transaction tx"]
    by (simp add: client wire_def node_client_def split: prod.split)
  show "agrees (pa_anchoring_proposal api w) (pa_anchoring_proposal (node_client E) w)"
    using reads_agree [OF decode(2) decode_error(2), of Get "''anchoring-proposal''" _ w Query_Unit]
    by (simp add: client wire_def node_client_def)
  show "agrees (pa_config api w) (pa_config (node_client E) w)"
    using reads_agree [OF decode(3) decode_error(3), of Get "''config''" _ w Query_Unit]
    by (simp add: client wire_def node_client_def)
  show "agrees (pa_transaction_with_index api i w) (pa_transaction_with_index (node_client E) i w)"
    using reads_agree [OF decode(4) decode_error(4), of Get "''transaction''" _ w
        "Query_Index \<lparr>query_index = i\<rparr>"]
    by (simp add: client wire_def node_client_def)
  show "agrees (pa_transactions_count api w) (pa_transactions_count (node_client E) w)"
    using reads_agree [OF decode(5) decode_error(5), of Get "''transactions-count''" _ w Query_Unit]
    by (simp add: client wire_def node_client_def)
qed

end

text \<open>So a client over HTTP serves the node's chain, as the synchronisation needs it.\<close>

sublocale http_node \<subseteq> over_http: chain_client
    "http_private_api J (api_client_new http hostname instance_name)" node_chain
proof
  show "pa_transactions_count api w = (Inr \<lparr>chain_length_value = of_nat (length (node_chain w))\<rparr>, w)" for w
    using client_agrees(6) [of w] node.count_answer [of E w] by (auto simp: agrees_def prod_eq_iff)
  show "pa_transaction_with_index api i w = (Inr (get_nth (node_chain w) (unat i)), w)" for i w
    using client_agrees(5) [of i w] node.index_answer [of E i w] by (auto simp: agrees_def prod_eq_iff)
qed

text \<open>
  C24. The HTTP client does what the handlers do: against a server that runs the wired handlers, each
  method of \<open>ApiClient\<close> reaches the handler of the same name with its arguments, gives the value that
  the handler gives, leaves the node with the same broadcasts, and reports an error exactly when the
  handler fails or panics.
\<close>

theorem http_client_agrees:
  assumes "http_node E pf gp J enc_reply enc_error http hostname instance_name"
  shows "agrees (pa_sign_input (http_private_api J (api_client_new http hostname instance_name)) msg w)
      (pa_sign_input (node_client E) msg w) \<and>
    agrees (pa_add_funds (http_private_api J (api_client_new http hostname instance_name)) tx w)
      (pa_add_funds (node_client E) tx w) \<and>
    agrees (pa_anchoring_proposal (http_private_api J (api_client_new http hostname instance_name)) w)
      (pa_anchoring_proposal (node_client E) w) \<and>
    agrees (pa_config (http_private_api J (api_client_new http hostname instance_name)) w)
      (pa_config (node_client E) w) \<and>
    agrees (pa_transaction_with_index (http_private_api J (api_client_new http hostname instance_name)) i w)
      (pa_transaction_with_index (node_client E) i w) \<and>
    agrees (pa_transactions_count (http_private_api J (api_client_new http hostname instance_name)) w)
      (pa_transactions_count (node_client E) w)"
  using http_node.client_agrees [OF assms] by blast

text \<open>A server for the witness.\<close>

datatype sample_json =
    Json_Query api_query
  | Json_Reply "(unit, nat) api_reply"
  | Json_Error "api_error option"

definition sample_codec :: "sample_json json_codec" where
  "sample_codec = \<lparr>json_query = Json_Query,
     json_hash = (\<lambda>j. case j of Json_Reply (Reply_Hash h) \<Rightarrow> Inr h | _ \<Rightarrow> Inl (Lib_Error ''json'')),
     json_proposal = (\<lambda>j. case j of Json_Reply (Reply_Proposal p) \<Rightarrow> Inr p | _ \<Rightarrow> Inl (Lib_Error ''json'')),
     json_config = (\<lambda>j. case j of Json_Reply (Reply_Config c) \<Rightarrow> Inr c | _ \<Rightarrow> Inl (Lib_Error ''json'')),
     json_transaction = (\<lambda>j. case j of Json_Reply (Reply_Transaction t) \<Rightarrow> Inr t | _ \<Rightarrow> Inl (Lib_Error ''json'')),
     json_count = (\<lambda>j. case j of Json_Reply (Reply_Count n) \<Rightarrow> Inr n | _ \<Rightarrow> Inl (Lib_Error ''json''))\<rparr>"

definition sample_http :: "('n sync_world, sample_json) http" where
  "sample_http meth url content w =
     (let h = wire (ref_env False) (\<lambda>_. Some ()) (\<lambda>_ i. i) Private_Scope meth
          (drop (length ''host/api/services/anchoring/'') url);
          q = (case content of Some (Json_Query q) \<Rightarrow> q | _ \<Rightarrow> Query_Unit);
          r = run_handler h q w
      in (Inr (case fst r of Inl e \<Rightarrow> Json_Error e | Inr x \<Rightarrow> Json_Reply x), snd r))"

interpretation sample_server: http_node "ref_env False" "\<lambda>_. Some ()" "\<lambda>_ i. i" sample_codec Json_Reply
    Json_Error sample_http "''host''" "''anchoring''"
  by unfold_locales
    (auto simp: sample_codec_def sample_http_def Let_def split: prod.split)

theorem http_client_agrees_witness:
  "agrees (pa_transactions_count (http_private_api sample_codec
       (api_client_new sample_http ''host'' ''anchoring'')) (sample_world second_anchored))
     (Inr \<lparr>chain_length_value = 2\<rparr>, sample_world second_anchored)"
  using http_client_agrees [OF sample_server.http_node_axioms, of undefined "sample_world second_anchored"
      undefined 0] node.count_answer [of "ref_env False" "sample_world second_anchored"]
  by (simp add: node_chain_def second_chain)

end
