(* ===== verification/Btc_Types.thy ===== *)
theory Btc_Types
  imports Service
begin

text \<open>
  The conversions of the wrapped Bitcoin types: \<open>BinaryValue\<close>, \<open>ObjectHash\<close>, the hexadecimal and the
  string forms of \<open>src/btc/mod.rs\<close> and \<open>src/btc/macros.rs\<close>, and the Protobuf messages of
  \<open>src/proto/mod.rs\<close>. The inner encodings belong to other crates and are fields of the record
  \<open>wire_env\<close>; the conversions the repository writes itself are the definitions here.
\<close>

section \<open>Functions of the crates\<close>

text \<open>
  \<^item> \<open>pk_write_into\<close>, \<open>pk_from_slice\<close>: \<open>bitcoin::PublicKey\<close>;
  \<^item> \<open>tx_deserialize\<close>: \<open>bitcoin::consensus::deserialize\<close> (\<open>serialize\<close> is a field of \<open>env\<close>);
  \<^item> \<open>sig_into_vec\<close>, \<open>sig_from_vec\<close>: \<open>btc_transaction_utils::InputSignature\<close>;
  \<^item> \<open>sk_network\<close>, \<open>sk_to_string\<close>, \<open>sk_from_str\<close>: the field \<open>network\<close> and the string form of \<open>bitcoin::PrivateKey\<close>;
  \<^item> \<open>hex_encode\<close>, \<open>hex_encode_upper\<close>, \<open>hex_decode\<close>: the \<open>hex\<close> crate;
  \<^item> \<open>crypto_hash\<close>: \<open>exonum::crypto::hash\<close>;
  \<^item> \<open>network_magic\<close>, \<open>network_from_magic\<close>: \<open>bitcoin::Network\<close>;
  \<^item> \<open>keys_to_pb\<close>, \<open>keys_from_pb\<close>: the derived conversions of \<open>AnchoringKeys\<close>, whose message is \<open>'m\<close>;
  \<^item> \<open>pb_write_to_bytes\<close>, \<open>pb_merge_from_bytes\<close>: the generated message with one field \<open>data\<close>.
\<close>

record 'm wire_env =
  pk_write_into :: "btc_public_key \<Rightarrow> bytes"
  pk_from_slice :: "bytes \<Rightarrow> lib_error + btc_public_key"
  tx_deserialize :: "bytes \<Rightarrow> lib_error + bitcoin_tx"
  sig_into_vec :: "input_signature \<Rightarrow> bytes"
  sig_from_vec :: "bytes \<Rightarrow> lib_error + input_signature"
  sk_network :: "btc_private_key \<Rightarrow> network"
  sk_to_string :: "btc_private_key \<Rightarrow> string"
  sk_from_str :: "string \<Rightarrow> lib_error + btc_private_key"
  hex_encode :: "bytes \<Rightarrow> string"
  hex_encode_upper :: "bytes \<Rightarrow> string"
  hex_decode :: "string \<Rightarrow> lib_error + bytes"
  crypto_hash :: "bytes \<Rightarrow> hash"
  network_magic :: "network \<Rightarrow> u32"
  network_from_magic :: "u32 \<Rightarrow> network option"
  keys_to_pb :: "anchoring_node_keys \<Rightarrow> 'm"
  keys_from_pb :: "'m \<Rightarrow> lib_error + anchoring_node_keys"
  pb_write_to_bytes :: "bytes \<Rightarrow> lib_error + bytes"
  pb_merge_from_bytes :: "bytes \<Rightarrow> lib_error + bytes"

datatype wire_error =
    Wire_Error lib_error
  | Wrong_Hash_Length
  | Unknown_Bitcoin_Network

abbreviation of_lib :: "lib_error + 'a \<Rightarrow> ('a, wire_error) outcome" where
  "of_lib r \<equiv> map_err Wire_Error (of_sum r)"

section \<open>PrivateKey\<close>

definition private_key_to_string :: "'m wire_env \<Rightarrow> btc_private_key \<Rightarrow> string" where
  "private_key_to_string W k = sk_to_string W k"

definition private_key_from_str :: "'m wire_env \<Rightarrow> string \<Rightarrow> (btc_private_key, wire_error) outcome" where
  "private_key_from_str W s = of_lib (sk_from_str W s)"

text \<open>The debug form does not show the key.\<close>

definition private_key_debug :: "btc_private_key \<Rightarrow> string" where
  "private_key_debug k = ''PrivateKey''"

text \<open>The pair is drawn by \<open>secp_gen_keypair_with_rng\<close>, which also returns the next state of the generator.\<close>

definition gen_keypair_with_rng ::
  "('r \<Rightarrow> network \<Rightarrow> (btc_public_key \<times> btc_private_key) \<times> 'r) \<Rightarrow> 'r \<Rightarrow> network \<Rightarrow>
     (btc_public_key \<times> btc_private_key) \<times> 'r" where
  "gen_keypair_with_rng secp_gen_keypair_with_rng rng net =
     (let ((pk, sk), rng) = secp_gen_keypair_with_rng rng net in ((pk, sk), rng))"

section \<open>PublicKey\<close>

definition public_key_from_hex :: "'m wire_env \<Rightarrow> string \<Rightarrow> (btc_public_key, wire_error) outcome" where
  "public_key_from_hex W hex =
     bind_oc (of_lib (hex_decode W hex)) (\<lambda>bytes. of_lib (pk_from_slice W bytes))"

definition public_key_encode_hex :: "'m wire_env \<Rightarrow> btc_public_key \<Rightarrow> string" where
  "public_key_encode_hex W k = hex_encode W (pk_write_into W k)"

definition public_key_encode_hex_upper :: "'m wire_env \<Rightarrow> btc_public_key \<Rightarrow> string" where
  "public_key_encode_hex_upper W k = hex_encode_upper W (pk_write_into W k)"

definition public_key_to_bytes :: "'m wire_env \<Rightarrow> btc_public_key \<Rightarrow> bytes" where
  "public_key_to_bytes W k = pk_write_into W k"

definition public_key_from_bytes :: "'m wire_env \<Rightarrow> bytes \<Rightarrow> (btc_public_key, wire_error) outcome" where
  "public_key_from_bytes W b = of_lib (pk_from_slice W b)"

definition public_key_object_hash :: "'m wire_env \<Rightarrow> btc_public_key \<Rightarrow> hash" where
  "public_key_object_hash W k = crypto_hash W (public_key_to_bytes W k)"

text \<open>The messages of \<open>btc_types.proto\<close> all have the one field \<open>data\<close>.\<close>

record btc_message =
  pb_data :: bytes

definition public_key_to_pb :: "'m wire_env \<Rightarrow> btc_public_key \<Rightarrow> btc_message" where
  "public_key_to_pb W k = \<lparr>pb_data = pk_write_into W k\<rparr>"

definition public_key_from_pb :: "'m wire_env \<Rightarrow> btc_message \<Rightarrow> (btc_public_key, wire_error) outcome" where
  "public_key_from_pb W pb = of_lib (pk_from_slice W (pb_data pb))"

section \<open>InputSignature\<close>

definition signature_from_hex :: "'m wire_env \<Rightarrow> string \<Rightarrow> (input_signature, wire_error) outcome" where
  "signature_from_hex W hex =
     bind_oc (of_lib (hex_decode W hex)) (\<lambda>bytes. of_lib (sig_from_vec W bytes))"

definition signature_encode_hex :: "'m wire_env \<Rightarrow> input_signature \<Rightarrow> string" where
  "signature_encode_hex W s = hex_encode W (sig_into_vec W s)"

definition signature_encode_hex_upper :: "'m wire_env \<Rightarrow> input_signature \<Rightarrow> string" where
  "signature_encode_hex_upper W s = hex_encode_upper W (sig_into_vec W s)"

definition signature_into_vec :: "'m wire_env \<Rightarrow> input_signature \<Rightarrow> bytes" where
  "signature_into_vec W s = sig_into_vec W s"

definition signature_to_bytes :: "'m wire_env \<Rightarrow> input_signature \<Rightarrow> bytes" where
  "signature_to_bytes W s = sig_into_vec W s"

definition signature_from_bytes :: "'m wire_env \<Rightarrow> bytes \<Rightarrow> (input_signature, wire_error) outcome" where
  "signature_from_bytes W b = of_lib (sig_from_vec W b)"

definition signature_object_hash :: "'m wire_env \<Rightarrow> input_signature \<Rightarrow> hash" where
  "signature_object_hash W s = crypto_hash W (signature_to_bytes W s)"

definition signature_to_pb :: "'m wire_env \<Rightarrow> input_signature \<Rightarrow> btc_message" where
  "signature_to_pb W s = \<lparr>pb_data = sig_into_vec W s\<rparr>"

definition signature_from_pb :: "'m wire_env \<Rightarrow> btc_message \<Rightarrow> (input_signature, wire_error) outcome" where
  "signature_from_pb W pb = of_lib (sig_from_vec W (pb_data pb))"

section \<open>Transaction\<close>

text \<open>\<open>impl_wrapper_for_bitcoin_type\<close>.\<close>

definition transaction_to_bytes :: "env \<Rightarrow> transaction \<Rightarrow> bytes" where
  "transaction_to_bytes E tx = consensus_serialize E tx"

definition transaction_from_bytes :: "'m wire_env \<Rightarrow> bytes \<Rightarrow> (transaction, wire_error) outcome" where
  "transaction_from_bytes W b = of_lib (tx_deserialize W b)"

definition transaction_object_hash :: "env \<Rightarrow> 'm wire_env \<Rightarrow> transaction \<Rightarrow> hash" where
  "transaction_object_hash E W tx = crypto_hash W (consensus_serialize E tx)"

definition transaction_from_hex :: "'m wire_env \<Rightarrow> string \<Rightarrow> (transaction, wire_error) outcome" where
  "transaction_from_hex W hex =
     bind_oc (of_lib (hex_decode W hex)) (\<lambda>bytes. of_lib (tx_deserialize W bytes))"

definition transaction_encode_hex :: "env \<Rightarrow> 'm wire_env \<Rightarrow> transaction \<Rightarrow> string" where
  "transaction_encode_hex E W tx = hex_encode W (consensus_serialize E tx)"

definition transaction_encode_hex_upper :: "env \<Rightarrow> 'm wire_env \<Rightarrow> transaction \<Rightarrow> string" where
  "transaction_encode_hex_upper E W tx = hex_encode_upper W (consensus_serialize E tx)"

text \<open>
  \<open>impl_string_conversions_for_hex\<close>: \<open>to_string\<close> and \<open>from_str\<close> go through the lower hexadecimal form,
  and \<open>impl_serde_str\<close> serialises that string.
\<close>

definition transaction_to_string :: "env \<Rightarrow> 'm wire_env \<Rightarrow> transaction \<Rightarrow> string" where
  "transaction_to_string E W tx = transaction_encode_hex E W tx"

definition transaction_from_str :: "'m wire_env \<Rightarrow> string \<Rightarrow> (transaction, wire_error) outcome" where
  "transaction_from_str W s = transaction_from_hex W s"

definition signature_to_string :: "'m wire_env \<Rightarrow> input_signature \<Rightarrow> string" where
  "signature_to_string W s = signature_encode_hex W s"

definition signature_from_str :: "'m wire_env \<Rightarrow> string \<Rightarrow> (input_signature, wire_error) outcome" where
  "signature_from_str W s = signature_from_hex W s"

text \<open>
  \<open>impl_serde_str\<close>: a value is serialised as its string, and deserialised from a string. \<open>serialize_str\<close>
  and \<open>deserialize_str\<close> are the functions of the serialiser for strings.
\<close>

definition serde_str_serialize :: "('a \<Rightarrow> string) \<Rightarrow> (string \<Rightarrow> 's) \<Rightarrow> 'a \<Rightarrow> 's" where
  "serde_str_serialize to_string serialize_str x = serialize_str (to_string x)"

definition serde_str_deserialize ::
  "(string \<Rightarrow> ('a, wire_error) outcome) \<Rightarrow> ('s \<Rightarrow> lib_error + string) \<Rightarrow> 's \<Rightarrow> ('a, wire_error) outcome" where
  "serde_str_deserialize from_str deserialize_str d =
     bind_oc (of_lib (deserialize_str d)) from_str"

definition transaction_to_pb :: "env \<Rightarrow> transaction \<Rightarrow> btc_message" where
  "transaction_to_pb E tx = \<lparr>pb_data = consensus_serialize E tx\<rparr>"

definition transaction_from_pb :: "'m wire_env \<Rightarrow> btc_message \<Rightarrow> (transaction, wire_error) outcome" where
  "transaction_from_pb W pb = of_lib (tx_deserialize W (pb_data pb))"

text \<open>The payload extractor, \<open>examples/btc_payload_extractor.rs\<close>, up to the printing of the JSON.\<close>

datatype extractor_error = Extractor_Hex wire_error | No_Anchoring_Payload

definition extract_payload ::
  "env \<Rightarrow> 'm wire_env \<Rightarrow> string \<Rightarrow> (payload, extractor_error) outcome" where
  "extract_payload E W hex =
     bind_oc (map_err Extractor_Hex (transaction_from_hex W hex)) (\<lambda>transaction.
     bind_oc (anchoring_payload E transaction) (\<lambda>payload.
     ok_or No_Anchoring_Payload payload))"

section \<open>Sha256d\<close>

definition sha256d_to_pb :: "env \<Rightarrow> sha256d \<Rightarrow> btc_message" where
  "sha256d_to_pb E d = \<lparr>pb_data = sha256d_bytes E d\<rparr>"

definition sha256d_from_pb :: "env \<Rightarrow> btc_message \<Rightarrow> (sha256d, wire_error) outcome" where
  "sha256d_from_pb E pb = ok_or Wrong_Hash_Length (sha256d_hash_from_slice E (pb_data pb))"

definition sha256d_to_bytes :: "env \<Rightarrow> 'm wire_env \<Rightarrow> sha256d \<Rightarrow> (bytes, 'e) outcome" where
  "sha256d_to_bytes E W d =
     (case pb_write_to_bytes W (pb_data (sha256d_to_pb E d)) of
        Inr b \<Rightarrow> Ok b
      | Inl e \<Rightarrow> Panic (Expect_None ''Error while serializing value''))"

definition sha256d_from_bytes :: "env \<Rightarrow> 'm wire_env \<Rightarrow> bytes \<Rightarrow> (sha256d, wire_error) outcome" where
  "sha256d_from_bytes E W b =
     bind_oc (of_lib (pb_merge_from_bytes W b)) (\<lambda>data. sha256d_from_pb E \<lparr>pb_data = data\<rparr>)"

section \<open>Config\<close>

record 'm config_message =
  pb_network :: u32
  pb_anchoring_keys :: "'m list"
  pb_anchoring_interval :: u64
  pb_transaction_fee :: u64

definition config_to_pb :: "'m wire_env \<Rightarrow> config \<Rightarrow> 'm config_message" where
  "config_to_pb W c = \<lparr>pb_network = network_magic W (network c),
     pb_anchoring_keys = map (keys_to_pb W) (anchoring_keys c),
     pb_anchoring_interval = anchoring_interval c, pb_transaction_fee = transaction_fee c\<rparr>"

text \<open>The elements of a vector are converted one after the other, up to the first error.\<close>

fun keys_vec_from_pb :: "'m wire_env \<Rightarrow> 'm list \<Rightarrow> (anchoring_node_keys list, wire_error) outcome" where
  "keys_vec_from_pb W [] = Ok []"
| "keys_vec_from_pb W (m # ms) =
     bind_oc (of_lib (keys_from_pb W m)) (\<lambda>k.
     bind_oc (keys_vec_from_pb W ms) (\<lambda>ks. Ok (k # ks)))"

definition config_from_pb :: "'m wire_env \<Rightarrow> 'm config_message \<Rightarrow> (config, wire_error) outcome" where
  "config_from_pb W pb =
     bind_oc (ok_or Unknown_Bitcoin_Network (network_from_magic W (pb_network pb))) (\<lambda>net.
     bind_oc (keys_vec_from_pb W (pb_anchoring_keys pb)) (\<lambda>keys.
     Ok \<lparr>network = net, anchoring_keys = keys, anchoring_interval = pb_anchoring_interval pb,
       transaction_fee = pb_transaction_fee pb\<rparr>))"

section \<open>Round trips\<close>

text \<open>
  The string form of a private key is the wallet import format, which has one prefix for the main
  network and one for the test networks: a key for the main network or the test network is read back,
  and a key that is read is never one for \<open>Regtest\<close>.
\<close>

definition wif_laws :: "'m wire_env \<Rightarrow> bool" where
  "wif_laws W \<longleftrightarrow>
     (\<forall>k. sk_network W k \<noteq> Regtest \<longrightarrow> sk_from_str W (sk_to_string W k) = Inr k) \<and>
     (\<forall>s k. sk_from_str W s = Inr k \<longrightarrow> sk_network W k \<noteq> Regtest)"

text \<open>
  The crates read what they wrote: public keys, signatures, hexadecimal strings in either case, and
  messages. A network is identified by its magic number.
\<close>

definition wire_laws :: "'m wire_env \<Rightarrow> bool" where
  "wire_laws W \<longleftrightarrow> wif_laws W \<and>
     (\<forall>k. pk_from_slice W (pk_write_into W k) = Inr k) \<and>
     (\<forall>s. sig_from_vec W (sig_into_vec W s) = Inr s) \<and>
     (\<forall>b. hex_decode W (hex_encode W b) = Inr b \<and> hex_decode W (hex_encode_upper W b) = Inr b) \<and>
     (\<forall>b. \<exists>m. pb_write_to_bytes W b = Inr m \<and> pb_merge_from_bytes W m = Inr b) \<and>
     (\<forall>n. network_from_magic W (network_magic W n) = Some n) \<and>
     (\<forall>k. keys_from_pb W (keys_to_pb W k) = Inr k)"

definition ok_value :: "('a, 'e) outcome \<Rightarrow> 'a option" where
  "ok_value m = (case m of Ok x \<Rightarrow> Some x | _ \<Rightarrow> None)"

lemma ok_value_Some_iff [simp]: "ok_value m = Some x \<longleftrightarrow> m = Ok x"
  by (auto simp: ok_value_def split: outcome.split)

locale wire_crates =
  fixes W :: "'m wire_env"
  assumes laws: "wire_laws W"
begin

lemma each_law:
  "pk_from_slice W (pk_write_into W k) = Inr k" "sig_from_vec W (sig_into_vec W s) = Inr s"
  "sk_network W sk \<noteq> Regtest \<Longrightarrow> sk_from_str W (sk_to_string W sk) = Inr sk"
  "hex_decode W (hex_encode W b) = Inr b" "hex_decode W (hex_encode_upper W b) = Inr b"
  "network_from_magic W (network_magic W n) = Some n"
  "keys_from_pb W (keys_to_pb W ks) = Inr ks"
  using laws by (simp_all add: wire_laws_def wif_laws_def)

lemma keys_vec_from_pb_back: "keys_vec_from_pb W (map (keys_to_pb W) ks) = Ok ks"
  by (induction ks) (simp_all add: each_law)

end

sublocale wire_crates \<subseteq> public_key: roundtrip "public_key_to_bytes W" "\<lambda>b. ok_value (public_key_from_bytes W b)"
  by unfold_locales (simp add: public_key_to_bytes_def public_key_from_bytes_def each_law)

sublocale wire_crates \<subseteq> signature: roundtrip "signature_to_bytes W" "\<lambda>b. ok_value (signature_from_bytes W b)"
  by unfold_locales (simp add: signature_to_bytes_def signature_from_bytes_def each_law)

sublocale wire_crates \<subseteq> config: roundtrip "config_to_pb W" "\<lambda>pb. ok_value (config_from_pb W pb)"
  by unfold_locales (simp add: config_to_pb_def config_from_pb_def keys_vec_from_pb_back each_law)

context wire_crates
begin

lemma values_back:
  "public_key_from_bytes W (public_key_to_bytes W k) = Ok k"
  "signature_from_bytes W (signature_to_bytes W s) = Ok s"
  "config_from_pb W (config_to_pb W c) = Ok c"
  using public_key.decode_encode [of k] signature.decode_encode [of s] config.decode_encode [of c]
  by simp_all

end

text \<open>
  Encodings that satisfy the laws, for the witnesses: transactions, hexadecimal strings and the magic
  numbers are the real ones. Private keys are numbered, three in a row for the three networks, and the
  last two of the three have the same string.
\<close>

definition sample_wire :: "anchoring_node_keys wire_env" where
  "sample_wire = \<lparr>
     pk_write_into = (\<lambda>k. case k of Btc_Public_Key n \<Rightarrow> le_bytes n n),
     pk_from_slice = (\<lambda>b. Inr (Btc_Public_Key (le_val b))),
     tx_deserialize = decode_tx,
     sig_into_vec = (\<lambda>s. case s of Input_Signature b \<Rightarrow> b),
     sig_from_vec = (\<lambda>b. Inr (Input_Signature b)),
     sk_network = (\<lambda>k. case k of Btc_Private_Key n \<Rightarrow>
       if n mod 3 = 0 then Bitcoin else if n mod 3 = 1 then Testnet else Regtest),
     sk_to_string = (\<lambda>k. case k of Btc_Private_Key n \<Rightarrow> replicate (if n mod 3 = 2 then n - 1 else n) CHR ''1''),
     sk_from_str = (\<lambda>s. if length s mod 3 = 2 then Inl (Lib_Error ''key'') else Inr (Btc_Private_Key (length s))),
     hex_encode = encode_hex False, hex_encode_upper = encode_hex True, hex_decode = decode_hex,
     crypto_hash = (\<lambda>_. Hash 0),
     network_magic = (\<lambda>n. case n of Bitcoin \<Rightarrow> 0xD9B4BEF9 | Testnet \<Rightarrow> 0x0709110B | Regtest \<Rightarrow> 0xDAB5BFFA),
     network_from_magic = (\<lambda>m. if m = 0xD9B4BEF9 then Some Bitcoin else if m = 0x0709110B then Some Testnet
       else if m = 0xDAB5BFFA then Some Regtest else None),
     keys_to_pb = (\<lambda>k. k), keys_from_pb = Inr, pb_write_to_bytes = Inr, pb_merge_from_bytes = Inr\<rparr>"

lemma sample_wire_laws: "wire_laws sample_wire"
proof -
  have "le_val (le_bytes n n) = n" for n
    using less_le_trans [OF less_exp power_mono [of "2 :: nat" 256 n]] by (intro le_val_le_bytes) simp
  then show ?thesis
    by (auto simp: wire_laws_def wif_laws_def sample_wire_def split: btc_public_key.split
        btc_private_key.splits input_signature.split network.splits if_splits)
qed

interpretation sample_crates: wire_crates sample_wire
  by unfold_locales (rule sample_wire_laws)

text \<open>
  A configuration is read back from its message; in particular two configurations never share a
  message, and a message with another magic number than those of the Bitcoin networks is rejected.
\<close>

lemma config_message_read_back:
  assumes "wire_laws W"
  shows "config_from_pb W (config_to_pb W c) = Ok c"
    "config_to_pb W c = config_to_pb W c' \<Longrightarrow> c = c'"
    "network_from_magic W (pb_network pb) = None \<Longrightarrow> config_from_pb W pb = Err Unknown_Bitcoin_Network"
proof -
  note read_back = wire_crates.values_back(3) [OF wire_crates.intro, OF assms]
  show "config_from_pb W (config_to_pb W c) = Ok c" by (rule read_back)
  show "c = c'" if "config_to_pb W c = config_to_pb W c'"
    using that read_back by (metis outcome.inject(1))
qed (simp add: config_from_pb_def)

lemmas conversion_defs = private_key_to_string_def private_key_from_str_def public_key_to_bytes_def public_key_from_bytes_def public_key_from_hex_def
  public_key_encode_hex_def public_key_encode_hex_upper_def public_key_from_pb_def public_key_to_pb_def
  signature_to_bytes_def signature_from_bytes_def signature_from_str_def signature_to_string_def
  signature_from_hex_def signature_encode_hex_def signature_encode_hex_upper_def signature_from_pb_def
  signature_to_pb_def transaction_from_bytes_def transaction_to_bytes_def transaction_from_str_def
  transaction_to_string_def transaction_from_hex_def transaction_encode_hex_def
  transaction_encode_hex_upper_def transaction_from_pb_def transaction_to_pb_def sha256d_from_pb_def
  sha256d_to_pb_def sha256d_to_bytes_def sha256d_from_bytes_def

text \<open>
  Every form of a value is read back: private keys, except those for \<open>Regtest\<close>, from their strings, public keys, input signatures and transactions from their
  bytes, from their hexadecimal strings in either case, from \<open>to_string\<close> where there is one and from
  their messages, and a \<open>Sha256d\<close> from its message and from its bytes, whose serialisation never panics.
  For a transaction this rests on the consensus encoding of that transaction.
\<close>

lemma values_read_back:
  assumes "wire_laws W" and "hash_laws E" and "tx_deserialize W (consensus_serialize E tx) = Inr tx"
  shows "public_key_from_bytes W (public_key_to_bytes W k) = Ok k"
    "public_key_from_hex W (public_key_encode_hex W k) = Ok k"
    "public_key_from_hex W (public_key_encode_hex_upper W k) = Ok k"
    "public_key_from_pb W (public_key_to_pb W k) = Ok k"
    "sk_network W sk \<noteq> Regtest \<Longrightarrow> private_key_from_str W (private_key_to_string W sk) = Ok sk"
    "signature_from_bytes W (signature_to_bytes W s) = Ok s"
    "signature_from_str W (signature_to_string W s) = Ok s"
    "signature_from_hex W (signature_encode_hex_upper W s) = Ok s"
    "signature_from_pb W (signature_to_pb W s) = Ok s"
    "transaction_from_bytes W (transaction_to_bytes E tx) = Ok tx"
    "transaction_from_str W (transaction_to_string E W tx) = Ok tx"
    "transaction_from_hex W (transaction_encode_hex_upper E W tx) = Ok tx"
    "transaction_from_pb W (transaction_to_pb E tx) = Ok tx"
    "sha256d_from_pb E (sha256d_to_pb E d) = Ok d"
    "\<exists>b. sha256d_to_bytes E W d = (Ok b :: (_, 'e) outcome) \<and> sha256d_from_bytes E W b = Ok d"
proof -
  obtain b where "pb_write_to_bytes W (sha256d_bytes E d) = Inr b"
    "pb_merge_from_bytes W b = Inr (sha256d_bytes E d)"
    using assms(1) unfolding wire_laws_def by blast
  then show "\<exists>b. sha256d_to_bytes E W d = (Ok b :: (_, 'e) outcome) \<and> sha256d_from_bytes E W b = Ok d"
    using assms(2) by (simp add: conversion_defs hash_lawsD)
qed (use assms(3) hash_lawsD [OF assms(2)] wire_crates.each_law [OF wire_crates.intro [OF assms(1)]] in
    \<open>simp_all add: conversion_defs\<close>)

text \<open>
  Hence what is serialised through its string is deserialised, with every serialiser that returns the
  strings it was given.
\<close>

lemma serialised_read_back:
  assumes "wire_laws W" and "hash_laws E" and "tx_deserialize W (consensus_serialize E tx) = Inr tx"
    and "\<And>s. deserialize_str (serialize_str s) = Inr s"
  shows "sk_network W sk \<noteq> Regtest \<Longrightarrow> serde_str_deserialize (private_key_from_str W) deserialize_str
      (serde_str_serialize (private_key_to_string W) serialize_str sk) = Ok sk"
    "serde_str_deserialize (signature_from_str W) deserialize_str
      (serde_str_serialize (signature_to_string W) serialize_str sig) = Ok sig"
    "serde_str_deserialize (transaction_from_str W) deserialize_str
      (serde_str_serialize (transaction_to_string E W) serialize_str tx) = Ok tx"
  using values_read_back [OF assms(1-3)]
  by (simp_all add: serde_str_deserialize_def serde_str_serialize_def assms(4))

end
