(* ===== verification/Sync_Config.thy ===== *)
theory Sync_Config
  imports Sync_Utility Api_Endpoints Btc_Types
begin

text \<open>
  The configuration of the synchronisation utility and its commands,
  \<open>examples/btc_anchoring_sync.rs\<close>. The file system and the standard output are a record of their
  contents; the operating system may refuse any operation. The TOML reader and writer work on
  documents of strings: \<open>flatten_keypairs\<close> makes a list of key pairs of the hash map, and both keys of
  a pair are serialised as their strings (\<open>impl_serde_str\<close>). A \<open>HashMap\<close> is iterated over in an order
  that is not specified, so that order is an argument, as are the key generator and the conversions of
  the inner keys.
\<close>

section \<open>The machine the utility runs on\<close>

type_synonym path = "string list"

datatype fs_op = Fs_Open path | Fs_Create_Dir path | Fs_Create path | Fs_Write path

datatype command_error =
    Io_Error fs_op
  | Toml_Error lib_error
  | Key_Error wire_error \<comment> \<open>a key of the document, reported by the TOML reader\<close>
  | Rpc_Client_Error rpc_error
  | Unknown_Network \<comment> \<open>the pool of keys is empty\<close>

record 'g machine =
  files :: "path \<rightharpoonup> string"
  refused :: "fs_op \<Rightarrow> bool"
  key_source :: 'g
  printed :: "string list"

definition fs_try :: "fs_op \<Rightarrow> ('g machine \<Rightarrow> 'g machine) \<Rightarrow> ('g machine, unit, command_error) io" where
  "fs_try op f m = (if refused m op then (Err (Io_Error op), m) else (Ok (), f m))"

text \<open>\<open>File::open\<close> and \<open>read_to_string\<close>, \<open>File::create\<close> (which empties the file) and \<open>write_all\<close>.\<close>

definition fs_read :: "path \<Rightarrow> ('g machine, string, command_error) io" where
  "fs_read p m =
     (case files m p of
        None \<Rightarrow> (Err (Io_Error (Fs_Open p)), m)
      | Some text \<Rightarrow> if refused m (Fs_Open p) then (Err (Io_Error (Fs_Open p)), m) else (Ok text, m))"

definition fs_create :: "path \<Rightarrow> ('g machine, unit, command_error) io" where
  "fs_create p = fs_try (Fs_Create p) (\<lambda>m. m\<lparr>files := (files m)(p \<mapsto> [])\<rparr>)"

definition fs_write :: "path \<Rightarrow> string \<Rightarrow> ('g machine, unit, command_error) io" where
  "fs_write p text = fs_try (Fs_Write p) (\<lambda>m. m\<lparr>files := (files m)(p \<mapsto> text)\<rparr>)"

definition parent :: "path \<Rightarrow> path option" where
  "parent p = (if p = [] then None else Some (butlast p))"

definition println :: "string \<Rightarrow> ('g machine, unit, 'e) io" where
  "println text m = (Ok (), m\<lparr>printed := printed m @ [text]\<rparr>)"

section \<open>SyncConfig\<close>

record bitcoin_rpc_config =
  rpc_host :: string
  rpc_user :: "string option"
  rpc_password :: "string option"

type_synonym key_pool = "btc_public_key \<rightharpoonup> btc_private_key"

record sync_config =
  exonum_private_api :: string
  sync_instance_name :: string
  bitcoin_key_pool :: key_pool
  sync_rpc_config :: "bitcoin_rpc_config option"

record bitcoin_keypair =
  kp_public_key :: btc_public_key
  kp_private_key :: btc_private_key

text \<open>The document that is written: the two keys of a pair are strings.\<close>

record keypair_document =
  doc_public_key :: string
  doc_private_key :: string

record sync_document =
  doc_private_api :: string
  doc_instance_name :: string
  doc_key_pool :: "keypair_document list"
  doc_rpc_config :: "bitcoin_rpc_config option"

text \<open>
  The parameters: iteration order, the key generator, the string form of \<open>bitcoin::PublicKey\<close>, the
  conversions of private keys (fields of \<open>key_conv\<close>), and the TOML crate.
\<close>

record ('m, 'g) utility_env =
  key_conv :: "'m wire_env"
  hash_iter :: "key_pool \<Rightarrow> (btc_public_key \<times> btc_private_key) list"
  secp_gen_keypair :: "network \<Rightarrow> 'g \<Rightarrow> (btc_public_key \<times> btc_private_key) \<times> 'g"
  public_key_to_string :: "btc_public_key \<Rightarrow> string"
  pk_from_str :: "string \<Rightarrow> lib_error + btc_public_key"
  toml_from_str :: "string \<Rightarrow> lib_error + sync_document"
  toml_to_str :: "sync_document \<Rightarrow> lib_error + string"

definition gen_keypair ::
  "('m, 'g) utility_env \<Rightarrow> network \<Rightarrow> ('g machine, btc_public_key \<times> btc_private_key, 'e) io" where
  "gen_keypair U net m = (case secp_gen_keypair U net (key_source m) of
     (pair, g) \<Rightarrow> (Ok pair, m\<lparr>key_source := g\<rparr>))"

text \<open>
  \<open>BitcoinKeypair\<close> with its derived serialisation, which is that of its fields: each key is the string
  that \<open>impl_serde_str\<close> makes of it.
\<close>

definition keypair_serialize :: "('m, 'g) utility_env \<Rightarrow> bitcoin_keypair \<Rightarrow> keypair_document" where
  "keypair_serialize U kp = \<lparr>
     doc_public_key = serde_str_serialize (public_key_to_string U) (\<lambda>s. s) (kp_public_key kp),
     doc_private_key = serde_str_serialize (private_key_to_string (key_conv U)) (\<lambda>s. s) (kp_private_key kp)\<rparr>"

definition keypair_deserialize ::
  "('m, 'g) utility_env \<Rightarrow> keypair_document \<Rightarrow> (bitcoin_keypair, wire_error) outcome" where
  "keypair_deserialize U d =
     bind_oc (serde_str_deserialize (\<lambda>s. of_lib (pk_from_str U s)) Inr (doc_public_key d)) (\<lambda>public_key.
     bind_oc (serde_str_deserialize (private_key_from_str (key_conv U)) Inr (doc_private_key d)) (\<lambda>private_key.
     Ok \<lparr>kp_public_key = public_key, kp_private_key = private_key\<rparr>))"

fun keypairs_deserialize ::
  "('m, 'g) utility_env \<Rightarrow> keypair_document list \<Rightarrow> (bitcoin_keypair list, wire_error) outcome" where
  "keypairs_deserialize U [] = Ok []"
| "keypairs_deserialize U (d # ds) =
     bind_oc (keypair_deserialize U d) (\<lambda>kp.
     bind_oc (keypairs_deserialize U ds) (\<lambda>kps. Ok (kp # kps)))"

text \<open>\<open>flatten_keypairs\<close>.\<close>

definition flatten_serialize :: "('m, 'g) utility_env \<Rightarrow> key_pool \<Rightarrow> keypair_document list" where
  "flatten_serialize U keys =
     (let keypairs = map (\<lambda>(public_key, private_key).
            \<lparr>kp_public_key = public_key, kp_private_key = private_key\<rparr>) (hash_iter U keys)
      in map (keypair_serialize U) keypairs)"

definition flatten_deserialize ::
  "('m, 'g) utility_env \<Rightarrow> keypair_document list \<Rightarrow> (key_pool, wire_error) outcome" where
  "flatten_deserialize U ds =
     bind_oc (keypairs_deserialize U ds) (\<lambda>keypairs.
     Ok (foldl (\<lambda>m keypair. m(kp_public_key keypair \<mapsto> kp_private_key keypair)) Map.empty keypairs))"

definition bitcoin_network :: "('m, 'g) utility_env \<Rightarrow> sync_config \<Rightarrow> network option" where
  "bitcoin_network U c =
     map_option (sk_network (key_conv U)) (get_nth (map snd (hash_iter U (bitcoin_key_pool c))) 0)"

definition sync_config_of_document ::
  "('m, 'g) utility_env \<Rightarrow> sync_document \<Rightarrow> (sync_config, wire_error) outcome" where
  "sync_config_of_document U d =
     bind_oc (flatten_deserialize U (doc_key_pool d)) (\<lambda>keys.
     Ok \<lparr>exonum_private_api = doc_private_api d, sync_instance_name = doc_instance_name d,
       bitcoin_key_pool = keys, sync_rpc_config = doc_rpc_config d\<rparr>)"

definition document_of_sync_config :: "('m, 'g) utility_env \<Rightarrow> sync_config \<Rightarrow> sync_document" where
  "document_of_sync_config U c = \<lparr>doc_private_api = exonum_private_api c,
     doc_instance_name = sync_instance_name c,
     doc_key_pool = flatten_serialize U (bitcoin_key_pool c), doc_rpc_config = sync_rpc_config c\<rparr>"

definition sync_config_load :: "('m, 'g) utility_env \<Rightarrow> path \<Rightarrow> ('g machine, sync_config, command_error) io" where
  "sync_config_load U p =
     bind_io (fs_read p) (\<lambda>toml.
     bind_io (lift_io (map_err Toml_Error (of_sum (toml_from_str U toml)))) (\<lambda>d.
     lift_io (map_err Key_Error (sync_config_of_document U d))))"

definition sync_config_save ::
  "('m, 'g) utility_env \<Rightarrow> sync_config \<Rightarrow> path \<Rightarrow> ('g machine, unit, command_error) io" where
  "sync_config_save U c p =
     bind_io (case parent p of
                Some dir \<Rightarrow> fs_try (Fs_Create_Dir dir) (\<lambda>m. m)
              | None \<Rightarrow> lift_io (Ok ())) (\<lambda>_.
     bind_io (fs_create p) (\<lambda>_.
     bind_io (lift_io (map_err Toml_Error (of_sum (toml_to_str U (document_of_sync_config U c))))) (\<lambda>text.
     fs_write p text)))"

section \<open>The commands\<close>

record generate_config_command =
  gc_output :: path
  gc_exonum_private_api :: string
  gc_bitcoin_network :: network
  gc_instance_name :: string
  gc_rpc_host :: "string option"
  gc_rpc_user :: "string option"
  gc_rpc_password :: "string option"

definition gc_bitcoin_rpc_config :: "generate_config_command \<Rightarrow> bitcoin_rpc_config option" where
  "gc_bitcoin_rpc_config cmd = map_option (\<lambda>host. \<lparr>rpc_host = host, rpc_user = gc_rpc_user cmd,
     rpc_password = gc_rpc_password cmd\<rparr>) (gc_rpc_host cmd)"

definition generate_config_run ::
  "('m, 'g) utility_env \<Rightarrow> generate_config_command \<Rightarrow> ('g machine, unit, command_error) io" where
  "generate_config_run U cmd =
     bind_io (gen_keypair U (gc_bitcoin_network cmd)) (\<lambda>bitcoin_keypair.
     let sync_config = \<lparr>exonum_private_api = gc_exonum_private_api cmd,
           sync_instance_name = gc_instance_name cmd,
           bitcoin_key_pool = [fst bitcoin_keypair \<mapsto> snd bitcoin_keypair],
           sync_rpc_config = gc_bitcoin_rpc_config cmd\<rparr> in
     bind_io (sync_config_save U sync_config (gc_output cmd)) (\<lambda>_.
     println (public_key_to_string U (fst bitcoin_keypair))))"

definition generate_keypair_run ::
  "('m, 'g) utility_env \<Rightarrow> path \<Rightarrow> ('g machine, unit, command_error) io" where
  "generate_keypair_run U config =
     bind_io (sync_config_load U config) (\<lambda>sync_config.
     bind_io (lift_io (ok_or Unknown_Network (bitcoin_network U sync_config))) (\<lambda>network.
     bind_io (gen_keypair U network) (\<lambda>bitcoin_keypair.
     bind_io (sync_config_save U (sync_config\<lparr>bitcoin_key_pool :=
         (bitcoin_key_pool sync_config)(fst bitcoin_keypair \<mapsto> snd bitcoin_keypair)\<rparr>) config) (\<lambda>_.
     println (public_key_to_string U (fst bitcoin_keypair))))))"

text \<open>
  \<open>RunCommand::run\<close> up to its loop: the client, the signing task over the key pool, and the relay if
  one is configured. The constructor of the RPC client is an argument.
\<close>

definition rpc_client_try_from ::
  "(string \<Rightarrow> string \<times> string \<Rightarrow> rpc_error + 'w rpc_client) \<Rightarrow> bitcoin_rpc_config \<Rightarrow> rpc_error + 'w rpc_client" where
  "rpc_client_try_from rpc_new c =
     rpc_new (rpc_host c) (unwrap_or_default [] (rpc_user c), unwrap_or_default [] (rpc_password c))"

definition run_setup ::
  "('m, 'g) utility_env \<Rightarrow> 'j json_codec \<Rightarrow> ('w, 'j) http \<Rightarrow> (transaction \<Rightarrow> string) \<Rightarrow>
     (string \<Rightarrow> string \<times> string \<Rightarrow> rpc_error + 'w rpc_client) \<Rightarrow> sync_config \<Rightarrow>
     (('w, lib_error) chain_update_task \<times> ('w, lib_error, rpc_error) sync_task option, command_error) outcome" where
  "run_setup U J http tx_to_string rpc_new c =
     (let client = http_private_api J
            (api_client_new http (exonum_private_api c) (sync_instance_name c));
          chain_updater = chain_update_new (hash_iter U (bitcoin_key_pool c)) client in
      case sync_rpc_config c of
        None \<Rightarrow> Ok (chain_updater, None)
      | Some rpc_config \<Rightarrow>
          bind_oc (map_err Rpc_Client_Error (of_sum (rpc_client_try_from rpc_new rpc_config))) (\<lambda>rpc.
          Ok (chain_updater, Some (sync_new (rpc_relay tx_to_string rpc) client))))"

text \<open>The whole command, for a given number of rounds; the configuration is read at the start.\<close>

definition run_command ::
  "env \<Rightarrow> ('m, 'g) utility_env \<Rightarrow> 'j json_codec \<Rightarrow> ('w, 'j) http \<Rightarrow> (transaction \<Rightarrow> string) \<Rightarrow>
     (string \<Rightarrow> string \<times> string \<Rightarrow> rpc_error + 'w rpc_client) \<Rightarrow> ('w \<Rightarrow> 'w) \<Rightarrow> path \<Rightarrow> 'g machine \<Rightarrow>
     nat \<Rightarrow> ('w, u64 option, command_error + run_error) io" where
  "run_command E U J http tx_to_string rpc_new delay config m n =
     bind_io (lift_io (map_err Inl (bind_oc (fst (sync_config_load U config m)) (\<lambda>sync_config.
       run_setup U J http tx_to_string rpc_new sync_config)))) (\<lambda>(chain_updater, bitcoin_relay) w.
     case run_rounds E chain_updater bitcoin_relay delay n None w of (r, w') \<Rightarrow> (map_err Inr r, w'))"

text \<open>
  The dispatch of the parsed command line. A command acts on the machine and, when it runs the tasks,
  on the node and the Bitcoin network; \<open>n\<close> is the number of rounds of \<open>run\<close>.
\<close>

datatype commands =
    GenerateConfig generate_config_command
  | Run path
  | GenerateKeypair path

definition commands_run ::
  "env \<Rightarrow> ('m, 'g) utility_env \<Rightarrow> 'j json_codec \<Rightarrow> ('w, 'j) http \<Rightarrow> (transaction \<Rightarrow> string) \<Rightarrow>
     (string \<Rightarrow> string \<times> string \<Rightarrow> rpc_error + 'w rpc_client) \<Rightarrow> ('w \<Rightarrow> 'w) \<Rightarrow> nat \<Rightarrow> commands \<Rightarrow>
     ('g machine \<times> 'w, unit, command_error + run_error) io" where
  "commands_run E U J http tx_to_string rpc_new delay n cmd = (\<lambda>(m, w).
     case cmd of
       GenerateConfig cmd \<Rightarrow> (case generate_config_run U cmd m of (r, m') \<Rightarrow> (map_err Inl r, (m', w)))
     | GenerateKeypair config \<Rightarrow> (case generate_keypair_run U config m of (r, m') \<Rightarrow> (map_err Inl r, (m', w)))
     | Run config \<Rightarrow> (case run_command E U J http tx_to_string rpc_new delay config m n w of
         (r, w') \<Rightarrow> (map_ok (\<lambda>_. ()) r, (m, w'))))"

section \<open>Saving and loading\<close>

text \<open>
  What the commands rely on: a hash map's iterator yields each of its entries once, a key is generated
  for the network that was asked for, the strings of keys are read back (those of private keys with
  the exception of \<open>wif_laws\<close>), and the TOML reader reads what the writer wrote.
\<close>

definition utility_laws :: "('m, 'g) utility_env \<Rightarrow> bool" where
  "utility_laws U \<longleftrightarrow> wif_laws (key_conv U) \<and>
     (\<forall>keys. finite (dom keys) \<longrightarrow>
        map_of (hash_iter U keys) = keys \<and> distinct (map fst (hash_iter U keys))) \<and>
     (\<forall>net g. sk_network (key_conv U) (snd (fst (secp_gen_keypair U net g))) = net) \<and>
     (\<forall>k. pk_from_str U (public_key_to_string U k) = Inr k) \<and>
     (\<forall>d toml. toml_to_str U d = Inr toml \<longrightarrow> toml_from_str U toml = Inr d)"

text \<open>A key pool whose private keys have a network that their strings show.\<close>

definition portable_pool :: "('m, 'g) utility_env \<Rightarrow> key_pool \<Rightarrow> bool" where
  "portable_pool U keys \<longleftrightarrow> finite (dom keys) \<and> (\<forall>sk \<in> ran keys. sk_network (key_conv U) sk \<noteq> Regtest)"

lemma portable_pool_update:
  "portable_pool U keys \<Longrightarrow> sk_network (key_conv U) sk \<noteq> Regtest \<Longrightarrow> portable_pool U (keys(pk \<mapsto> sk))"
  by (auto simp: portable_pool_def ran_def split: if_splits)

lemma keypair_roundtrip:
  assumes "utility_laws U" "sk_network (key_conv U) (kp_private_key kp) \<noteq> Regtest"
  shows "keypair_deserialize U (keypair_serialize U kp) = Ok kp"
  using assms
  by (simp add: keypair_deserialize_def keypair_serialize_def serde_str_serialize_def
      serde_str_deserialize_def private_key_to_string_def private_key_from_str_def utility_laws_def
      wif_laws_def)

lemma keypairs_roundtrip:
  assumes "utility_laws U" "\<forall>kp \<in> set kps. sk_network (key_conv U) (kp_private_key kp) \<noteq> Regtest"
  shows "keypairs_deserialize U (map (keypair_serialize U) kps) = Ok kps"
  using assms(2) by (induction kps) (simp_all add: keypair_roundtrip [OF assms(1)])

lemma keypairs_deserialize_networks:
  assumes "utility_laws U" "keypairs_deserialize U ds = Ok kps" "kp \<in> set kps"
  shows "sk_network (key_conv U) (kp_private_key kp) \<noteq> Regtest"
proof -
  have one: "sk_network (key_conv U) (kp_private_key k) \<noteq> Regtest" if "keypair_deserialize U d = Ok k" for d k
    using that assms(1)
    by (auto simp: keypair_deserialize_def serde_str_deserialize_def private_key_from_str_def
        outcome_simps utility_laws_def wif_laws_def)
  show ?thesis
    using assms(2,3)
    by (induction ds arbitrary: kps) (auto simp: outcome_simps dest: one)
qed

lemma insert_keypairs_eq:
  "foldl (\<lambda>m k. m(kp_public_key k \<mapsto> kp_private_key k)) m kps =
     m ++ map_of (rev (map (\<lambda>k. (kp_public_key k, kp_private_key k)) kps))"
  by (induction kps arbitrary: m) (simp_all add: map_add_def fun_eq_iff split: option.split)

lemma flatten_deserialize_portable:
  assumes "utility_laws U" "flatten_deserialize U ds = Ok keys"
  shows "portable_pool U keys"
proof -
  obtain kps where kps: "keypairs_deserialize U ds = Ok kps"
    and keys: "keys = map_of (rev (map (\<lambda>k. (kp_public_key k, kp_private_key k)) kps))"
    using assms(2) by (auto simp: flatten_deserialize_def outcome_simps insert_keypairs_eq)
  have "sk \<in> kp_private_key ` set kps" if "keys pk = Some sk" for pk sk
    using map_of_SomeD [OF that [unfolded keys]] by auto
  then show ?thesis
    using keypairs_deserialize_networks [OF assms(1) kps]
    by (auto simp: portable_pool_def keys finite_dom_map_of ran_def)
qed

lemma flatten_roundtrip:
  assumes "utility_laws U" "portable_pool U keys"
  shows "flatten_deserialize U (flatten_serialize U keys) = Ok keys"
proof -
  let ?kps = "map (\<lambda>(pk, sk). \<lparr>kp_public_key = pk, kp_private_key = sk\<rparr>) (hash_iter U keys)"
  have iter: "map_of (hash_iter U keys) = keys" "distinct (map fst (hash_iter U keys))"
    using assms by (simp_all add: utility_laws_def portable_pool_def)
  have "snd x \<in> ran keys" if "x \<in> set (hash_iter U keys)" for x
    using that map_of_is_SomeI [OF iter(2), of "fst x" "snd x"] iter(1) by (auto intro: ranI)
  then have "keypairs_deserialize U (map (keypair_serialize U) ?kps) = Ok ?kps"
    using assms(2) by (intro keypairs_roundtrip [OF assms(1)]) (auto simp: portable_pool_def)
  moreover have "map (\<lambda>k. (kp_public_key k, kp_private_key k)) ?kps = hash_iter U keys"
    by (simp add: case_prod_beta comp_def)
  moreover have "map_of (rev (hash_iter U keys)) = keys"
    using iter by (metis distinct_rev map_of_inject_set rev_map set_rev)
  ultimately show ?thesis
    by (simp add: flatten_deserialize_def flatten_serialize_def Let_def insert_keypairs_eq)
qed

lemma document_roundtrip:
  "utility_laws U \<Longrightarrow> portable_pool U (bitcoin_key_pool c) \<Longrightarrow>
     sync_config_of_document U (document_of_sync_config U c) = Ok c"
  by (simp add: sync_config_of_document_def document_of_sync_config_def flatten_roundtrip)

lemma bind_io_Ok_iff:
  "bind_io m f w = (Ok y, w') \<longleftrightarrow> (\<exists>x v. m w = (Ok x, v) \<and> f x v = (Ok y, w'))"
  by (auto simp: bind_io_def split: prod.split outcome.split)

lemma fs_try_Ok_iff: "fs_try op f m = (Ok u, m') \<longleftrightarrow> \<not> refused m op \<and> m' = f m"
  by (auto simp: fs_try_def)

lemma sync_config_save_Ok:
  assumes "sync_config_save U c p m = (Ok u, m')"
  obtains toml where "toml_to_str U (document_of_sync_config U c) = Inr toml"
    "m' = m\<lparr>files := (files m)(p \<mapsto> toml)\<rparr>"
  using assms
  by (auto simp: sync_config_save_def bind_io_Ok_iff fs_create_def fs_write_def fs_try_Ok_iff
      lift_io_simps outcome_simps split: option.splits)

lemma sync_config_load_Ok:
  assumes "sync_config_load U p m = (Ok c, m')"
  obtains toml d where "files m p = Some toml" "\<not> refused m (Fs_Open p)" "toml_from_str U toml = Inr d"
    "sync_config_of_document U d = Ok c" "m' = m"
  using assms
  by (auto simp: sync_config_load_def bind_io_Ok_iff fs_read_def lift_io_simps outcome_simps
      split: option.splits if_splits)

lemma sync_config_load_same: "sync_config_load U p m = (Ok c, m') \<Longrightarrow> m' = m"
  by (erule sync_config_load_Ok)

lemma save_then_load:
  assumes "utility_laws U" "sync_config_save U c p m = (Ok u, m')" "portable_pool U (bitcoin_key_pool c)"
    and "\<not> refused m (Fs_Open p)"
  shows "sync_config_load U p m' = (Ok c, m')"
proof -
  obtain toml where toml: "toml_to_str U (document_of_sync_config U c) = Inr toml"
    and m': "m' = m\<lparr>files := (files m)(p \<mapsto> toml)\<rparr>"
    by (rule sync_config_save_Ok [OF assms(2)])
  have "toml_from_str U toml = Inr (document_of_sync_config U c)"
    using assms(1) toml by (simp add: utility_laws_def)
  then show ?thesis
    using assms(4) by (simp add: sync_config_load_def fs_read_def m' io_simps
        document_roundtrip [OF assms(1,3)])
qed

lemma loaded_pool_portable:
  "utility_laws U \<Longrightarrow> sync_config_load U p m = (Ok c, m') \<Longrightarrow> portable_pool U (bitcoin_key_pool c)"
  by (erule sync_config_load_Ok)
    (auto simp: sync_config_of_document_def outcome_simps dest: flatten_deserialize_portable)

lemma printed_loads: "sync_config_load U p (m\<lparr>printed := t\<rparr>) = (r, m\<lparr>printed := t\<rparr>) \<longleftrightarrow>
    sync_config_load U p m = (r, m)"
  by (auto simp: sync_config_load_def bind_io_def fs_read_def lift_io_def split: option.splits outcome.splits)

text \<open>
  What \<open>generate-config\<close> writes for another network than \<open>Regtest\<close>, \<open>run\<close> starts with: a pool of the
  one key pair whose public key was printed.
\<close>

lemma generated_config_loads:
  assumes "utility_laws U" "generate_config_run U cmd m = (Ok (), m')" "\<not> refused m (Fs_Open (gc_output cmd))"
    and "secp_gen_keypair U (gc_bitcoin_network cmd) (key_source m) = ((pk, sk), g)"
    and "gc_bitcoin_network cmd \<noteq> Regtest"
  shows "sync_config_load U (gc_output cmd) m' =
      (Ok \<lparr>exonum_private_api = gc_exonum_private_api cmd, sync_instance_name = gc_instance_name cmd,
         bitcoin_key_pool = [pk \<mapsto> sk], sync_rpc_config = gc_bitcoin_rpc_config cmd\<rparr>, m')"
    "printed m' = printed m @ [public_key_to_string U pk]"
proof -
  let ?c = "\<lparr>exonum_private_api = gc_exonum_private_api cmd, sync_instance_name = gc_instance_name cmd,
    bitcoin_key_pool = [pk \<mapsto> sk], sync_rpc_config = gc_bitcoin_rpc_config cmd\<rparr>"
  obtain m2 where save: "sync_config_save U ?c (gc_output cmd) (m\<lparr>key_source := g\<rparr>) = (Ok (), m2)"
    and m': "m' = m2\<lparr>printed := printed m2 @ [public_key_to_string U pk]\<rparr>"
    using assms(2,4) by (auto simp: generate_config_run_def bind_io_Ok_iff gen_keypair_def println_def Let_def)
  have "sk_network (key_conv U) (snd (fst (secp_gen_keypair U (gc_bitcoin_network cmd) (key_source m)))) =
      gc_bitcoin_network cmd"
    using assms(1) by (simp add: utility_laws_def)
  then have "portable_pool U [pk \<mapsto> sk]" using assms(4,5) by (simp add: portable_pool_def)
  then have "sync_config_load U (gc_output cmd) m2 = (Ok ?c, m2)"
    by (intro save_then_load [OF assms(1) save]) (use assms(3) in simp_all)
  then show "sync_config_load U (gc_output cmd) m' = (Ok ?c, m')" by (simp only: m' printed_loads)
  show "printed m' = printed m @ [public_key_to_string U pk]"
    by (rule sync_config_save_Ok [OF save]) (simp add: m')
qed

lemma map_of_singleton:
  assumes "map_of xs = [k \<mapsto> v]" "distinct (map fst xs)"
  shows "xs = [(k, v)]"
proof -
  have "x \<in> set xs \<longleftrightarrow> x = (k, v)" for x
    using map_of_eq_Some_iff [OF assms(2), of "fst x" "snd x"] assms(1) by (cases x) (auto split: if_splits)
  then have "set xs = {(k, v)}" by blast
  moreover from this have "length xs = 1"
    using distinct_card [of xs] assms(2) by (simp add: distinct_map)
  ultimately show ?thesis by (cases xs) auto
qed

lemma generated_config_runs:
  assumes "utility_laws U" "generate_config_run U cmd m = (Ok (), m')" "\<not> refused m (Fs_Open (gc_output cmd))"
    and "secp_gen_keypair U (gc_bitcoin_network cmd) (key_source m) = ((pk, sk), g)" "gc_bitcoin_network cmd \<noteq> Regtest" "gc_rpc_host cmd = None"
  shows "commands_run E U J http tx_to_string rpc_new delay n (Run (gc_output cmd)) (m', w) =
    (case run_rounds E (chain_update_new [(pk, sk)] (http_private_api J
         (api_client_new http (gc_exonum_private_api cmd) (gc_instance_name cmd)))) (None :: ('w, lib_error, rpc_error) sync_task option)
       delay n None w of (r, w') \<Rightarrow> (map_ok (\<lambda>_. ()) (map_err Inr r), (m', w')))"
proof -
  have "hash_iter U [pk \<mapsto> sk] = [(pk, sk)]"
    using assms(1) by (intro map_of_singleton) (simp_all add: utility_laws_def)
  then show ?thesis
    using generated_config_loads(1) [OF assms(1-5)] assms(6)
    by (simp add: commands_run_def run_command_def io_simps run_setup_def gc_bitcoin_rpc_config_def Let_def
        split: prod.split)
qed

text \<open>
  C25. A generated key pair is added and nothing else changes: when \<open>generate-keypair\<close> succeeds, loading
  the configuration again, its keys from their strings, gives the old one with the new pair in the
  pool, generated for the network of one of the old keys; other files stay as they are, and the public
  key is printed. That network is never \<open>Regtest\<close>, since no string of a private key is read as a key
  for it: to a configuration that was generated for \<open>Regtest\<close> keys for another network are added.
\<close>

theorem generate_keypair_extends:
  assumes "utility_laws U" and "generate_keypair_run U p m = (Ok (), m')"
  shows "\<exists>c pk sk sk'. sync_config_load U p m = (Ok c, m) \<and> sk \<in> ran (bitcoin_key_pool c) \<and>
    sk_network (key_conv U) sk \<noteq> Regtest \<and>
    fst (secp_gen_keypair U (sk_network (key_conv U) sk) (key_source m)) = (pk, sk') \<and>
    sync_config_load U p m' = (Ok (c\<lparr>bitcoin_key_pool := (bitcoin_key_pool c)(pk \<mapsto> sk')\<rparr>), m') \<and>
    (\<forall>q. q \<noteq> p \<longrightarrow> files m' q = files m q) \<and> printed m' = printed m @ [public_key_to_string U pk]"
proof -
  obtain c net where load: "sync_config_load U p m = (Ok c, m)"
    and net: "bitcoin_network U c = Some net"
    and rest: "bind_io (gen_keypair U net) (\<lambda>pair.
      bind_io (sync_config_save U (c\<lparr>bitcoin_key_pool :=
        (bitcoin_key_pool c)(fst pair \<mapsto> snd pair)\<rparr>) p) (\<lambda>_.
      println (public_key_to_string U (fst pair)))) m = (Ok (), m')"
    using assms(2) unfolding generate_keypair_run_def bind_io_Ok_iff [of "sync_config_load U p"]
    by (auto simp: bind_io_Ok_iff [of "lift_io _"] lift_io_simps outcome_simps dest: sync_config_load_same)
  obtain pk sk' g where gen: "secp_gen_keypair U net (key_source m) = ((pk, sk'), g)"
    by (metis prod.exhaust)
  from rest obtain m2 where
    save: "sync_config_save U (c\<lparr>bitcoin_key_pool := (bitcoin_key_pool c)(pk \<mapsto> sk')\<rparr>) p
        (m\<lparr>key_source := g\<rparr>) = (Ok (), m2)"
    and m': "m' = m2\<lparr>printed := printed m2 @ [public_key_to_string U pk]\<rparr>"
    by (auto simp: bind_io_Ok_iff gen_keypair_def gen println_def)
  let ?c = "c\<lparr>bitcoin_key_pool := (bitcoin_key_pool c)(pk \<mapsto> sk')\<rparr>"
  note loaded = loaded_pool_portable [OF assms(1) load]
  obtain sk where sk: "sk \<in> ran (bitcoin_key_pool c)" "net = sk_network (key_conv U) sk"
  proof -
    have pool: "map_of (hash_iter U (bitcoin_key_pool c)) = bitcoin_key_pool c"
      "distinct (map fst (hash_iter U (bitcoin_key_pool c)))"
      using assms(1) loaded by (simp_all add: utility_laws_def portable_pool_def)
    from net obtain k s rest where "hash_iter U (bitcoin_key_pool c) = (k, s) # rest"
      "net = sk_network (key_conv U) s"
      by (cases "hash_iter U (bitcoin_key_pool c)") (auto simp: bitcoin_network_def)
    with pool that show thesis by (metis map_of_Cons_code(2) ranI)
  qed
  have regtest: "sk_network (key_conv U) sk \<noteq> Regtest" using loaded sk(1) by (simp add: portable_pool_def)
  have "sk_network (key_conv U) (snd (fst (secp_gen_keypair U net (key_source m)))) = net"
    using assms(1) by (simp add: utility_laws_def)
  then have "sk_network (key_conv U) sk' = net" by (simp add: gen)
  then have pool: "portable_pool U ((bitcoin_key_pool c)(pk \<mapsto> sk'))"
    using regtest sk(2) by (intro portable_pool_update loaded) simp
  have open_ok: "\<not> refused m (Fs_Open p)" by (rule sync_config_load_Ok [OF load])
  have "sync_config_load U p m2 = (Ok ?c, m2)"
    by (rule save_then_load [OF assms(1) save]) (use pool open_ok in simp_all)
  then have "sync_config_load U p m' = (Ok ?c, m')"
    by (auto simp: m' sync_config_load_def bind_io_Ok_iff fs_read_def lift_io_simps
        split: option.splits if_splits)
  moreover have "files m' q = files m q" if "q \<noteq> p" for q
    by (rule sync_config_save_Ok [OF save]) (use that in \<open>simp add: m'\<close>)
  moreover have "printed m' = printed m @ [public_key_to_string U pk]"
    by (rule sync_config_save_Ok [OF save]) (simp add: m')
  ultimately show ?thesis using load sk regtest gen by (metis fst_conv)
qed

text \<open>A pool with one key, for the witness.\<close>

definition sample_document :: "nat list \<Rightarrow> sync_document" where
  "sample_document keys = \<lparr>doc_private_api = ''http://localhost:8081'', doc_instance_name = ''anchoring'',
     doc_key_pool = map (\<lambda>i. \<lparr>doc_public_key = replicate i CHR ''k'',
       doc_private_key = replicate (3 * i + 1) CHR ''1''\<rparr>) keys,
     doc_rpc_config = None\<rparr>"

text \<open>The keys of a network, numbered as in \<open>sample_wire\<close>.\<close>

definition sample_secret :: "network \<Rightarrow> nat \<Rightarrow> btc_private_key" where
  "sample_secret net n =
     Btc_Private_Key (3 * n + (case net of Bitcoin \<Rightarrow> 0 | Testnet \<Rightarrow> 1 | Regtest \<Rightarrow> 2))"

definition sample_utility :: "(anchoring_node_keys, nat) utility_env" where
  "sample_utility = \<lparr>
     key_conv = sample_wire,
     hash_iter = (\<lambda>keys. map (\<lambda>k. (k, the (keys k))) (sorted_list_of_set (dom keys))),
     secp_gen_keypair = (\<lambda>net n. ((Btc_Public_Key n, sample_secret net n), n + 1)),
     public_key_to_string = (\<lambda>k. case k of Btc_Public_Key n \<Rightarrow> replicate n CHR ''k''),
     pk_from_str = (\<lambda>s. Inr (Btc_Public_Key (length s))),
     toml_from_str = (\<lambda>s. if s = ''one'' then Inr (sample_document [0])
       else if s = ''two'' then Inr (sample_document [0, 1])
       else Inl (Lib_Error ''toml'')),
     toml_to_str = (\<lambda>d. if d = sample_document [0] then Inr ''one''
       else if d = sample_document [0, 1] then Inr ''two''
       else Inl (Lib_Error ''toml''))\<rparr>"

lemma sample_secret_network: "sk_network sample_wire (sample_secret net n) = net"
proof -
  have "(3 * n + 1) mod 3 = 1" "(3 * n + 2) mod 3 = 2" by presburger+
  then show ?thesis by (simp add: sample_wire_def sample_secret_def split: network.split)
qed

lemma sample_utility_laws: "utility_laws sample_utility"
proof -
  have "map_of (map (\<lambda>k. (k, the (keys k))) (sorted_list_of_set (dom keys))) = keys"
    if "finite (dom keys)" for keys :: key_pool
    using that by (auto simp: map_of_map_keys fun_eq_iff restrict_map_def domIff)
  moreover have "wif_laws sample_wire" using sample_wire_laws by (simp add: wire_laws_def)
  ultimately show ?thesis
    by (auto simp: utility_laws_def sample_utility_def comp_def sample_secret_network
        split: btc_public_key.split)
qed

definition sample_machine :: "nat machine" where
  "sample_machine = \<lparr>files = [[''sync.toml''] \<mapsto> ''one''], refused = (\<lambda>_. False), key_source = 1,
     printed = []\<rparr>"

lemma sample_generate_keypair:
  "\<exists>m'. generate_keypair_run sample_utility [''sync.toml''] sample_machine = (Ok (), m')"
proof -
  let ?pool = "[Btc_Public_Key 0 \<mapsto> Btc_Private_Key 1]"
  let ?pool' = "[Btc_Public_Key 0 \<mapsto> Btc_Private_Key 1, Btc_Public_Key 1 \<mapsto> Btc_Private_Key 4]"
  have iter: "hash_iter sample_utility ?pool = [(Btc_Public_Key 0, Btc_Private_Key 1)]"
    by (simp add: sample_utility_def)
  have dom: "dom ?pool' = {Btc_Public_Key 0, Btc_Public_Key 1}" by auto
  have iter': "hash_iter sample_utility ?pool' =
      [(Btc_Public_Key 0, Btc_Private_Key 1), (Btc_Public_Key 1, Btc_Private_Key 4)]"
    by (simp add: sample_utility_def dom)
  have load: "flatten_deserialize sample_utility (doc_key_pool (sample_document [0])) = Ok ?pool"
    by (simp add: flatten_deserialize_def sample_document_def keypair_deserialize_def
        serde_str_deserialize_def private_key_from_str_def sample_utility_def sample_wire_def)
  have four: "replicate 4 x = x # replicate 3 x" for x :: char
    by (simp add: numeral_eq_Suc)
  have save: "flatten_serialize sample_utility ?pool' = doc_key_pool (sample_document [0, 1])"
    unfolding flatten_serialize_def iter'
    by (simp add: keypair_serialize_def serde_str_serialize_def private_key_to_string_def sample_utility_def
        sample_wire_def sample_document_def four)
  let ?c = "\<lambda>keys. \<lparr>exonum_private_api = ''http://localhost:8081'', sync_instance_name = ''anchoring'',
    bitcoin_key_pool = keys, sync_rpc_config = None\<rparr>"
  have "sync_config_of_document sample_utility (sample_document [0]) = Ok (?c ?pool)"
    unfolding sync_config_of_document_def load by (simp add: sample_document_def)
  moreover have "toml_from_str sample_utility ''one'' = Inr (sample_document [0])"
    by (simp add: sample_utility_def)
  ultimately have loaded: "sync_config_load sample_utility [''sync.toml''] sample_machine =
      (Ok (?c ?pool), sample_machine)"
    by (simp add: sync_config_load_def fs_read_def sample_machine_def io_simps)
  have net: "bitcoin_network sample_utility (?c ?pool) = Some Testnet"
    unfolding bitcoin_network_def sync_config.simps iter by (simp add: sample_utility_def sample_wire_def)
  have gen: "secp_gen_keypair sample_utility Testnet 1 = ((Btc_Public_Key 1, Btc_Private_Key 4), 2)"
    by (simp add: sample_utility_def sample_secret_def)
  have "document_of_sync_config sample_utility (?c ?pool') = sample_document [0, 1]"
    unfolding document_of_sync_config_def sync_config.simps save by (simp add: sample_document_def)
  moreover have "toml_to_str sample_utility (sample_document [0, 1]) = Inr ''two''"
    by (simp add: sample_utility_def) (simp add: sample_document_def)
  moreover have "\<not> refused sample_machine op" "key_source sample_machine = 1" for op
    by (simp_all add: sample_machine_def)
  ultimately show ?thesis
    using loaded net gen
    by (simp add: generate_keypair_run_def io_simps gen_keypair_def sync_config_save_def
        parent_def fs_try_def fs_create_def fs_write_def println_def)
qed

theorem generate_keypair_extends_witness:
  "\<exists>m'. generate_keypair_run sample_utility [''sync.toml''] sample_machine = (Ok (), m') \<and>
     printed m' = [''k'']"
proof -
  obtain m' where run: "generate_keypair_run sample_utility [''sync.toml''] sample_machine = (Ok (), m')"
    using sample_generate_keypair by blast
  with generate_keypair_extends [OF sample_utility_laws run] show ?thesis
    by (auto simp: sample_machine_def sample_utility_def)
qed

text \<open>
  A write that the operating system refuses loses the whole pool: the file was emptied before the
  configuration was written.
\<close>

lemma refused_write_empties_config:
  assumes "sync_config_load U p m = (Ok c, m)" "bitcoin_network U c = Some net"
    and "secp_gen_keypair U net (key_source m) = ((pk, sk), g)"
    and "toml_to_str U (document_of_sync_config U
      (c\<lparr>bitcoin_key_pool := (bitcoin_key_pool c)(pk \<mapsto> sk)\<rparr>)) = Inr toml"
    and "\<And>op. refused m op \<longleftrightarrow> op = Fs_Write p"
  shows "\<exists>m'. generate_keypair_run U p m = (Err (Io_Error (Fs_Write p)), m') \<and> files m' p = Some []"
  using assms
  by (simp add: generate_keypair_run_def io_simps gen_keypair_def sync_config_save_def fs_create_def
      fs_write_def fs_try_def split: option.split)

end
