(* ===== verification/Unit_Tests.thy ===== *)
theory Unit_Tests
  imports Btc_Types
begin

text \<open>
  The unit tests of the repository for the payload (\<open>src/btc/payload.rs\<close>), the storage keys
  (\<open>src/blockchain/data_layout/mod.rs\<close>) and the configuration (\<open>src/config.rs\<close>), translated
  statement by statement, and the proof that the model passes them. A test is a computation that
  returns \<open>Ok ()\<close> when every assertion in it holds, and panics otherwise. What a test calls of other
  crates is an argument; the byte strings in the tests are those of the repository.
\<close>

abbreviation then_oc :: "(unit, 'e) outcome \<Rightarrow> ('b, 'e) outcome \<Rightarrow> ('b, 'e) outcome" where
  "then_oc m n \<equiv> bind_oc m (\<lambda>_. n)"

section \<open>Payload\<close>

definition script_from_hex :: "'m wire_env \<Rightarrow> string \<Rightarrow> (script, 'e) outcome" where
  "script_from_hex W hex = unwrap_result (of_sum (hex_decode W hex))"

definition script_to_hex :: "'m wire_env \<Rightarrow> script \<Rightarrow> string" where
  "script_to_hex W s = hex_encode W s"

definition test_payload_regular_serialize :: "env \<Rightarrow> 'm wire_env \<Rightarrow> (unit, 'e) outcome" where
  "test_payload_regular_serialize E W =
     (let block_hash = crypto_hash W [] in
     bind_oc (payload_builder_into_script E
       (payload_builder_block_height (payload_builder_block_hash payload_builder_new block_hash) 1234))
       (\<lambda>payload_script.
     assert_that (script_to_hex W payload_script =
       ''6a3045584f4e554d0100d204000000000000e3b0c44298fc1c149afbf4c8996fb92427ae41e4649'' @
       ''b934ca495991b7852b855'')))"

definition test_payload_regular_deserialize :: "env \<Rightarrow> 'm wire_env \<Rightarrow> (unit, 'e) outcome" where
  "test_payload_regular_deserialize E W =
     bind_oc (script_from_hex W (
       ''6a3045584f4e554d0100d204000000000000e3b0c44298fc1c14'' @
       ''9afbf4c8996fb92427ae41e4649b934ca495991b7852b855'')) (\<lambda>payload_script.
     let hash = crypto_hash W [] in
     bind_oc (payload_from_script E payload_script) (\<lambda>r.
     bind_oc (unwrap_or_panic Unwrap_None r) (\<lambda>payload.
     then_oc (assert_that (block_hash payload = hash))
     (then_oc (assert_that (block_height payload = 1234))
     (assert_that (prev_tx_chain payload = None))))))"

definition test_payload_recover_serizalize :: "env \<Rightarrow> 'm wire_env \<Rightarrow> (unit, 'e) outcome" where
  "test_payload_recover_serizalize E W =
     (let block_hash = crypto_hash W [] in
     bind_oc (unwrap_or_panic Unwrap_None (sha256d_from_slice E (hash_as_ref E block_hash))) (\<lambda>prev_txid.
     bind_oc (payload_builder_into_script E
       (payload_builder_prev_tx_chain (payload_builder_block_height
          (payload_builder_block_hash payload_builder_new block_hash) 1234) (Some prev_txid)))
       (\<lambda>payload_script.
     assert_that (script_to_hex W payload_script =
       ''6a4c5045584f4e554d0101d204000000000000e3b0c44298fc1c149afbf4c8996fb92427ae41e46'' @
       ''49b934ca495991b7852b855e3b0c44298fc1c149afbf4c8996fb92427ae41e4649b934ca495991b7'' @
       ''852b855''))))"

definition test_payload_recover_deserialize :: "env \<Rightarrow> 'm wire_env \<Rightarrow> (unit, 'e) outcome" where
  "test_payload_recover_deserialize E W =
     bind_oc (script_from_hex W (
       ''6a4c5045584f4e554d0101d204000000000000e3b0c44298fc1c'' @
       ''149afbf4c8996fb92427ae41e4649b934ca495991b7852b855e3'' @
       ''b0c44298fc1c149afbf4c8996fb92427ae41e4649b934ca49599'' @
       ''1b7852b855'')) (\<lambda>payload_script.
     let hash = crypto_hash W [] in
     bind_oc (unwrap_or_panic Unwrap_None (sha256d_from_slice E (hash_as_ref E hash))) (\<lambda>prev_txid.
     bind_oc (payload_from_script E payload_script) (\<lambda>r.
     bind_oc (unwrap_or_panic Unwrap_None r) (\<lambda>payload.
     then_oc (assert_that (block_hash payload = hash))
     (then_oc (assert_that (block_height payload = 1234))
     (assert_that (prev_tx_chain payload = Some prev_txid)))))))"

definition test_payload_incorrect_deserialize :: "env \<Rightarrow> 'm wire_env \<Rightarrow> (unit, 'e) outcome" where
  "test_payload_incorrect_deserialize E W =
     bind_oc (script_from_hex W (
       ''6a2a0128f0b31a00000000008fb4879f1b7f332be1aee197f99f'' @
       ''7333c915570c6ad5c6eed641f33fe0199129'')) (\<lambda>payload_script.
     bind_oc (payload_from_script E payload_script) (\<lambda>r.
     assert_that (r = None)))"

definition test_payload_non_op_return :: "env \<Rightarrow> 'm wire_env \<Rightarrow> (unit, 'e) outcome" where
  "test_payload_non_op_return E W =
     bind_oc (script_from_hex W ''a91472b7506704dc074fa46359251052e781d96f939a87'') (\<lambda>script_pubkey.
     bind_oc (payload_from_script E script_pubkey) (\<lambda>r.
     assert_that (r = None)))"

text \<open>The SHA-256 hash of the empty string, and the encodings with this value of the hash function.\<close>

definition empty_hash :: bytes where
  "empty_hash = hex_bytes ''e3b0c44298fc1c149afbf4c8996fb92427ae41e4649b934ca495991b7852b855''"

definition test_wire :: "anchoring_node_keys wire_env" where
  "test_wire = sample_wire\<lparr>crypto_hash := (\<lambda>_. Hash (of_nat (le_val empty_hash)))\<rparr>"

lemma test_wire_simps:
  "hex_encode test_wire = encode_hex False" "hex_decode test_wire = decode_hex"
  "tx_deserialize test_wire = decode_tx" "ref_hash_as_ref (crypto_hash test_wire b) = empty_hash"
proof -
  have "length empty_hash = 32" by (simp add: empty_hash_def hex_bytes_def hex_digit_def)
  then show "ref_hash_as_ref (crypto_hash test_wire b) = empty_hash"
    by (simp add: test_wire_def ref_hash_as_ref_def ref_bytes_roundtrip)
qed (simp_all add: test_wire_def sample_wire_def)

abbreviation empty_txid :: sha256d where
  "empty_txid \<equiv> Sha256d (of_nat (le_val empty_hash))"

lemma empty_txid_bytes:
  "ref_sha256d_from_slice empty_hash = Some empty_txid" "ref_sha256d_bytes empty_txid = empty_hash"
proof -
  have "length empty_hash = 32" by (simp add: empty_hash_def hex_bytes_def hex_digit_def)
  then show "ref_sha256d_from_slice empty_hash = Some empty_txid" "ref_sha256d_bytes empty_txid = empty_hash"
    by (simp_all add: ref_sha256d_from_slice_def ref_sha256d_bytes_def ref_bytes_roundtrip)
qed

text \<open>The payload scripts of the tests, as bytes.\<close>

definition regular_push :: bytes where
  "regular_push = [0x45, 0x58, 0x4f, 0x4e, 0x55, 0x4d, 1, 0, 0xd2, 4, 0, 0, 0, 0, 0, 0] @ empty_hash"

definition recover_push :: bytes where
  "recover_push = [0x45, 0x58, 0x4f, 0x4e, 0x55, 0x4d, 1, 1, 0xd2, 4, 0, 0, 0, 0, 0, 0] @ empty_hash @ empty_hash"

lemma payload_push_bytes:
  "payload_v1_bytes (ref_env dbg) (V1_Regular 1234 (crypto_hash test_wire b)) = regular_push"
  "payload_v1_bytes (ref_env dbg) (V1_Recover 1234 (crypto_hash test_wire b) empty_txid) = recover_push"
  by (simp_all add: payload_v1_bytes_def payload_v1_kind_def payload_v1_body_def payload_consts
      test_wire_simps empty_txid_bytes regular_push_def recover_push_def le_bytes_numeral)

lemma push_scripts:
  "encode_hex False (ref_op_return_script regular_push) =
     ''6a3045584f4e554d0100d204000000000000e3b0c44298fc1c149afbf4c8996fb92427ae41e4649'' @
     ''b934ca495991b7852b855''"
  "encode_hex False (ref_op_return_script recover_push) =
     ''6a4c5045584f4e554d0101d204000000000000e3b0c44298fc1c149afbf4c8996fb92427ae41e46'' @
     ''49b934ca495991b7852b855e3b0c44298fc1c149afbf4c8996fb92427ae41e4649b934ca495991b7'' @
     ''852b855''"
  by (simp_all add: regular_push_def recover_push_def empty_hash_def hex_bytes_def hex_digit_def ref_op_return_script_def
      encode_hex_def digit_chars)

lemma push_payloads:
  "payload_from_script (ref_env dbg) (ref_op_return_script regular_push) =
     Ok (Some \<lparr>block_height = 1234, block_hash = crypto_hash test_wire b, prev_tx_chain = None\<rparr>)"
  "payload_from_script (ref_env dbg) (ref_op_return_script recover_push) =
     Ok (Some \<lparr>block_height = 1234, block_hash = crypto_hash test_wire b, prev_tx_chain = Some empty_txid\<rparr>)"
proof -
  have read: "payload_from_script (ref_env dbg) (ref_op_return_script (payload_bytes (ref_env dbg) p)) =
      Ok (Some p)" for p
  proof -
    have "payload_from_script (ref_env dbg) (op_return_script (ref_env dbg) (payload_bytes (ref_env dbg) p)) =
        Ok (payload_decode (ref_env dbg) (payload_bytes (ref_env dbg) p))"
      by (rule payload_from_script_op_return) (simp_all add: length_payload_bytes)
    moreover have "payload_decode (ref_env dbg) (payload_bytes (ref_env dbg) p) = Some p"
      by (simp only: reference.payload_decode_iff)
    ultimately show ?thesis by simp
  qed
  let ?r = "\<lambda>t. \<lparr>block_height = 1234, block_hash = crypto_hash test_wire b, prev_tx_chain = t\<rparr>"
  show "payload_from_script (ref_env dbg) (ref_op_return_script regular_push) = Ok (Some (?r None))"
    "payload_from_script (ref_env dbg) (ref_op_return_script recover_push) = Ok (Some (?r (Some empty_txid)))"
    using read [of "?r None"] read [of "?r (Some empty_txid)"]
    by (simp_all add: payload_bytes_def payload_to_v1_def payload_push_bytes)
qed

lemma script_from_hex_encode: "hex = encode_hex False s \<Longrightarrow> script_from_hex test_wire hex = Ok s"
  by (simp add: script_from_hex_def test_wire_simps)

text \<open>The tests of the payload pass, in a debug and in a release build.\<close>

lemma payload_tests_pass:
  "test_payload_regular_serialize (ref_env dbg) test_wire = Ok ()"
  "test_payload_regular_deserialize (ref_env dbg) test_wire = Ok ()"
  "test_payload_recover_serizalize (ref_env dbg) test_wire = Ok ()"
  "test_payload_recover_deserialize (ref_env dbg) test_wire = Ok ()"
  "test_payload_incorrect_deserialize (ref_env dbg) test_wire = Ok ()"
  "test_payload_non_op_return (ref_env dbg) test_wire = Ok ()"
proof -
  note builder = payload_builder_into_script_def payload_builder_new_def payload_builder_block_height_def
    payload_builder_block_hash_def payload_builder_prev_tx_chain_def payload_v1_into_script_ok ref_laws
    payload_push_bytes script_to_hex_def test_wire_simps push_scripts sha256d_from_slice_def empty_txid_bytes
  show "test_payload_regular_serialize (ref_env dbg) test_wire = Ok ()"
    by (simp add: test_payload_regular_serialize_def builder)
  show "test_payload_recover_serizalize (ref_env dbg) test_wire = Ok ()"
    by (simp add: test_payload_recover_serizalize_def builder)
  show "test_payload_regular_deserialize (ref_env dbg) test_wire = Ok ()"
    by (subst test_payload_regular_deserialize_def, subst script_from_hex_encode [of _ "ref_op_return_script regular_push"])
      (simp_all add: push_scripts push_payloads [of _ "[]"])
  show "test_payload_recover_deserialize (ref_env dbg) test_wire = Ok ()"
    by (subst test_payload_recover_deserialize_def, subst script_from_hex_encode [of _ "ref_op_return_script recover_push"])
      (simp_all add: push_scripts push_payloads [of _ "[]"] sha256d_from_slice_def empty_txid_bytes test_wire_simps)
  show "test_payload_incorrect_deserialize (ref_env dbg) test_wire = Ok ()"
    by (simp add: test_payload_incorrect_deserialize_def script_from_hex_def test_wire_simps hex_digit_def
        payload_from_script_def ref_script_iter_def payload_from_push_def subslice_def payload_consts)
  show "test_payload_non_op_return (ref_env dbg) test_wire = Ok ()"
    by (simp add: test_payload_non_op_return_def script_from_hex_def test_wire_simps hex_digit_def
        payload_from_script_def ref_script_iter_def)
qed

section \<open>Storage keys\<close>

definition test_tx_input_id_binary_key :: "env \<Rightarrow> (bytes \<Rightarrow> hash) \<Rightarrow> (unit, 'e) outcome" where
  "test_tx_input_id_binary_key E hash_of =
     bind_oc (unwrap_or_panic Unwrap_None (sha256d_from_slice E (hash_as_ref E (hash_of [1, 2, 3])))) (\<lambda>txid.
     let txout = \<lparr>id_txid = txid, id_input = 2\<rparr>; buf = replicate (tx_input_id_size txout) 0 in
     bind_oc (tx_input_id_write E txout buf) (\<lambda>(buf, _).
     bind_oc (tx_input_id_read E buf) (\<lambda>txout2.
     then_oc (assert_that (txout = txout2))
     (let buf_hash = hash_of buf in
     bind_oc (tx_input_id_object_hash E hash_of txout2) (\<lambda>object_hash.
     assert_that (object_hash = buf_hash))))))"

text \<open>It passes whatever the crates are, as long as they satisfy their laws.\<close>

lemma storage_key_test_passes:
  assumes "crate_laws E"
  shows "test_tx_input_id_binary_key E hash_of = Ok ()"
proof -
  have laws: "byteorder_laws E" "hash_laws E" using assms by (simp_all add: crate_laws_def)
  obtain d where d: "sha256d_hash_from_slice E (hash_as_ref E (hash_of [1, 2, 3])) = Some d"
    using sha256d_from_slice_32 [OF laws(2) hash_lawsD(1) [OF laws(2)]] by metis
  show ?thesis
    by (simp add: test_tx_input_id_binary_key_def sha256d_from_slice_def d tx_input_id_size_def
        sha256d_key_size_def SHA256D_LEN_def tx_input_id_write_eq [OF laws] tx_input_id_read_bytes [OF laws] tx_input_id_object_hash_def)
qed

section \<open>Configuration\<close>

text \<open>
  The keys of the nodes are random; \<open>secp_gen_keypair net i\<close> and \<open>gen_service_key i\<close> are the ones of
  the \<open>i\<close>-th call.
\<close>

definition gen_anchoring_keys ::
  "(network \<Rightarrow> nat \<Rightarrow> btc_public_key \<times> btc_private_key) \<Rightarrow> (nat \<Rightarrow> service_key) \<Rightarrow> network \<Rightarrow> nat \<Rightarrow>
     anchoring_node_keys list" where
  "gen_anchoring_keys secp_gen_keypair gen_service_key net count = map (\<lambda>i.
     \<lparr>service_key = gen_service_key i, bitcoin_key = fst (secp_gen_keypair net i)\<rparr>) [0..<count]"

definition test_config_serde ::
  "env \<Rightarrow> (config \<Rightarrow> lib_error + 'j) \<Rightarrow> ('j \<Rightarrow> lib_error + config) \<Rightarrow> (network \<Rightarrow> nat \<Rightarrow> anchoring_node_keys list) \<Rightarrow>
     (unit, 'e) outcome" where
  "test_config_serde E to_value from_value gen_keys =
     (let public_keys = gen_keys Bitcoin 4 in
     bind_oc (unwrap_result (with_public_keys Bitcoin public_keys)) (\<lambda>config.
     bind_oc (config_redeem_script E config) (\<lambda>redeem_script.
     then_oc (assert_that (redeem_quorum E redeem_script = 3))
     (bind_oc (unwrap_result (of_sum (to_value config))) (\<lambda>json.
     bind_oc (unwrap_result (of_sum (from_value json))) (\<lambda>config2.
     assert_that (config2 = config)))))))"

definition test_config_anchoring_height ::
  "env \<Rightarrow> (network \<Rightarrow> nat \<Rightarrow> anchoring_node_keys list) \<Rightarrow> (unit, 'e) outcome" where
  "test_config_anchoring_height E gen_keys =
     (let public_keys = gen_keys Bitcoin 4;
          assert_height = \<lambda>m h. bind_oc m (\<lambda>x. assert_that (x = h)) in
     bind_oc (unwrap_result (with_public_keys Bitcoin public_keys)) (\<lambda>config.
     let config = config\<lparr>anchoring_interval := 1000\<rparr> in
     then_oc (assert_height (previous_anchoring_height E config 0) 0)
     (then_oc (assert_height (previous_anchoring_height E config 999) 0)
     (then_oc (assert_height (previous_anchoring_height E config 1000) 1000)
     (then_oc (assert_height (previous_anchoring_height E config 1001) 1000)
     (then_oc (assert_height (following_anchoring_height E config 0) 1000)
     (then_oc (assert_height (following_anchoring_height E config 999) 1000)
     (then_oc (assert_height (following_anchoring_height E config 1000) 2000)
     (assert_height (following_anchoring_height E config 1001) 2000)))))))))"

text \<open>The messages of \<open>validate\<close>; \<open>show_redeem_error\<close> is the message of an error of the redeem script.\<close>

definition config_error_message :: "(redeem_script_error \<Rightarrow> string) \<Rightarrow> config_error \<Rightarrow> string" where
  "config_error_message show_redeem_error e =
     (case e of
        Empty_Anchoring_Keys \<Rightarrow> ''The list of anchoring keys must not be empty.''
      | Too_Many_Anchoring_Nodes \<Rightarrow>
          ''Too many anchoring nodes: amount of anchoring nodes should be less or equal than the '' @
          decimal MAX_NODES_COUNT @ ''.''
      | Zero_Anchoring_Interval \<Rightarrow> ''Anchoring interval should be greater than zero.''
      | Transaction_Fee_Too_Low \<Rightarrow> ''Transaction fee should be greater than '' @ decimal (unat MIN_TX_FEE)
      | Redeem_Script_Error r \<Rightarrow> show_redeem_error r)"

definition str_contains :: "string \<Rightarrow> string \<Rightarrow> bool" where
  "str_contains s pat = list_ex (\<lambda>k. take (length pat) (drop k s) = pat) [0..<Suc (length s)]"

definition validate_test_cases :: "(network \<Rightarrow> nat \<Rightarrow> anchoring_node_keys list) \<Rightarrow> (config \<times> string) list" where
  "validate_test_cases gen_keys =
     [(config_default, ''The list of anchoring keys must not be empty''),
      (config_default\<lparr>anchoring_keys := gen_keys Regtest 30\<rparr>,
       ''Too many anchoring nodes: amount of anchoring nodes should be less or equal''),
      (config_default\<lparr>anchoring_keys := gen_keys Regtest 4, anchoring_interval := 0\<rparr>,
       ''Anchoring interval should be greater than zero''),
      (config_default\<lparr>anchoring_keys := gen_keys Regtest 4, transaction_fee := 0\<rparr>,
       ''Transaction fee should be greater than''),
      (config_default\<lparr>anchoring_keys := gen_keys Regtest 4, transaction_fee := 3\<rparr>,
       ''Transaction fee should be greater than'')]"

primrec unwrap_err :: "('a, 'f) outcome \<Rightarrow> ('f, 'e) outcome" where
  "unwrap_err (Ok x) = Panic Unwrap_None"
| "unwrap_err (Err e) = Ok e"
| "unwrap_err (Panic p) = Panic p"

fun check_validate_errors ::
  "env \<Rightarrow> (redeem_script_error \<Rightarrow> string) \<Rightarrow> (config \<times> string) list \<Rightarrow> (unit, 'e) outcome" where
  "check_validate_errors E show_redeem_error [] = Ok ()"
| "check_validate_errors E show_redeem_error ((config, expected_err) # test_cases) =
     bind_oc (unwrap_err (validate E config)) (\<lambda>e.
     let actual_err = config_error_message show_redeem_error e in
     then_oc (assert_that (str_contains actual_err expected_err))
     (check_validate_errors E show_redeem_error test_cases))"

definition test_config_validate_errors ::
  "env \<Rightarrow> (redeem_script_error \<Rightarrow> string) \<Rightarrow> (network \<Rightarrow> nat \<Rightarrow> anchoring_node_keys list) \<Rightarrow> (unit, 'e) outcome" where
  "test_config_validate_errors E show_redeem_error gen_keys =
     check_validate_errors E show_redeem_error (validate_test_cases gen_keys)"

lemma str_contains_prefix: "str_contains (pat @ s) pat"
  by (auto simp: str_contains_def list_ex_iff intro!: bexI [of _ 0])

lemma config_tests_pass:
  assumes "crate_laws E" and "\<And>c. \<exists>j. to_value c = Inr j \<and> from_value j = Inr c"
    and "\<And>keys. length keys = 4 \<Longrightarrow> \<exists>r. redeem_to_script E keys 3 = Inr r"
  shows "test_config_serde E to_value from_value (gen_anchoring_keys secp_gen_keypair gen_service_key) = Ok ()"
    "test_config_anchoring_height E (gen_anchoring_keys secp_gen_keypair gen_service_key) = Ok ()"
    "test_config_validate_errors E show_redeem_error (gen_anchoring_keys secp_gen_keypair gen_service_key) = Ok ()"
proof -
  let ?keys = "gen_anchoring_keys secp_gen_keypair gen_service_key"
  have len: "length (?keys net n) = n" for net n by (simp add: gen_anchoring_keys_def)
  then have ne: "?keys net (numeral n) \<noteq> []" for net n by (metis length_0_conv zero_neq_numeral)
  let ?c = "config_default\<lparr>network := Bitcoin, anchoring_keys := ?keys Bitcoin 4\<rparr>"
  have q: "byzantine_quorum E n = n * 2 div 3 + 1" for n
    using assms(1) by (simp add: crate_laws_def quorum_laws_def)
  obtain r where r: "redeem_to_script E (map bitcoin_key (?keys Bitcoin 4)) 3 = Inr r"
    using assms(3) [of "map bitcoin_key (?keys Bitcoin 4)"] by (auto simp: len)
  then have "redeem_quorum E r = 3" using assms(1) by (auto simp: crate_laws_def p2wsh_laws_def)
  moreover obtain j where "to_value ?c = Inr j" "from_value j = Inr ?c" using assms(2) by blast
  ultimately show "test_config_serde E to_value from_value ?keys = Ok ()"
    using r by (simp add: test_config_serde_def with_public_keys_def ne config_redeem_script_def
        config_to_script_def config_byzantine_quorum_def len q)
  show "test_config_anchoring_height E ?keys = Ok ()"
    by (simp add: test_config_anchoring_height_def with_public_keys_def ne previous_anchoring_height_def
        following_anchoring_height_def rem_u64_def sub_u64_def add_u64_def)
  note contains = str_contains_prefix [of "''The list of anchoring keys must not be empty''" "''.''"]
    str_contains_prefix [of "''Too many anchoring nodes: amount of anchoring nodes should be less or equal''"
      "'' than the '' @ decimal 20 @ ''.''"]
    str_contains_prefix [of "''Anchoring interval should be greater than zero''" "''.''"]
    str_contains_prefix [of "''Transaction fee should be greater than''" "'' '' @ decimal 4"]
  show "test_config_validate_errors E show_redeem_error ?keys = Ok ()"
    using contains
    by (simp add: test_config_validate_errors_def validate_test_cases_def validate_def config_default_def len ne
        MAX_NODES_COUNT_def MIN_TX_FEE_def MIN_TOTAL_TX_FEE_def MIN_TX_LEN_def config_error_message_def)
qed

end
