(* ===== verification/Transaction_Tests.thy ===== *)
theory Transaction_Tests
  imports Unit_Tests
begin

text \<open>
  The unit tests of \<open>src/btc/transaction.rs\<close>, translated statement by statement, and the proof that the
  model passes them on the transactions of the repository, read by the consensus encoding of
  \<open>Consensus_Encoding\<close>. The test of random transactions passes for all of them.
\<close>

section \<open>The transactions of the tests\<close>

definition CONVERSIONS_TX_HEX :: string where
  "CONVERSIONS_TX_HEX = concat [
     ''01000000019aaf09d7e73a5f9ab394f1358bfb3dbde7b15b983d715f5c98f369a3f0a288a70000000000ffff'',
     ''ffff02b80b00000000000017a914f18eb74087f751109cc9052befd4177a52c9a30a8700000000000000002c'',
     ''6a2a012800000000000000007fab6f66a0f7a747c820cd01fa30d7bdebd26b91c6e03f742abac0b3108134d9'',
     ''00000000'']"

definition SEGWIT_TX_HEX :: string where
  "SEGWIT_TX_HEX = concat [
     ''02000000000101a4fe140f92eb5fa5a4788b6271a22f07fa91cb2f8ac328cd0065bfc43adb16c90100000017'',
     ''16001446decf32d70ee1fad5aa11d02158810316e6790bfeffffff02a08601000000000017a9147f1423e335'',
     ''9d1754ae9427e313c1d9581f3f280a87e8e520070000000017a914b83c7a100c7ff491e5edb5f1dfcd39e298'',
     ''e50f4b87024830450221008f9378080defdb2029f9c96e149e85e93d8fb860a1c06a7c98890809077eec8b02'',
     ''206049967206a4bd35f8fa4c59a8cd9f46b08e48f794a6b325986b4e9227b9d8d30121037f72563a0750831a'',
     ''b4fb762e01cfe368ddd412042be6b78af5ee5a9bd38d0ed093a81300'']"

definition METADATA_TX_HEX :: string where
  "METADATA_TX_HEX = concat [
     ''01000000000101348ead2317da8c6ae12305af07e33b8c0320c9319f21007a704e44f32e7a75500000000000'',
     ''ffffffff0250ec0e00000000002200200f2602a87bbdb59fdf4babfffd568ef39a85cf2f08858c8847d70f27'',
     ''894b68840000000000000000326a3045584f4e554d0100085200000000000085f467f2bad583dbb08f84a47e'',
     ''817d8293fb8c70d033604f441f53a6cc092f180500473044022003334a325c7c382aca17c9c0790d3e2a48fb'',
     ''c99fcc34eb6f73ac4386fcca290602206508789e66f246fc496784df97b0b9e895ae93948cf6a3a1ca2603d0'',
     ''2a462c050148304502210081cadbe7c21e9e030b8ed9e3d084595833351284ce26d79dad889ffdab73bfc402'',
     ''205dd359f19b6871f3e21b9b9c2a57aabd2ce64a0631a136fe4028dabd96fa89a20147304402200dc7a83d70'',
     ''64f74e2e7a90fdfab6b41ab8663b8151ae4e313bf29ee9c7c9f38e022043ca7374050f1f3e321fe686f6858f'',
     ''94b8d8d130e73b61a74e6200f75452edf30169532103f0c44bc5cd2747ac34380e84ac4e78fac684848d3219'',
     ''8bac5985d116c74ae6862103d9d4eb85dad869dc54a65f77a7e81eea0ea5d81129928d6d5b6dcb7b57c8991b'',
     ''21033ea315ab975c6424740c305db3f07b62b1121e27d3052b9a30db56a8b504713c53ae00000000'']"

definition INVALID_FLAG_TX_HEX :: string where
  "INVALID_FLAG_TX_HEX = concat [
     ''6600000000101b651818fe3855d0d5d74de1cf72b56503c16f808519440e842b6adc2dd570c4930100000000'',
     ''feffffff02deaa7b0000000000160014923904449829cd865cdfb72abdba0806ce9e48911027000000000000'',
     ''220020e9bb049fdff8f8d3b33b7335978b1dbb268833a32a69906f9e500e4103151bef02483045022100ddc7'',
     ''eb1193529a8d0e48cf24f536d5fbb5de3b67d2f56c98190ea8585d58a156022075e33981f1a7d78ce2915402'',
     ''d4b9b38b8d5311e0aef2e3ccf9284d2ce602968d0121021d0478acd223fb9b2ad7485f06f12914a1b7effc78'',
     ''390a08c50bfe53b3b24815062c1400'']"

definition INVALID_LENGTH_TX_HEX :: string where
  "INVALID_LENGTH_TX_HEX = concat [
     ''66000000000101b651818fe3855d0d5d74de1cf72b56503c16f808519440e842b6dc2dd570c4930100000000'',
     ''feffffff02deaa7b0000000000160014923904449829cd865cdfb72abdba0806ce9e48911027000000000000'',
     ''220020e9bb049fdff8f8d3b33b7335978b1dbb268833a32a69906f9e500e4103151bef02483045022100ddc7'',
     ''eb1193529a8d0e48cf24f536d5fbb5de3b67d2f56c98190ea8585d58a156022075021d0478acd223fb9b2ad7'',
     ''485f06f12914a1b7effc78390a08c50bfe53b3b24815062c1400'']"

definition FUNDING_TX0_HEX :: string where
  "FUNDING_TX0_HEX = concat [
     ''02000000000101b651818fe3855d0d5d74de1cf72b56503c16f808519440e842b6dc2dd570c4930100000000'',
     ''feffffff02deaa7b0000000000160014923904449829cd865cdfb72abdba0806ce9e48911027000000000000'',
     ''220020e9bb049fdff8f8d3b33b7335978b1dbb268833a32a69906f9e500e4103151bef02483045022100ddc7'',
     ''eb1193529a8d0e48cf24f536d5fbb5de3b67d2f56c98190ea8585d58a156022075e33981f1a7d78ce2915402'',
     ''d4b9b38b8d5311e0aef2e3ccf9284d2ce602968d0121021d0478acd223fb9b2ad7485f06f12914a1b7effc78'',
     ''390a08c50bfe53b3b24815062c1400'']"

definition FUNDING_TX1_HEX :: string where
  "FUNDING_TX1_HEX = concat [
     ''020000000001018aa4065d472efc80d2a9f26bf0f77aabd5b8fcb45661de8a0161cbcc6b5fef9e0000000000'',
     ''feffffff0235837b00000000001600143e9fd2829e66868739ddbb8c397a3e35ae02a5151027000000000000'',
     ''220020e9bb049fdff8f8d3b33b7335978b1dbb268833a32a69906f9e500e4103151bef0247304402201d2f3c'',
     ''a3ec4c82071b825a44c5b8a7455e4e50caef07e988bbe46554846e445702205f1b066bf6d747c06b3721ac87'',
     ''8104e434e977e0e321191a0c860f05fb3bb319012103b475c0164be599df74ea5d4b669fe1c439953e40eea2'',
     ''d4958d66698f26eeaa5f2a2c1400'']"

definition FUNDING_TX2_HEX :: string where
  "FUNDING_TX2_HEX = concat [
     ''0200000000010115c9acef986ba57a7fcf43c6cb60221b70af1da6d3ad6d1e2480e55bc80c559c0000000017'',
     ''1600147881a57eadd9361c497e2b1671da4ed1c0ac1e44feffffff02a086010000000000220020e9bb049fdf'',
     ''f8f8d3b33b7335978b1dbb268833a32a69906f9e500e4103151bef406df6000000000016001424ff8bab4afa'',
     ''feca816e4a8300e135045ce15f6b02483045022100f6b55f77ec53e339d150637a76de5436165c27ea415a81'',
     ''75f5fdff634bf91cd402204252dbd3af0ba8a749091268491169dca4477515e2b3155de04ffacfa39f00d401'',
     ''2102ad0617b920ce3a7a481a10222344a7b338e7a13e8e725eb44a3a53354a90f9e32a2c1400'']"

definition FOREIGN_FUNDING_TX_HEX :: string where
  "FOREIGN_FUNDING_TX_HEX = concat [
     ''020000000001015315c18b6a6893ec08d4a7175da494d5d856a8efc983ba2e8eed06c2211041f50000000000'',
     ''feffffff028c5b7b0000000000160014d00d6944fb51eda26fb450809bd3388cf51462d41027000000000000'',
     ''220020c622abf40381f842e9a860c2353405a0c73534093a6fe9c661fd487c5bc36d990247304402205345da'',
     ''1affdc26eda5415c31a8fd9afd6280d42f411c43ec4e7a4f284d67da4102205039e7fe4a2cce186491f88d31'',
     ''9e6001a45078c95b384f293669f00793e1e94b0121022b2bc757808dd27b3490b372764ff618721b11577d52'',
     ''837da3d0daac467df91c2f2c1400'']"

definition TEST_KEYS :: "string list" where
  "TEST_KEYS = [
     ''038b782f94d19f34536a96e12e0bad99e6f82c838fa16a4234572f5f132d95ba29'',
     ''020ae2216f42575c4196864eda0252c75c61273065f691b32be9a99cb2a3c9b4d1'',
     ''02536d5e1464b961562da57207e4a46edb7dade9b92aa29712ca8309c8aba5be5b'']"

section \<open>The tests\<close>

definition test_transaction_conversions :: "env \<Rightarrow> 'm wire_env \<Rightarrow> (unit, 'e) outcome" where
  "test_transaction_conversions E W =
     bind_oc (unwrap_result (transaction_from_hex W CONVERSIONS_TX_HEX)) (\<lambda>tx.
     then_oc (assert_that (transaction_to_string E W tx = CONVERSIONS_TX_HEX))
     (let bytes = transaction_to_bytes E tx in
     bind_oc (unwrap_result (transaction_from_bytes W bytes)) (\<lambda>tx2.
     assert_that (tx2 = tx))))"

text \<open>\<open>txid_to_string\<close> is the \<open>Display\<close> form of a hash.\<close>

definition test_segwit_txid :: "env \<Rightarrow> 'm wire_env \<Rightarrow> (sha256d \<Rightarrow> string) \<Rightarrow> (unit, 'e) outcome" where
  "test_segwit_txid E W txid_to_string =
     bind_oc (unwrap_result (transaction_from_hex W SEGWIT_TX_HEX)) (\<lambda>tx.
     let txid_hex = ''6ed431718c73787ad92e6bcbd6ac7c8151e08dffeeebb6d9e5af2d25b6837d98'' in
     assert_that (txid_to_string (tx_id E tx) = txid_hex))"

text \<open>
  \<open>hash_from_hex\<close> reads an Exonum hash, and \<open>p2wsh_to_string\<close> is the string of the address of an output
  script.
\<close>

definition test_anchoring_tx_metadata ::
  "env \<Rightarrow> 'm wire_env \<Rightarrow> (string \<Rightarrow> lib_error + hash) \<Rightarrow> (script \<Rightarrow> network \<Rightarrow> string) \<Rightarrow> (unit, 'e) outcome" where
  "test_anchoring_tx_metadata E W hash_from_hex p2wsh_to_string =
     bind_oc (unwrap_result (transaction_from_hex W METADATA_TX_HEX)) (\<lambda>tx.
     bind_oc (anchoring_metadata E tx) (\<lambda>m.
     bind_oc (unwrap_or_panic Unwrap_None m) (\<lambda>(script_pubkey, payload).
     then_oc (assert_that (block_height payload = 21000))
     (bind_oc (unwrap_result (of_sum (hash_from_hex
       ''85f467f2bad583dbb08f84a47e817d8293fb8c70d033604f441f53a6cc092f18''))) (\<lambda>hash.
     then_oc (assert_that (block_hash payload = hash))
     (then_oc (assert_that (prev_tx_chain payload = None))
     (assert_that (p2wsh_to_string script_pubkey Testnet =
       ''tb1qgjg3s5u93cuvf5y8pc2aw259gf7spj7x3a4k09lc6a4gtnhg8l0su4axp4''))))))))"

text \<open>\<open>sha256d_hash\<close> is the hash function of \<open>bitcoin_hashes\<close>, and \<open>s\<close> are the bytes of the random string.\<close>

definition test_transaction_exonum_field ::
  "env \<Rightarrow> 'm wire_env \<Rightarrow> (bytes \<Rightarrow> sha256d) \<Rightarrow> nat \<Rightarrow> u32 \<Rightarrow> nat \<Rightarrow> u64 \<Rightarrow> bytes \<Rightarrow> (unit, 'e) outcome" where
  "test_transaction_exonum_field E W sha256d_hash input_num vout output_num v s =
     (let input = map (\<lambda>_. \<lparr>previous_output = \<lparr>op_txid = sha256d_hash s, op_vout = vout\<rparr>, script_sig = [],
            sequence = 0xFFFFFFFF, witness = []\<rparr>) [0..<input_num];
          output = map (\<lambda>_. \<lparr>txout_value = v, script_pubkey = op_return_script E s\<rparr>) [0..<output_num];
          transaction = \<lparr>tx_version = 2, lock_time = 0, tx_input = input, tx_output = output\<rparr>;
          bytes = transaction_to_bytes E transaction in
     bind_oc (unwrap_result (transaction_from_bytes W bytes)) (\<lambda>transaction2.
     assert_that (transaction = transaction2)))"

text \<open>Two tests are expected to panic.\<close>

definition test_transaction_exonum_field_invalid_segwit_flag :: "'m wire_env \<Rightarrow> (unit, 'e) outcome" where
  "test_transaction_exonum_field_invalid_segwit_flag W =
     bind_oc (unwrap_result (of_sum (hex_decode W INVALID_FLAG_TX_HEX))) (\<lambda>tx_raw.
     bind_oc (unwrap_result (transaction_from_bytes W tx_raw)) (\<lambda>_. Ok ()))"

definition test_transaction_exonum_field_invalid_length :: "'m wire_env \<Rightarrow> (unit, 'e) outcome" where
  "test_transaction_exonum_field_invalid_length W =
     bind_oc (unwrap_result (of_sum (hex_decode W INVALID_LENGTH_TX_HEX))) (\<lambda>tx_raw.
     bind_oc (unwrap_result (transaction_from_bytes W tx_raw)) (\<lambda>_. Ok ()))"

text \<open>
  The redeem script of the three keys of the tests; \<open>to_script\<close> is
  \<open>RedeemScriptBuilder::with_public_keys(keys).to_script()\<close>.
\<close>

definition test_redeem_script ::
  "'m wire_env \<Rightarrow> (btc_public_key list \<Rightarrow> redeem_script_error + redeem_script) \<Rightarrow> (redeem_script, 'e) outcome" where
  "test_redeem_script W to_script =
     bind_oc (collect_oc (\<lambda>h. unwrap_result (public_key_from_hex W h)) TEST_KEYS) (\<lambda>keys.
     unwrap_result (of_sum (to_script keys)))"

definition test_anchoring_transaction_builder_simple ::
  "env \<Rightarrow> 'm wire_env \<Rightarrow> (btc_public_key list \<Rightarrow> redeem_script_error + redeem_script) \<Rightarrow> (unit, 'e) outcome" where
  "test_anchoring_transaction_builder_simple E W to_script =
     bind_oc (unwrap_result (transaction_from_hex W FUNDING_TX0_HEX)) (\<lambda>funding_tx.
     bind_oc (test_redeem_script W to_script) (\<lambda>redeem_script.
     let builder = tx_builder_new E redeem_script in
     bind_oc (unwrap_result (add_additional_funds builder funding_tx)) (\<lambda>builder.
     let builder = set_payload (set_fee builder 1) 0 (transaction_object_hash E W funding_tx) in
     bind_oc (unwrap_result (create E builder)) (\<lambda>(tx, inputs).
     bind_oc (index_at inputs 0) (\<lambda>input.
     then_oc (assert_that (funding_tx = input))
     (then_oc (assert_that (tx_version tx = 2))
     (then_oc (assert_that (length (tx_input tx) = 1))
     (then_oc (assert_that (length (tx_output tx) = 2))
     (bind_oc (index_at (tx_output tx) 0) (\<lambda>out_0.
     bind_oc (index_at (tx_output tx) 1) (\<lambda>out_1.
     then_oc (assert_that (txout_value out_0 \<noteq> 0))
     (assert_that (txout_value out_1 = 0)))))))))))))"

definition test_anchoring_transaction_builder_funds ::
  "env \<Rightarrow> 'm wire_env \<Rightarrow> (btc_public_key list \<Rightarrow> redeem_script_error + redeem_script) \<Rightarrow> (unit, 'e) outcome" where
  "test_anchoring_transaction_builder_funds E W to_script =
     bind_oc (unwrap_result (transaction_from_hex W FUNDING_TX0_HEX)) (\<lambda>funding_tx0.
     bind_oc (unwrap_result (transaction_from_hex W FUNDING_TX1_HEX)) (\<lambda>funding_tx1.
     bind_oc (unwrap_result (transaction_from_hex W FUNDING_TX2_HEX)) (\<lambda>funding_tx2.
     bind_oc (test_redeem_script W to_script) (\<lambda>redeem_script.
     let builder = tx_builder_new E redeem_script in
     bind_oc (unwrap_result (add_additional_funds builder funding_tx0)) (\<lambda>builder.
     bind_oc (unwrap_result (add_additional_funds builder funding_tx1)) (\<lambda>builder.
     bind_oc (unwrap_result (add_additional_funds builder funding_tx2)) (\<lambda>builder.
     let builder = set_payload (set_fee builder 1) 0 (transaction_object_hash E W funding_tx0) in
     bind_oc (unwrap_result (create E builder)) (\<lambda>(tx, inputs).
     then_oc (assert_that (length inputs = 3))
     (then_oc (assert_that (length (tx_input tx) = 3))
     (then_oc (assert_that (length (tx_output tx) = 2))
     (bind_oc (index_at (tx_output tx) 0) (\<lambda>out_0.
     bind_oc (index_at (tx_output tx) 1) (\<lambda>out_1.
     then_oc (assert_that (txout_value out_0 \<noteq> 0))
     (assert_that (txout_value out_1 = 0)))))))))))))))"

definition test_anchoring_transaction_builder_incorrect_prev_tx ::
  "env \<Rightarrow> 'm wire_env \<Rightarrow> (btc_public_key list \<Rightarrow> redeem_script_error + redeem_script) \<Rightarrow> (unit, 'e) outcome" where
  "test_anchoring_transaction_builder_incorrect_prev_tx E W to_script =
     bind_oc (unwrap_result (transaction_from_hex W FUNDING_TX0_HEX)) (\<lambda>funding_tx.
     bind_oc (unwrap_result (transaction_from_hex W METADATA_TX_HEX)) (\<lambda>prev_tx.
     bind_oc (test_redeem_script W to_script) (\<lambda>redeem_script.
     let builder = tx_builder_new E redeem_script in
     bind_oc (unwrap_result (add_additional_funds builder funding_tx)) (\<lambda>builder.
     bind_oc (unwrap_err (set_prev_tx E builder prev_tx)) (\<lambda>e.
     assert_that (e = Builder_UnsuitableOutput))))))"

definition test_anchoring_transaction_builder_incorrect_funds ::
  "env \<Rightarrow> 'm wire_env \<Rightarrow> (btc_public_key list \<Rightarrow> redeem_script_error + redeem_script) \<Rightarrow> (unit, 'e) outcome" where
  "test_anchoring_transaction_builder_incorrect_funds E W to_script =
     bind_oc (unwrap_result (transaction_from_hex W FOREIGN_FUNDING_TX_HEX)) (\<lambda>funding_tx.
     bind_oc (test_redeem_script W to_script) (\<lambda>redeem_script.
     let builder = tx_builder_new E redeem_script in
     bind_oc (unwrap_err (add_additional_funds builder funding_tx)) (\<lambda>e.
     assert_that (e = Builder_UnsuitableFundingTx))))"

section \<open>Reading the transactions\<close>

text \<open>The transactions that the strings encode.\<close>

definition bytes_txid :: "bytes \<Rightarrow> sha256d" where
  "bytes_txid b = Sha256d (of_nat (le_val b))"

definition conversions_tx :: transaction where
  "conversions_tx = \<lparr>tx_version = 1, lock_time = 0,
     tx_input = [\<lparr>previous_output = \<lparr>op_txid = bytes_txid (
         hex_bytes ''9aaf09d7e73a5f9ab394f1358bfb3dbde7b15b983d715f5c98f369a3f0a288a7''),
         op_vout = 0\<rparr>, script_sig = [], sequence = 0xffffffff,
       witness = []\<rparr>],
     tx_output = [\<lparr>txout_value = 3000, script_pubkey =
         hex_bytes ''a914f18eb74087f751109cc9052befd4177a52c9a30a87''\<rparr>,
       \<lparr>txout_value = 0, script_pubkey =
         hex_bytes ''6a2a012800000000000000007fab6f66a0f7a747c820cd01fa30d7bdebd26b91c6e03f742abac0b3108134d9''\<rparr>]\<rparr>"

definition segwit_tx :: transaction where
  "segwit_tx = \<lparr>tx_version = 2, lock_time = 1288339,
     tx_input = [\<lparr>previous_output = \<lparr>op_txid = bytes_txid (
         hex_bytes ''a4fe140f92eb5fa5a4788b6271a22f07fa91cb2f8ac328cd0065bfc43adb16c9''),
         op_vout = 1\<rparr>, script_sig = hex_bytes ''16001446decf32d70ee1fad5aa11d02158810316e6790b'', sequence = 0xfffffffe,
       witness = [hex_bytes (concat [
         ''30450221008f9378080defdb2029f9c96e149e85e93d8fb860a1c06a7c98890809077eec8b02206049967206'',
         ''a4bd35f8fa4c59a8cd9f46b08e48f794a6b325986b4e9227b9d8d301'']),
         hex_bytes ''037f72563a0750831ab4fb762e01cfe368ddd412042be6b78af5ee5a9bd38d0ed0'']\<rparr>],
     tx_output = [\<lparr>txout_value = 100000, script_pubkey =
         hex_bytes ''a9147f1423e3359d1754ae9427e313c1d9581f3f280a87''\<rparr>,
       \<lparr>txout_value = 119596520, script_pubkey =
         hex_bytes ''a914b83c7a100c7ff491e5edb5f1dfcd39e298e50f4b87''\<rparr>]\<rparr>"

definition metadata_tx :: transaction where
  "metadata_tx = \<lparr>tx_version = 1, lock_time = 0,
     tx_input = [\<lparr>previous_output = \<lparr>op_txid = bytes_txid (
         hex_bytes ''348ead2317da8c6ae12305af07e33b8c0320c9319f21007a704e44f32e7a7550''),
         op_vout = 0\<rparr>, script_sig = [], sequence = 0xffffffff,
       witness = [[],
         hex_bytes (concat [
         ''3044022003334a325c7c382aca17c9c0790d3e2a48fbc99fcc34eb6f73ac4386fcca290602206508789e66f2'',
         ''46fc496784df97b0b9e895ae93948cf6a3a1ca2603d02a462c0501'']),
         hex_bytes (concat [
         ''304502210081cadbe7c21e9e030b8ed9e3d084595833351284ce26d79dad889ffdab73bfc402205dd359f19b'',
         ''6871f3e21b9b9c2a57aabd2ce64a0631a136fe4028dabd96fa89a201'']),
         hex_bytes (concat [
         ''304402200dc7a83d7064f74e2e7a90fdfab6b41ab8663b8151ae4e313bf29ee9c7c9f38e022043ca7374050f'',
         ''1f3e321fe686f6858f94b8d8d130e73b61a74e6200f75452edf301'']),
         hex_bytes (concat [
         ''532103f0c44bc5cd2747ac34380e84ac4e78fac684848d32198bac5985d116c74ae6862103d9d4eb85dad869'',
         ''dc54a65f77a7e81eea0ea5d81129928d6d5b6dcb7b57c8991b21033ea315ab975c6424740c305db3f07b62b1'',
         ''121e27d3052b9a30db56a8b504713c53ae''])]\<rparr>],
     tx_output = [\<lparr>txout_value = 978000, script_pubkey =
         hex_bytes ''00200f2602a87bbdb59fdf4babfffd568ef39a85cf2f08858c8847d70f27894b6884''\<rparr>,
       \<lparr>txout_value = 0, script_pubkey =
         hex_bytes (concat [
         ''6a3045584f4e554d0100085200000000000085f467f2bad583dbb08f84a47e817d8293fb8c70d033604f441f'',
         ''53a6cc092f18''])\<rparr>]\<rparr>"

definition funding_tx0 :: transaction where
  "funding_tx0 = \<lparr>tx_version = 2, lock_time = 1321990,
     tx_input = [\<lparr>previous_output = \<lparr>op_txid = bytes_txid (
         hex_bytes ''b651818fe3855d0d5d74de1cf72b56503c16f808519440e842b6dc2dd570c493''),
         op_vout = 1\<rparr>, script_sig = [], sequence = 0xfffffffe,
       witness = [hex_bytes (concat [
         ''3045022100ddc7eb1193529a8d0e48cf24f536d5fbb5de3b67d2f56c98190ea8585d58a156022075e33981f1'',
         ''a7d78ce2915402d4b9b38b8d5311e0aef2e3ccf9284d2ce602968d01'']),
         hex_bytes ''021d0478acd223fb9b2ad7485f06f12914a1b7effc78390a08c50bfe53b3b24815'']\<rparr>],
     tx_output = [\<lparr>txout_value = 8104670, script_pubkey =
         hex_bytes ''0014923904449829cd865cdfb72abdba0806ce9e4891''\<rparr>,
       \<lparr>txout_value = 10000, script_pubkey =
         hex_bytes ''0020e9bb049fdff8f8d3b33b7335978b1dbb268833a32a69906f9e500e4103151bef''\<rparr>]\<rparr>"

definition funding_tx1 :: transaction where
  "funding_tx1 = \<lparr>tx_version = 2, lock_time = 1322026,
     tx_input = [\<lparr>previous_output = \<lparr>op_txid = bytes_txid (
         hex_bytes ''8aa4065d472efc80d2a9f26bf0f77aabd5b8fcb45661de8a0161cbcc6b5fef9e''),
         op_vout = 0\<rparr>, script_sig = [], sequence = 0xfffffffe,
       witness = [hex_bytes (concat [
         ''304402201d2f3ca3ec4c82071b825a44c5b8a7455e4e50caef07e988bbe46554846e445702205f1b066bf6d7'',
         ''47c06b3721ac878104e434e977e0e321191a0c860f05fb3bb31901'']),
         hex_bytes ''03b475c0164be599df74ea5d4b669fe1c439953e40eea2d4958d66698f26eeaa5f'']\<rparr>],
     tx_output = [\<lparr>txout_value = 8094517, script_pubkey =
         hex_bytes ''00143e9fd2829e66868739ddbb8c397a3e35ae02a515''\<rparr>,
       \<lparr>txout_value = 10000, script_pubkey =
         hex_bytes ''0020e9bb049fdff8f8d3b33b7335978b1dbb268833a32a69906f9e500e4103151bef''\<rparr>]\<rparr>"

definition funding_tx2 :: transaction where
  "funding_tx2 = \<lparr>tx_version = 2, lock_time = 1322026,
     tx_input = [\<lparr>previous_output = \<lparr>op_txid = bytes_txid (
         hex_bytes ''15c9acef986ba57a7fcf43c6cb60221b70af1da6d3ad6d1e2480e55bc80c559c''),
         op_vout = 0\<rparr>, script_sig = hex_bytes ''1600147881a57eadd9361c497e2b1671da4ed1c0ac1e44'', sequence = 0xfffffffe,
       witness = [hex_bytes (concat [
         ''3045022100f6b55f77ec53e339d150637a76de5436165c27ea415a8175f5fdff634bf91cd402204252dbd3af'',
         ''0ba8a749091268491169dca4477515e2b3155de04ffacfa39f00d401'']),
         hex_bytes ''02ad0617b920ce3a7a481a10222344a7b338e7a13e8e725eb44a3a53354a90f9e3'']\<rparr>],
     tx_output = [\<lparr>txout_value = 100000, script_pubkey =
         hex_bytes ''0020e9bb049fdff8f8d3b33b7335978b1dbb268833a32a69906f9e500e4103151bef''\<rparr>,
       \<lparr>txout_value = 16149824, script_pubkey =
         hex_bytes ''001424ff8bab4afafeca816e4a8300e135045ce15f6b''\<rparr>]\<rparr>"

definition foreign_funding_tx :: transaction where
  "foreign_funding_tx = \<lparr>tx_version = 2, lock_time = 1322031,
     tx_input = [\<lparr>previous_output = \<lparr>op_txid = bytes_txid (
         hex_bytes ''5315c18b6a6893ec08d4a7175da494d5d856a8efc983ba2e8eed06c2211041f5''),
         op_vout = 0\<rparr>, script_sig = [], sequence = 0xfffffffe,
       witness = [hex_bytes (concat [
         ''304402205345da1affdc26eda5415c31a8fd9afd6280d42f411c43ec4e7a4f284d67da4102205039e7fe4a2c'',
         ''ce186491f88d319e6001a45078c95b384f293669f00793e1e94b01'']),
         hex_bytes ''022b2bc757808dd27b3490b372764ff618721b11577d52837da3d0daac467df91c'']\<rparr>],
     tx_output = [\<lparr>txout_value = 8084364, script_pubkey =
         hex_bytes ''0014d00d6944fb51eda26fb450809bd3388cf51462d4''\<rparr>,
       \<lparr>txout_value = 10000, script_pubkey =
         hex_bytes ''0020c622abf40381f842e9a860c2353405a0c73534093a6fe9c661fd487c5bc36d99''\<rparr>]\<rparr>"

lemma transaction_from_hex_encode:
  assumes "encode_hex False (encode_tx t) = hex" "tx_fits t"
  shows "transaction_from_hex test_wire hex = Ok t"
  using assms by (auto simp: transaction_from_hex_def test_wire_simps decode_encode_tx)

lemma write_tx_in_eval:
  "length b = 32 \<Longrightarrow> write_tx_in \<lparr>previous_output = \<lparr>op_txid = bytes_txid b, op_vout = v\<rparr>, script_sig = s,
     sequence = q, witness = w\<rparr> = b @ write_word 4 v @ write_script s @ write_word 4 q"
  by (simp add: write_tx_in_def write_word_def sha256d_word_def bytes_txid_def ref_bytes_roundtrip)

lemmas encode_eval = encode_tx_def has_witness_def write_vec_def write_tx_in_eval write_tx_out_def write_script_def
  write_word_def compact_size_def le_bytes_numeral encode_hex_def digit_chars hex_bytes_def hex_digit_def

lemma conversions_tx_hex: "encode_hex False (encode_tx conversions_tx) = CONVERSIONS_TX_HEX" "tx_fits conversions_tx"
  by (simp_all add: conversions_tx_def CONVERSIONS_TX_HEX_def encode_eval tx_fits_def)

lemma segwit_tx_hex: "encode_hex False (encode_tx segwit_tx) = SEGWIT_TX_HEX" "tx_fits segwit_tx"
  by (simp_all add: segwit_tx_def SEGWIT_TX_HEX_def encode_eval tx_fits_def)

lemma metadata_tx_hex: "encode_hex False (encode_tx metadata_tx) = METADATA_TX_HEX" "tx_fits metadata_tx"
  by (simp_all add: metadata_tx_def METADATA_TX_HEX_def encode_eval tx_fits_def)

lemma funding_tx0_hex: "encode_hex False (encode_tx funding_tx0) = FUNDING_TX0_HEX" "tx_fits funding_tx0"
  by (simp_all add: funding_tx0_def FUNDING_TX0_HEX_def encode_eval tx_fits_def)

lemma funding_tx1_hex: "encode_hex False (encode_tx funding_tx1) = FUNDING_TX1_HEX" "tx_fits funding_tx1"
  by (simp_all add: funding_tx1_def FUNDING_TX1_HEX_def encode_eval tx_fits_def)

lemma funding_tx2_hex: "encode_hex False (encode_tx funding_tx2) = FUNDING_TX2_HEX" "tx_fits funding_tx2"
  by (simp_all add: funding_tx2_def FUNDING_TX2_HEX_def encode_eval tx_fits_def)

lemma foreign_funding_tx_hex: "encode_hex False (encode_tx foreign_funding_tx) = FOREIGN_FUNDING_TX_HEX" "tx_fits foreign_funding_tx"
  by (simp_all add: foreign_funding_tx_def FOREIGN_FUNDING_TX_HEX_def encode_eval tx_fits_def)

lemmas tx_from_hex =
  transaction_from_hex_encode [OF conversions_tx_hex]
  transaction_from_hex_encode [OF segwit_tx_hex]
  transaction_from_hex_encode [OF metadata_tx_hex]
  transaction_from_hex_encode [OF funding_tx0_hex]
  transaction_from_hex_encode [OF funding_tx1_hex]
  transaction_from_hex_encode [OF funding_tx2_hex]
  transaction_from_hex_encode [OF foreign_funding_tx_hex]

section \<open>The tests pass\<close>

lemma conversion_tests_pass:
  "test_transaction_conversions (ref_env dbg) test_wire = Ok ()"
  "txid_to_string (tx_id (ref_env dbg) segwit_tx) =
     ''6ed431718c73787ad92e6bcbd6ac7c8151e08dffeeebb6d9e5af2d25b6837d98'' \<Longrightarrow>
   test_segwit_txid (ref_env dbg) test_wire txid_to_string = Ok ()"
  by (simp_all add: test_transaction_conversions_def test_segwit_txid_def tx_from_hex transaction_to_string_def
      transaction_encode_hex_def transaction_to_bytes_def transaction_from_bytes_def test_wire_simps
      conversions_tx_hex decode_encode_tx)

definition metadata_hash :: bytes where
  "metadata_hash = hex_bytes ''85f467f2bad583dbb08f84a47e817d8293fb8c70d033604f441f53a6cc092f18''"

lemma metadata_tx_metadata:
  "anchoring_metadata (ref_env dbg) metadata_tx =
     Ok (Some (hex_bytes ''00200f2602a87bbdb59fdf4babfffd568ef39a85cf2f08858c8847d70f27894b6884'',
       \<lparr>block_height = 21000, block_hash = Hash (of_nat (le_val metadata_hash)), prev_tx_chain = None\<rparr>))"
  by (simp add: anchoring_metadata_def anchoring_payload_def metadata_tx_def get_nth_def hex_bytes_def hex_digit_def
      payload_from_script_def ref_script_iter_def payload_from_push_def subslice_def slice_from_def index_at_def
      payload_consts payload_v1_read_def ref_hash_from_slice_def payload_from_v1_def metadata_hash_def)

lemma metadata_test_passes:
  assumes "hash_from_hex ''85f467f2bad583dbb08f84a47e817d8293fb8c70d033604f441f53a6cc092f18'' =
      Inr (Hash (of_nat (le_val metadata_hash)))"
    and "p2wsh_to_string (hex_bytes ''00200f2602a87bbdb59fdf4babfffd568ef39a85cf2f08858c8847d70f27894b6884'')
      Testnet = ''tb1qgjg3s5u93cuvf5y8pc2aw259gf7spj7x3a4k09lc6a4gtnhg8l0su4axp4''"
  shows "test_anchoring_tx_metadata (ref_env dbg) test_wire hash_from_hex p2wsh_to_string = Ok ()"
  using assms by (simp add: test_anchoring_tx_metadata_def tx_from_hex metadata_tx_metadata)

text \<open>The test of random transactions passes for every choice of the parameters.\<close>

lemma random_transactions_test_passes:
  assumes "input_num < 2 ^ 64" "output_num < 2 ^ 64" "length s < 2 ^ 63"
  shows "test_transaction_exonum_field (ref_env dbg) test_wire sha256d_hash input_num vout output_num v s = Ok ()"
proof -
  have "length (ref_op_return_script s) < 2 ^ 64" using assms(3) by (simp add: ref_op_return_script_def)
  then show ?thesis
    using assms(1,2)
    by (simp add: test_transaction_exonum_field_def transaction_to_bytes_def transaction_from_bytes_def
        test_wire_simps decode_encode_tx tx_fits_def list_all_iff)
qed

text \<open>The two tests that are expected to panic, with the errors of the reader.\<close>

lemma invalid_flag_error:
  "\<exists>b. decode_hex INVALID_FLAG_TX_HEX = Inr b \<and> decode_tx b = Inl (Lib_Error ''unsupported segwit version: 16'')"
proof -
  have "\<exists>rest. decode_hex INVALID_FLAG_TX_HEX = Inr (write_word 4 (0x66 :: u32) @ 0 # 0x10 # rest)"
    by (simp add: INVALID_FLAG_TX_HEX_def hex_digit_def write_word_def le_bytes_numeral)
  then obtain rest where "decode_hex INVALID_FLAG_TX_HEX = Inr (write_word 4 (0x66 :: u32) @ 0 # 0x10 # rest)" ..
  moreover have "decimal 16 = ''16''" by (simp add: decimal.simps [of 16] decimal.simps [of "Suc 0"] char_of_def bit_0)
  ultimately show ?thesis using unknown_segwit_flag [of "0x10" "0x66" rest] by simp
qed

text \<open>The string of the second test is the one of \<open>funding_tx0\<close> with a line missing.\<close>

lemma invalid_length_bytes:
  "decode_hex INVALID_LENGTH_TX_HEX = Inr (write_word 4 (0x66 :: u32) @ 0 # 1 #
     write_vec write_tx_in [tx_input funding_tx0 ! 0] @ write_vec write_tx_out (tx_output funding_tx0) @
     compact_size 2 @ write_script (hex_bytes (concat [
       ''3045022100ddc7eb1193529a8d0e48cf24f536d5fbb5de3b67d2f56c98190ea8585d58a156022075021d0478ac'',
       ''d223fb9b2ad7485f06f12914a1b7effc78390a08c50bfe53b3b248''])) @
     compact_size 21 @ [0x06, 0x2c, 0x14, 0x00])"
  by (simp add: INVALID_LENGTH_TX_HEX_def funding_tx0_def encode_eval)

lemma invalid_length_error:
  "\<exists>b. decode_hex INVALID_LENGTH_TX_HEX = Inr b \<and> decode_tx b = Inl (Lib_Error ''failed to fill whole buffer'')"
proof -
  have ins: "script_fits (script_sig (tx_input funding_tx0 ! 0))" by (simp add: funding_tx0_def)
  have outs: "length (tx_output funding_tx0) < 2 ^ 64 \<and>
      list_all (\<lambda>q. script_fits (script_pubkey q)) (tx_output funding_tx0)"
    using funding_tx0_hex(2) by (simp add: tx_fits_def)
  show ?thesis
    unfolding invalid_length_bytes
    by (rule exI, rule conjI, rule refl, rule truncated_witness [OF ins outs])
      (simp_all add: hex_bytes_def hex_digit_def)
qed

lemma invalid_transactions_panic:
  "test_transaction_exonum_field_invalid_segwit_flag test_wire = Panic Unwrap_None"
  "test_transaction_exonum_field_invalid_length test_wire = Panic Unwrap_None"
  using invalid_flag_error invalid_length_error
  by (auto simp: test_transaction_exonum_field_invalid_segwit_flag_def
      test_transaction_exonum_field_invalid_length_def transaction_from_bytes_def test_wire_simps)

text \<open>
  The tests of the builder need the output script of the redeem script of the three keys, which is a
  hash of it.
\<close>

definition test_script :: script where
  "test_script = hex_bytes ''0020e9bb049fdff8f8d3b33b7335978b1dbb268833a32a69906f9e500e4103151bef''"

definition test_keys :: "btc_public_key list" where
  "test_keys = map (\<lambda>h. Btc_Public_Key (le_val (hex_bytes h))) TEST_KEYS"

lemma test_redeem_script_eq:
  assumes "to_script test_keys = Inr r"
  shows "test_redeem_script test_wire to_script = (Ok r :: (_, 'e) outcome)"
proof -
  have "\<forall>h \<in> set TEST_KEYS. \<exists>b. decode_hex h = Inr b" by (simp add: TEST_KEYS_def hex_digit_def)
  then have "\<forall>h \<in> set TEST_KEYS. unwrap_result (public_key_from_hex test_wire h) =
      (Ok (Btc_Public_Key (le_val (hex_bytes h))) :: (_, 'e) outcome)"
    by (auto simp: public_key_from_hex_def test_wire_def sample_wire_def hex_bytes_def)
  then have "collect_oc (\<lambda>h. unwrap_result (public_key_from_hex test_wire h)) TEST_KEYS =
      (Ok test_keys :: (_, 'e) outcome)"
    unfolding test_keys_def by (rule collect_oc_Ok)
  with assms show ?thesis by (simp add: test_redeem_script_def)
qed

lemma test_script_eval:
  "length test_script = 34"
  "test_script = [0x00, 0x20, 0xe9, 0xbb, 0x04, 0x9f, 0xdf, 0xf8, 0xf8, 0xd3, 0xb3, 0x3b, 0x73, 0x35, 0x97, 0x8b, 0x1d,
     0xbb, 0x26, 0x88, 0x33, 0xa3, 0x2a, 0x69, 0x90, 0x6f, 0x9e, 0x50, 0x0e, 0x41, 0x03, 0x15, 0x1b, 0xef]"
  by (simp_all add: test_script_def hex_bytes_def hex_digit_def)

lemma test_outputs:
  "find_out funding_tx0 test_script = Some (1, \<lparr>txout_value = 10000, script_pubkey = test_script\<rparr>)"
  "find_out funding_tx1 test_script = Some (1, \<lparr>txout_value = 10000, script_pubkey = test_script\<rparr>)"
  "find_out funding_tx2 test_script = Some (0, \<lparr>txout_value = 100000, script_pubkey = test_script\<rparr>)"
  "find_out foreign_funding_tx test_script = None"
  by (simp_all add: find_out_def funding_tx0_def funding_tx1_def funding_tx2_def foreign_funding_tx_def
      test_script_eval hex_bytes_def hex_digit_def)

lemma find_out_index: "find_out tx script = Some (i, out) \<Longrightarrow> index_at (tx_output tx) i = Ok out"
  by (simp add: find_out_Some_iff index_at_def get_nth_def)

text \<open>What \<open>create\<close> makes of the funds of a test, with one satoshi per byte.\<close>

lemma test_create:
  assumes "builder_sources b = srcs" "srcs \<noteq> []" "length srcs \<le> 3"
    and "builder_output b = test_script" "builder_fee b = Some 1" "builder_recovery_tx b = None"
    and "builder_payload b = Some (0, h)"
    and "create_inputs (ref_env dbg) [] [] 0 srcs = (Ok (ins, txs, bal) :: (_, builder_error) outcome)"
    and "of_nat (112 + 41 * length srcs) < bal"
  shows "\<exists>tx. create (ref_env dbg) b = Ok (tx, map snd srcs) \<and> tx_version tx = 2 \<and>
    length (tx_input tx) = length srcs \<and> length (tx_output tx) = 2 \<and>
    txout_value (tx_output tx ! 0) \<noteq> 0 \<and> txout_value (tx_output tx ! 1) = 0"
proof -
  let ?p = "\<lparr>block_height = 0, block_hash = h, prev_tx_chain = None\<rparr>"
  have txs: "txs = map snd srcs" using create_inputs_OkD [OF assms(8)] by simp
  have size: "size_of_tx (ref_env dbg) (draft_tx (ref_env dbg) b ?p v) = of_nat (112 + 41 * length srcs)" for v
    using assms(1-4) by (subst ref_draft_size) (simp_all add: test_script_eval(1))
  have "mul_u64 dbg 1 x = (Ok x :: (_, builder_error) outcome)" for x
    using unat_less_2p [of x] by (simp add: mul_u64_def)
  then have "create (ref_env dbg) b = Ok (draft_tx (ref_env dbg) b ?p (bal - of_nat (112 + 41 * length srcs)), map snd srcs)"
    using assms(9)
    by (simp add: create_eq [OF ref_crate_laws assms(7,5) refl] assms(1,6,8) size txs assms(2))
  moreover have "bal - of_nat (112 + 41 * length srcs) \<noteq> 0" using assms(9) by auto
  ultimately show ?thesis by (simp add: draft_tx_def unsigned_tx_def assms(1))
qed

lemma builder_tests_pass:
  assumes "to_script test_keys = Inr r" "to_v0_p2wsh (ref_env dbg) r = test_script"
  shows "test_anchoring_transaction_builder_simple (ref_env dbg) test_wire to_script = Ok ()"
    "test_anchoring_transaction_builder_funds (ref_env dbg) test_wire to_script = Ok ()"
    "test_anchoring_transaction_builder_incorrect_prev_tx (ref_env dbg) test_wire to_script = Ok ()"
    "test_anchoring_transaction_builder_incorrect_funds (ref_env dbg) test_wire to_script = Ok ()"
proof -
  note redeem = test_redeem_script_eq [of to_script, OF assms(1)]
  let ?new = "tx_builder_new (ref_env dbg) r" and ?hash = "transaction_object_hash (ref_env dbg) test_wire funding_tx0"
  have new: "builder_script_pubkey ?new = test_script" "builder_additional_funds ?new = []" "builder_prev_tx ?new = None"
      "builder_transit_to ?new = None" "builder_recovery_tx ?new = None"
    using assms(2) by (simp_all add: tx_builder_new_def)
  note at = test_outputs(1-3) [THEN find_out_index, unfolded One_nat_def]
  note add = add_additional_funds_def new test_outputs
  let ?b = "set_payload (set_fee (?new\<lparr>builder_additional_funds := [(1, funding_tx0)]\<rparr>) 1) 0 ?hash"
  have "\<exists>tx. create (ref_env dbg) ?b = Ok (tx, map snd [(1 :: nat, funding_tx0)]) \<and> tx_version tx = 2 \<and>
      length (tx_input tx) = length [(1 :: nat, funding_tx0)] \<and> length (tx_output tx) = 2 \<and>
      txout_value (tx_output tx ! 0) \<noteq> 0 \<and> txout_value (tx_output tx ! 1) = 0"
    by (rule test_create [where h = ?hash and bal = 10000])
      (simp_all add: builder_sources_def builder_output_def set_payload_def set_fee_def new at add_u64_def)
  then show "test_anchoring_transaction_builder_simple (ref_env dbg) test_wire to_script = Ok ()"
    by (auto simp: test_anchoring_transaction_builder_simple_def tx_from_hex redeem add index_at_def get_nth_def)
  let ?b = "set_payload (set_fee (?new\<lparr>builder_additional_funds :=
    [(1, funding_tx0), (1, funding_tx1), (0, funding_tx2)]\<rparr>) 1) 0 ?hash"
  have "\<exists>tx. create (ref_env dbg) ?b = Ok (tx, map snd [(1 :: nat, funding_tx0), (1, funding_tx1), (0, funding_tx2)]) \<and>
      tx_version tx = 2 \<and> length (tx_input tx) = length [(1 :: nat, funding_tx0), (1, funding_tx1), (0, funding_tx2)] \<and>
      length (tx_output tx) = 2 \<and> txout_value (tx_output tx ! 0) \<noteq> 0 \<and> txout_value (tx_output tx ! 1) = 0"
    by (rule test_create [where h = ?hash and bal = 120000])
      (simp_all add: builder_sources_def builder_output_def set_payload_def set_fee_def new at add_u64_def)
  then show "test_anchoring_transaction_builder_funds (ref_env dbg) test_wire to_script = Ok ()"
    by (auto simp: test_anchoring_transaction_builder_funds_def tx_from_hex redeem add index_at_def get_nth_def)
  have "hex_bytes ''00200f2602a87bbdb59fdf4babfffd568ef39a85cf2f08858c8847d70f27894b6884'' \<noteq> test_script"
    by (simp add: test_script_eval(2) hex_bytes_def hex_digit_def)
  then show "test_anchoring_transaction_builder_incorrect_prev_tx (ref_env dbg) test_wire to_script = Ok ()"
    by (simp add: test_anchoring_transaction_builder_incorrect_prev_tx_def tx_from_hex redeem add set_prev_tx_def
        metadata_tx_metadata)
  show "test_anchoring_transaction_builder_incorrect_funds (ref_env dbg) test_wire to_script = Ok ()"
    by (simp add: test_anchoring_transaction_builder_incorrect_funds_def tx_from_hex redeem add)
qed

end
