(* ===== verification/Funding_Round.thy ===== *)
theory Funding_Round
  imports Service_Samples Service_Events Vote_Count
begin

text \<open>
  The confirmation of a funding transaction by several nodes: the blockchain executes their
  \<open>add_funds\<close> transactions (\<open>src/blockchain/transactions.rs\<close>) among other events, and a quorum of
  different Bitcoin keys makes the transaction available to the next proposal.
\<close>

definition confirmed_by :: "env \<Rightarrow> transaction \<Rightarrow> schema \<Rightarrow> btc_public_key set" where
  "confirmed_by E tx s = fst ` set (unwrap_or_default bmap_default
     (unconfirmed_funding_transactions s (tx_id E tx)))"

definition confirming_key :: "config \<Rightarrow> service_key \<Rightarrow> btc_public_key" where
  "confirming_key c author = snd (the (find_bitcoin_key c author))"

text \<open>A funding transaction that is wanted and has no quorum yet.\<close>

definition funding_open :: "env \<Rightarrow> config \<Rightarrow> transaction \<Rightarrow> service_state \<Rightarrow> bool" where
  "funding_open E c tx st \<longleftrightarrow> service_inv E st \<and> actual_config_entry (snd st) = Some c \<and>
     find_out tx (out_script_of E c) \<noteq> None \<and>
     spent_funding_transactions (snd st) (tx_id E tx) = None \<and>
     (\<forall>f. unspent_funding_entry (snd st) = Some f \<longrightarrow> tx_id E f \<noteq> tx_id E tx) \<and>
     card (confirmed_by E tx (snd st)) < config_byzantine_quorum E c"

definition funding_ends :: "env \<Rightarrow> transaction \<Rightarrow> service_state \<Rightarrow> service_state \<Rightarrow> bool" where
  "funding_ends E tx st st' \<longleftrightarrow>
     (\<exists>t. unspent_funding_entry (snd st') = Some t \<and> tx_id E t = tx_id E tx) \<or>
     actual_config_entry (snd st') \<noteq> actual_config_entry (snd st)"

definition confirms :: "config \<Rightarrow> transaction \<Rightarrow> service_event \<Rightarrow> bool" where
  "confirms c tx e = (case e of
     Ev_Add_Funds author msg \<Rightarrow> msg = \<lparr>af_transaction = tx\<rparr> \<and> find_bitcoin_key c author \<noteq> None
   | _ \<Rightarrow> False)"

definition event_key :: "config \<Rightarrow> service_event \<Rightarrow> btc_public_key" where
  "event_key c e = (case e of Ev_Add_Funds author msg \<Rightarrow> confirming_key c author | _ \<Rightarrow> Btc_Public_Key 0)"

section \<open>The events\<close>

lemma finite_confirmed_by: "finite (confirmed_by E tx s)"
  by (simp add: confirmed_by_def)

lemma confirmed_by_cong:
  "unconfirmed_funding_transactions s' (tx_id E tx) = unconfirmed_funding_transactions s (tx_id E tx) \<Longrightarrow>
   confirmed_by E tx s' = confirmed_by E tx s"
  by (simp add: confirmed_by_def)

lemma card_confirmations_with:
  assumes "schema_inv E core s"
  shows "bmap_len (confirmations_with E s tx pk) = card (insert pk (confirmed_by E tx s))"
  using btree.size_card [OF confirmations_with_ordered [OF assms], of tx pk]
  by (simp add: bmap_keys confirmations_with_def keys_bmap_insert confirmed_by_def)

lemma confirmed_by_stored:
  "confirmed_by E tx (s\<lparr>unconfirmed_funding_transactions :=
     (unconfirmed_funding_transactions s)(tx_id E tx' \<mapsto> confirmations_with E s tx' pk)\<rparr>) =
   (if tx_id E tx' = tx_id E tx then insert pk (confirmed_by E tx s) else confirmed_by E tx s)"
  by (simp add: confirmed_by_def unwrap_or_default_def confirmations_with_def keys_bmap_insert)

text \<open>An \<open>add_funds\<close> event is rejected, stores a confirmation, or accepts its transaction.\<close>

lemma funds_event_outcomes [consumes 3]:
  assumes "schema_inv E core s" "actual_config_entry s = Some c"
    and "execute E (Ev_Add_Funds author msg) (core, s) = (core', s')"
  obtains (rejected) "s' = s" "find_bitcoin_key c author = None \<or>
      find_out (af_transaction msg) (out_script_of E c) = None \<or>
      spent_funding_transactions s (tx_id E (af_transaction msg)) \<noteq> None"
  | (stored) n pk where "find_bitcoin_key c author = Some (n, pk)"
      "bmap_len (confirmations_with E s (af_transaction msg) pk) \<noteq> config_byzantine_quorum E c"
      "s' = s\<lparr>unconfirmed_funding_transactions := (unconfirmed_funding_transactions s)
        (tx_id E (af_transaction msg) \<mapsto> confirmations_with E s (af_transaction msg) pk)\<rparr>"
  | (accepted) n pk where "find_bitcoin_key c author = Some (n, pk)"
      "bmap_len (confirmations_with E s (af_transaction msg) pk) = config_byzantine_quorum E c"
      "s' = s\<lparr>unconfirmed_funding_transactions :=
          (unconfirmed_funding_transactions s)(tx_id E (af_transaction msg) \<mapsto> bmap_default),
        unspent_funding_entry := Some (af_transaction msg)\<rparr>"
  using assms(3)
  by (auto simp: add_funds_eq [OF assms(1,2)] confirmations_with_def Let_def split: option.splits if_splits)

lemma funds_event:
  assumes "funding_open E c tx (core, s)" "execute E (Ev_Add_Funds author msg) (core, s) = (core', s')"
  shows "funding_ends E tx (core, s) (core', s') \<or>
    spent_funding_transactions s' = spent_funding_transactions s \<and>
    actual_config_entry s' = actual_config_entry s \<and>
    (\<forall>f. unspent_funding_entry s' = Some f \<longrightarrow> tx_id E f \<noteq> tx_id E tx) \<and>
    card (confirmed_by E tx s') < config_byzantine_quorum E c \<and>
    confirmed_by E tx s \<subseteq> confirmed_by E tx s' \<and>
    (confirms c tx (Ev_Add_Funds author msg) \<longrightarrow> confirming_key c author \<in> confirmed_by E tx s')"
proof -
  let ?same = "tx_id E (af_transaction msg) = tx_id E tx"
  have o: "schema_inv E core s" "actual_config_entry s = Some c" "find_out tx (out_script_of E c) \<noteq> None"
    "spent_funding_transactions s (tx_id E tx) = None"
    "\<forall>f. unspent_funding_entry s = Some f \<longrightarrow> tx_id E f \<noteq> tx_id E tx"
    "card (confirmed_by E tx s) < config_byzantine_quorum E c"
    using assms(1) by (simp_all add: funding_open_def service_inv_def)
  have len: "bmap_len (confirmations_with E s (af_transaction msg) pk) = card (insert pk (confirmed_by E tx s))"
    if ?same for pk
    using card_confirmations_with [OF o(1), of tx pk] that by (simp add: confirmations_with_def)
  have other: "\<not> confirms c tx (Ev_Add_Funds author msg)" if "\<not> ?same" using that by (auto simp: confirms_def)
  show ?thesis
    using o(1,2) assms(2)
  proof (cases rule: funds_event_outcomes)
    case rejected
    then have "\<not> confirms c tx (Ev_Add_Funds author msg)" using o(3,4) by (auto simp: confirms_def)
    with rejected(1) o(5,6) show ?thesis by simp
  next
    case (stored n pk)
    have keys: "confirmed_by E tx s' = (if ?same then insert pk (confirmed_by E tx s) else confirmed_by E tx s)"
      unfolding stored(3) by (rule confirmed_by_stored)
    moreover have "card (insert pk (confirmed_by E tx s)) < config_byzantine_quorum E c" if ?same
      using o(6) stored(2) len [OF that, of pk] by (simp add: card_insert_if finite_confirmed_by split: if_splits)
    ultimately show ?thesis
      using o(5,6) stored(1,3) other by (cases ?same) (auto simp: confirming_key_def)
  next
    case (accepted n pk)
    show ?thesis
    proof (cases ?same)
      case True
      then show ?thesis by (simp add: accepted(3) funding_ends_def)
    next
      case False
      have "confirmed_by E tx s' = confirmed_by E tx s" using False by (simp add: accepted(3) confirmed_by_def)
      then show ?thesis using o(6) False other accepted(3) by simp
    qed
  qed
qed

text \<open>A \<open>sign_input\<close> event leaves the confirmations alone and spends another transaction at most.\<close>

lemma sign_event:
  assumes "crate_laws E" "funding_open E c tx (core, s)"
    and "execute E (Ev_Sign_Input author msg) (core, s) = (core', s')"
  shows "unconfirmed_funding_transactions s' = unconfirmed_funding_transactions s"
    "spent_funding_transactions s' (tx_id E tx) = None"
    "unspent_funding_entry s' = unspent_funding_entry s \<or> unspent_funding_entry s' = None"
proof -
  have o: "core_laws core" "schema_inv E core s" "actual_config_entry s = Some c"
    "spent_funding_transactions s (tx_id E tx) = None"
    "\<forall>f. unspent_funding_entry s = Some f \<longrightarrow> tx_id E f \<noteq> tx_id E tx"
    using assms(2) by (simp_all add: funding_open_def service_inv_def)
  have "unconfirmed_funding_transactions s' = unconfirmed_funding_transactions s \<and>
    spent_funding_transactions s' (tx_id E tx) = None \<and>
    (unspent_funding_entry s' = unspent_funding_entry s \<or> unspent_funding_entry s' = None)"
  proof (cases "sign_input E (node_context core author) s msg")
    case (Ok s1)
    then have s1: "s' = s1" using assms(3) by simp
    have ctx: "for_core (node_context core author) = core" by simp
    show ?thesis
    proof (cases "transactions_chain s1 = transactions_chain s")
      case True
      show ?thesis
        unfolding s1 by (rule sign_input_sameE [OF assms(1) o(1-3) ctx Ok True]) (use o(4) in simp_all)
    next
      case False
      then obtain n fin where "s1 = pushed E (with_signature s (signed_key msg) n (si_input_signature msg)) fin"
        using sign_input_finalizedE [OF assms(1) o(1-3) ctx Ok] by metis
      then show ?thesis using o(4,5) by (auto simp: s1 pushed_def split: option.split)
    qed
  qed (use assms(3) o(4) in auto)
  then show "unconfirmed_funding_transactions s' = unconfirmed_funding_transactions s"
    "spent_funding_transactions s' (tx_id E tx) = None"
    "unspent_funding_entry s' = unspent_funding_entry s \<or> unspent_funding_entry s' = None" by simp_all
qed

lemma configure_event:
  assumes "execute E (Ev_Configure params) (core, s) = (core', s')"
  shows "unconfirmed_funding_transactions s' = unconfirmed_funding_transactions s"
    "spent_funding_transactions s' = spent_funding_transactions s"
    "unspent_funding_entry s' = unspent_funding_entry s"
  using assms by (auto simp: or_unchanged_def apply_config_def outcome_simps split: outcome.splits if_splits)

lemma funding_event_cases:
  assumes "crate_laws E" "funding_open E c tx st"
  shows "funding_ends E tx st (execute E e st) \<or>
    funding_open E c tx (execute E e st) \<and>
    confirmed_by E tx (snd st) \<subseteq> confirmed_by E tx (snd (execute E e st)) \<and>
    (confirms c tx e \<longrightarrow> event_key c e \<in> confirmed_by E tx (snd (execute E e st)))"
proof -
  obtain core s core' s' where st: "st = (core, s)" and st': "execute E e (core, s) = (core', s')"
    by (meson surj_pair)
  have inv: "service_inv E (core', s')"
    using execute_inv(1) [OF assms(1), of st e] assms(2) by (simp add: funding_open_def st st')
  note o = assms(2) [unfolded st]
  have keep: ?thesis
    if "unconfirmed_funding_transactions s' = unconfirmed_funding_transactions s"
      "spent_funding_transactions s' (tx_id E tx) = None" "\<not> confirms c tx e"
      "unspent_funding_entry s' = unspent_funding_entry s \<or> unspent_funding_entry s' = None"
    using that o inv confirmed_by_cong [of s' E tx s]
    by (auto simp: st st' funding_open_def funding_ends_def)
  show ?thesis
  proof (cases e)
    case (Ev_Sign_Input author msg)
    show ?thesis
      using sign_event [OF assms(1) o st' [unfolded Ev_Sign_Input]]
      by (intro keep) (simp_all add: Ev_Sign_Input confirms_def)
  next
    case (Ev_Add_Funds author msg)
    then show ?thesis
      using funds_event [OF o st' [unfolded Ev_Add_Funds]] o inv
      unfolding st st' snd_conv by (auto simp: funding_open_def event_key_def)
  next
    case (Ev_Configure params)
    show ?thesis
      using configure_event [OF st' [unfolded Ev_Configure]] o
      by (intro keep) (simp_all add: Ev_Configure confirms_def funding_open_def)
  next
    case (Ev_Block height hash)
    show ?thesis
      using o st' by (intro keep) (auto simp: Ev_Block confirms_def funding_open_def split: if_splits)
  qed
qed

section \<open>The count of the confirmations\<close>

lemma funding_not_ended:
  "funding_open E c tx st \<Longrightarrow> funding_open E c tx st' \<Longrightarrow> \<not> funding_ends E tx st st'"
  by (auto simp: funding_open_def funding_ends_def)

sublocale crates \<subseteq> funding_round: vote_count "execute E" "funding_open E c tx" "funding_ends E tx"
    "confirms c tx" "event_key c" "\<lambda>_. 0" 1 "\<lambda>st _. confirmed_by E tx (snd st)"
    "config_byzantine_quorum E c"
  for c tx
proof
  fix st e assume st: "funding_open E c tx st"
  note cases = funding_event_cases [OF laws st, of e]
  show "funding_open E c tx (execute E e st) \<or> funding_ends E tx st (execute E e st)" using cases by blast
  assume "funding_open E c tx (execute E e st)"
  note kept = cases [simplified funding_not_ended [OF st this], simplified]
  show "confirmed_by E tx (snd st) \<subseteq> confirmed_by E tx (snd (execute E e st))" using kept by blast
  show "event_key c e \<in> confirmed_by E tx (snd (execute E e st)) \<or>
      config_byzantine_quorum E c \<le> card (confirmed_by E tx (snd (execute E e st)))" if "confirms c tx e"
    using kept that by blast
qed (simp_all add: finite_confirmed_by funding_open_def)

context crates
begin

lemmas confirmations_close = funding_round.count_closes

end

lemma confirmations_complete:
  assumes "crate_laws E" "funding_open E c tx st"
    and "(\<lambda>a. Ev_Add_Funds a \<lparr>af_transaction = tx\<rparr>) ` A \<subseteq> set es" "\<forall>a \<in> A. find_bitcoin_key c a \<noteq> None"
    and "config_byzantine_quorum E c \<le> card (confirming_key c ` A)"
  shows "\<exists>us e ws. es = us @ e # ws \<and>
    ((\<exists>t. unspent_funding_entry (snd (run_events E (us @ [e]) st)) = Some t \<and> tx_id E t = tx_id E tx) \<or>
     actual_config_entry (snd (run_events E (us @ [e]) st)) \<noteq> Some c)"
proof -
  let ?V = "(\<lambda>a. Ev_Add_Funds a \<lparr>af_transaction = tx\<rparr>) ` A"
  have "event_key c ` ?V = confirming_key c ` A" by (auto simp: event_key_def image_image)
  then have "\<exists>us e ws. es = us @ e # ws \<and> funding_open E c tx (run_events E us st) \<and>
      funding_ends E tx (run_events E us st) (execute E e (run_events E us st))"
    using assms(4,5)
    by (intro crates.confirmations_close [OF crates.intro [OF assms(1)] assms(2,3)])
      (auto simp: confirms_def)
  then show ?thesis by (fastforce simp: funding_ends_def funding_open_def)
qed

lemma funds_events_config:
  assumes "crate_laws E" "service_inv E st" "\<forall>e \<in> set es. \<exists>a msg. e = Ev_Add_Funds a msg"
  shows "actual_config_entry (snd (run_events E es st)) = actual_config_entry (snd st)"
  using assms(2,3)
proof (induction es arbitrary: st)
  case (Cons e es)
  obtain core s where st: "st = (core, s)" by (cases st)
  obtain a msg where e: "e = Ev_Add_Funds a msg" using Cons.prems(2) by auto
  have inv: "schema_inv E core s" using Cons.prems(1) by (simp add: st service_inv_def)
  obtain c where c: "actual_config_entry s = Some c" using inv by (rule schema_inv_config)
  have "actual_config_entry (snd (execute E e st)) = actual_config_entry s"
    by (simp add: st e add_funds_eq [OF inv c] Let_def split: option.split)
  with Cons.IH [OF execute_inv(1) [OF assms(1) Cons.prems(1), of e]] Cons.prems(2) show ?case
    by (simp add: st)
qed simp

text \<open>
  C9. A quorum of confirmations funds the next proposal: for a transaction that pays to the address of
  the service, is not spent, not yet accepted, and has less than a quorum of confirmations, any
  sequence of events that contains the \<open>add_funds\<close> transactions of anchoring nodes with a quorum of
  different Bitcoin keys has an event after which it, or one with the same id, is the unspent
  funding transaction, unless the actual configuration changes. The order of the events, repetitions,
  signatures, new blocks and whatever other transactions are sent cannot prevent it.
\<close>

theorem funding_completes:
  assumes "crate_laws E" and "reachable E from_bytes core s" and "actual_config_entry s = Some c"
    and "find_out tx (out_script_of E c) \<noteq> None"
    and "spent_funding_transactions s (tx_id E tx) = None"
    and "\<forall>f. unspent_funding_entry s = Some f \<longrightarrow> tx_id E f \<noteq> tx_id E tx"
    and "card (confirmed_by E tx s) < config_byzantine_quorum E c"
    and "\<forall>a \<in> A. find_bitcoin_key c a \<noteq> None"
    and "config_byzantine_quorum E c \<le> card (confirming_key c ` A)"
    and "(\<lambda>a. Ev_Add_Funds a \<lparr>af_transaction = tx\<rparr>) ` A \<subseteq> set es"
  shows "\<exists>us e ws. es = us @ e # ws \<and>
    ((\<exists>t. unspent_funding_entry (snd (run_events E (us @ [e]) (core, s))) = Some t \<and>
       tx_id E t = tx_id E tx) \<or>
     actual_config_entry (snd (run_events E (us @ [e]) (core, s))) \<noteq> Some c)"
proof -
  have "service_inv E (core, s)" by (rule reachable_stateE [OF assms(1,2)]) (simp add: service_inv_def)
  with assms(3-7) have "funding_open E c tx (core, s)" by (simp add: funding_open_def)
  then show ?thesis by (rule confirmations_complete [OF assms(1) _ assms(10,8,9)])
qed

theorem funding_completes_witness:
  "\<exists>us e ws. [Ev_Add_Funds (Service_Key 1) \<lparr>af_transaction = duo_fund\<rparr>, Ev_Block 13 (Hash 99),
       Ev_Add_Funds (Service_Key 1) \<lparr>af_transaction = duo_fund\<rparr>,
       Ev_Add_Funds (Service_Key 0) \<lparr>af_transaction = duo_fund\<rparr>] = us @ e # ws \<and>
    ((\<exists>t. unspent_funding_entry (snd (run_events (ref_env False) (us @ [e]) (sample_core, duo_start))) =
         Some t \<and> tx_id (ref_env False) t = tx_id (ref_env False) duo_fund) \<or>
     actual_config_entry (snd (run_events (ref_env False) (us @ [e]) (sample_core, duo_start))) \<noteq>
       Some (sample_config 2))"
proof (rule funding_completes [OF ref_crate_laws duo_reachable(1) duo_simps(1)])
  let ?A = "{Service_Key 0, Service_Key 1}"
  show "find_out duo_fund (out_script_of (ref_env False) (sample_config 2)) \<noteq> None"
    by (simp add: duo_find_out)
  show "spent_funding_transactions duo_start (tx_id (ref_env False) duo_fund) = None"
    "\<forall>f. unspent_funding_entry duo_start = Some f \<longrightarrow> tx_id (ref_env False) f \<noteq> tx_id (ref_env False) duo_fund"
    by (simp_all add: duo_start_def empty_schema_def)
  show "card (confirmed_by (ref_env False) duo_fund duo_start) <
      config_byzantine_quorum (ref_env False) (sample_config 2)"
    by (simp add: duo_quorum confirmed_by_def duo_start_def empty_schema_def unwrap_or_default_def
        bmap_default_def)
  have keys: "confirming_key (sample_config 2) (Service_Key 0) = Btc_Public_Key 0"
    "confirming_key (sample_config 2) (Service_Key 1) = Btc_Public_Key 1"
    using duo_keys [of 0] duo_keys [of 1] by (simp_all add: confirming_key_def)
  show "\<forall>a \<in> ?A. find_bitcoin_key (sample_config 2) a \<noteq> None"
    using duo_keys [of 0] duo_keys [of 1] by simp
  show "config_byzantine_quorum (ref_env False) (sample_config 2) \<le>
      card (confirming_key (sample_config 2) ` ?A)"
    unfolding image_insert keys by (simp add: duo_quorum)
qed auto

end
