(* ===== verification/Test_Kit.thy ===== *)
theory Test_Kit
  imports Anchoring_Round Funding_Round Api_Endpoints
begin

text \<open>
  The helpers of \<open>src/test_helpers/mod.rs\<close>, with which the service is driven in a test network: the
  pool of Bitcoin keys of the nodes, the transactions that the nodes would send, and the API client
  of the test kit. The test kit itself belongs to \<open>exonum_testkit\<close>: its construction, the execution
  of blocks and its HTTP client are arguments, and so is the source of random numbers. A signed
  transaction of a node is the pair of its service key and the message.
\<close>

instantiation service_key :: linorder
begin

fun less_eq_service_key :: "service_key \<Rightarrow> service_key \<Rightarrow> bool" where
  "less_eq_service_key (Service_Key m) (Service_Key n) = (m \<le> n)"

fun less_service_key :: "service_key \<Rightarrow> service_key \<Rightarrow> bool" where
  "less_service_key (Service_Key m) (Service_Key n) = (m < n)"

instance
proof
  fix x y z :: service_key
  show "x < y \<longleftrightarrow> x \<le> y \<and> \<not> y \<le> x" by (cases x; cases y) auto
  show "x \<le> x" by (cases x) simp
  show "x \<le> y \<Longrightarrow> y \<le> z \<Longrightarrow> x \<le> z" by (cases x; cases y; cases z) simp
  show "x \<le> y \<Longrightarrow> y \<le> x \<Longrightarrow> x = y" by (cases x; cases y) simp
  show "x \<le> y \<or> y \<le> x" by (cases x; cases y) auto
qed

end

section \<open>AnchoringNodes\<close>

record anchoring_nodes =
  nodes_key_pool :: "(btc_public_key, btc_private_key) binary_map"
  nodes_inner :: "(service_key, btc_public_key) binary_map"

definition anchoring_nodes_default :: anchoring_nodes where
  "anchoring_nodes_default = \<lparr>nodes_key_pool = bmap_default, nodes_inner = bmap_default\<rparr>"

text \<open>
  \<open>btc::gen_keypair\<close> only wraps the pair that \<open>secp_gen_keypair\<close> draws. This function is the argument
  \<open>gen\<close>; it takes the state of the source of random numbers and returns the next one.
\<close>

definition nodes_add_node ::
  "(network \<Rightarrow> 'r \<Rightarrow> (btc_public_key \<times> btc_private_key) \<times> 'r) \<Rightarrow> network \<Rightarrow> service_key \<Rightarrow>
     anchoring_nodes \<Rightarrow> 'r \<Rightarrow> btc_public_key \<times> anchoring_nodes \<times> 'r" where
  "nodes_add_node gen net sk nodes r =
     (let (btc_keypair, r) = gen net r in
      (fst btc_keypair, nodes\<lparr>
         nodes_key_pool := bmap_insert (fst btc_keypair) (snd btc_keypair) (nodes_key_pool nodes),
         nodes_inner := bmap_insert sk (fst btc_keypair) (nodes_inner nodes)\<rparr>, r))"

definition nodes_from_keys ::
  "(network \<Rightarrow> 'r \<Rightarrow> (btc_public_key \<times> btc_private_key) \<times> 'r) \<Rightarrow> network \<Rightarrow> service_key list \<Rightarrow> 'r \<Rightarrow>
     anchoring_nodes \<times> 'r" where
  "nodes_from_keys gen net keys r =
     foldl (\<lambda>(nodes, r) sk. snd (nodes_add_node gen net sk nodes r)) (anchoring_nodes_default, r) keys"

definition nodes_anchoring_keys :: "anchoring_nodes \<Rightarrow> anchoring_node_keys list" where
  "nodes_anchoring_keys nodes =
     map (\<lambda>(sk, bk). \<lparr>service_key = sk, bitcoin_key = bk\<rparr>) (nodes_inner nodes)"

text \<open>Indexing a map with a key that it does not have panics.\<close>

definition nodes_private_key :: "anchoring_nodes \<Rightarrow> btc_public_key \<Rightarrow> (btc_private_key, 'e) outcome" where
  "nodes_private_key nodes pk =
     unwrap_or_panic (Expect_None ''no entry found for key'') (bmap_get (nodes_key_pool nodes) pk)"

definition nodes_anchoring_keypairs ::
  "anchoring_nodes \<Rightarrow> ((btc_public_key \<times> btc_private_key) list, 'e) outcome" where
  "nodes_anchoring_keypairs nodes =
     collect_oc (\<lambda>(_, bk). bind_oc (nodes_private_key nodes bk) (\<lambda>priv. Ok (bk, priv))) (nodes_inner nodes)"

section \<open>AnchoringTestKit\<close>

text \<open>
  The test kit holds the nodes of its network, named by their service keys, and the snapshot of the
  database: the core schema and the schema of the service.
\<close>

record test_kit =
  kit_nodes :: "service_key list"
  kit_core :: core_schema
  kit_schema :: schema
  kit_anchoring_nodes :: anchoring_nodes

definition create_fake_funding_transaction ::
  "env \<Rightarrow> (address \<Rightarrow> script) \<Rightarrow> bytes \<Rightarrow> address \<Rightarrow> u64 \<Rightarrow> (transaction, 'e) outcome" where
  "create_fake_funding_transaction E address_script random_data addr value =
     bind_oc (unwrap_or_panic Unwrap_None (sha256d_hash_from_slice E random_data)) (\<lambda>txid.
     Ok \<lparr>tx_version = 2, lock_time = 0,
       tx_input = [\<lparr>previous_output = \<lparr>op_txid = txid, op_vout = 0\<rparr>, script_sig = [], sequence = 0,
         witness = []\<rparr>],
       tx_output = [\<lparr>txout_value = value, script_pubkey = address_script addr\<rparr>]\<rparr>)"

primrec gen_validator_keys :: "('r \<Rightarrow> service_key \<times> 'r) \<Rightarrow> nat \<Rightarrow> 'r \<Rightarrow> service_key list \<times> 'r" where
  "gen_validator_keys gen 0 r = ([], r)"
| "gen_validator_keys gen (Suc n) r =
     (let (k, r) = gen r; (ks, r) = gen_validator_keys gen n r in (k # ks, r))"

text \<open>\<open>build\<close> is \<open>TestKitBuilder::build\<close> for the validators and the configuration of the service.\<close>

definition test_kit_new ::
  "(service_key list \<Rightarrow> config \<Rightarrow> core_schema \<times> schema) \<Rightarrow> ('r \<Rightarrow> service_key \<times> 'r) \<Rightarrow>
     (network \<Rightarrow> 'r \<Rightarrow> (btc_public_key \<times> btc_private_key) \<times> 'r) \<Rightarrow> u16 \<Rightarrow> u64 \<Rightarrow> 'r \<Rightarrow> test_kit \<times> 'r" where
  "test_kit_new build gen_key gen_pair nodes_num interval r =
     (let (validator_keys, r) = gen_validator_keys gen_key (unat nodes_num) r;
          (nodes, r) = nodes_from_keys gen_pair Testnet validator_keys r;
          anchoring_config = config_default\<lparr>network := Testnet,
            anchoring_keys := nodes_anchoring_keys nodes, anchoring_interval := interval\<rparr>;
          (core, s) = build validator_keys anchoring_config in
      (\<lparr>kit_nodes = validator_keys, kit_core = core, kit_schema = s, kit_anchoring_nodes = nodes\<rparr>, r))"

definition actual_anchoring_config :: "test_kit \<Rightarrow> (config, 'e) outcome" where
  "actual_anchoring_config kit = actual_config (kit_schema kit)"

definition last_anchoring_tx :: "test_kit \<Rightarrow> transaction option" where
  "last_anchoring_tx kit = last_opt (transactions_chain (kit_schema kit))"

definition anchoring_transaction_proposal ::
  "env \<Rightarrow> test_kit \<Rightarrow> ((transaction \<times> transaction list) option, 'e) outcome" where
  "anchoring_transaction_proposal E kit =
     unwrap_result (actual_proposed_anchoring_transaction E (kit_core kit) (kit_schema kit))"

definition find_node_by_service_key :: "test_kit \<Rightarrow> service_key \<Rightarrow> service_key option" where
  "find_node_by_service_key kit sk = find (\<lambda>node. node = sk) (kit_nodes kit)"

text \<open>The loop over the inputs of the proposal.\<close>

fun node_signatures ::
  "env \<Rightarrow> redeem_script \<Rightarrow> btc_private_key \<Rightarrow> service_key \<Rightarrow> transaction \<Rightarrow> nat \<Rightarrow> transaction list \<Rightarrow>
     ((service_key \<times> sign_input_msg) list, 'e) outcome" where
  "node_signatures E signer priv node proposal index [] = Ok []"
| "node_signatures E signer priv node proposal index (proposal_input # rest) =
     bind_oc (unwrap_result (of_sum (sign_input_with E signer (proposal, index) proposal_input priv)))
       (\<lambda>signature.
     bind_oc (node_signatures E signer priv node proposal (index + 1) rest) (\<lambda>signatures.
     Ok ((node, \<lparr>si_txid = tx_id E proposal, si_input = of_nat index,
       si_input_signature = signature\<rparr>) # signatures)))"

definition create_signature_tx_for_node ::
  "env \<Rightarrow> test_kit \<Rightarrow> service_key \<Rightarrow> ((service_key \<times> sign_input_msg) list, builder_error) outcome" where
  "create_signature_tx_for_node E kit node =
     bind_oc (actual_proposed_anchoring_transaction E (kit_core kit) (kit_schema kit)) (\<lambda>p.
     case p of
       None \<Rightarrow> Ok []
     | Some (proposal, proposal_inputs) \<Rightarrow>
         bind_oc (actual_state E (kit_schema kit)) (\<lambda>st.
         let config = actual_config_of st in
         bind_oc (unwrap_or_panic Unwrap_None (find_bitcoin_key config node)) (\<lambda>(_, bk).
         bind_oc (nodes_private_key (kit_anchoring_nodes kit) bk) (\<lambda>btc_private_key.
         bind_oc (config_redeem_script E config) (\<lambda>redeem_script.
         node_signatures E redeem_script btc_private_key node proposal 0 proposal_inputs)))))"

definition create_signature_txs ::
  "env \<Rightarrow> test_kit \<Rightarrow> ((service_key \<times> sign_input_msg) list list, 'e) outcome" where
  "create_signature_txs E kit =
     bind_oc (actual_anchoring_config kit) (\<lambda>config.
     collect_oc (\<lambda>keys.
       bind_oc (unwrap_or_panic Unwrap_None (find_node_by_service_key kit (service_key keys))) (\<lambda>node.
       unwrap_result (create_signature_tx_for_node E kit node))) (anchoring_keys config))"

definition create_funding_confirmation_txs_with ::
  "test_kit \<Rightarrow> transaction \<Rightarrow> ((service_key \<times> add_funds_msg) list, 'e) outcome" where
  "create_funding_confirmation_txs_with kit tx =
     bind_oc (actual_anchoring_config kit) (\<lambda>config.
     collect_oc (\<lambda>keys.
       bind_oc (unwrap_or_panic (Expect_None ''Unable to find node by service key'')
         (find_node_by_service_key kit (service_key keys))) (\<lambda>node.
       Ok (node, \<lparr>af_transaction = tx\<rparr>))) (anchoring_keys config))"

definition create_funding_confirmation_txs ::
  "env \<Rightarrow> (address \<Rightarrow> script) \<Rightarrow> bytes \<Rightarrow> test_kit \<Rightarrow> u64 \<Rightarrow>
     ((service_key \<times> add_funds_msg) list \<times> transaction, 'e) outcome" where
  "create_funding_confirmation_txs E address_script random_data kit satoshis =
     bind_oc (actual_anchoring_config kit) (\<lambda>config.
     bind_oc (anchoring_address E config) (\<lambda>addr.
     bind_oc (create_fake_funding_transaction E address_script random_data addr satoshis) (\<lambda>tx.
     bind_oc (create_funding_confirmation_txs_with kit tx) (\<lambda>txs.
     Ok (txs, tx)))))"

text \<open>
  \<open>us\<close> is the validator number of the node of the test kit and \<open>validators\<close> the list of the
  validators, both kept by the test kit; \<open>'p\<close> is the supervisor's \<open>ConfigPropose\<close>.
\<close>

definition create_config_change_tx ::
  "nat option \<Rightarrow> service_key list \<Rightarrow> 'p \<Rightarrow> (service_key \<times> 'p, 'e) outcome" where
  "create_config_change_tx us validators proposal =
     bind_oc (unwrap_or_panic Unwrap_None us) (\<lambda>initiator_id.
     bind_oc (index_at validators initiator_id) (\<lambda>keypair.
     Ok (keypair, proposal)))"

text \<open>\<open>add_kit_node\<close> is \<open>network_mut().add_node()\<close>, which returns the service key of a new node.\<close>

definition test_kit_add_node ::
  "('r \<Rightarrow> service_key \<times> 'r) \<Rightarrow> (network \<Rightarrow> 'r \<Rightarrow> (btc_public_key \<times> btc_private_key) \<times> 'r) \<Rightarrow>
     test_kit \<Rightarrow> 'r \<Rightarrow> (anchoring_node_keys \<times> test_kit \<times> 'r, 'e) outcome" where
  "test_kit_add_node add_kit_node gen_pair kit r =
     (let (sk, r) = add_kit_node r;
          kit = kit\<lparr>kit_nodes := kit_nodes kit @ [sk]\<rparr> in
      bind_oc (actual_anchoring_config kit) (\<lambda>config.
      let (bk, nodes, r) = nodes_add_node gen_pair (network config) sk (kit_anchoring_nodes kit) r in
      Ok (\<lparr>service_key = sk, bitcoin_key = bk\<rparr>, kit\<lparr>kit_anchoring_nodes := nodes\<rparr>, r)))"

definition node_private_key :: "test_kit \<Rightarrow> btc_public_key \<Rightarrow> (btc_private_key, 'e) outcome" where
  "node_private_key kit public_key = nodes_private_key (kit_anchoring_nodes kit) public_key"

definition gen_bitcoin_key ::
  "(network \<Rightarrow> 'r \<Rightarrow> (btc_public_key \<times> btc_private_key) \<times> 'r) \<Rightarrow> test_kit \<Rightarrow> 'r \<Rightarrow>
     (btc_public_key \<times> test_kit \<times> 'r, 'e) outcome" where
  "gen_bitcoin_key gen_pair kit r =
     bind_oc (actual_anchoring_config kit) (\<lambda>config.
     let (keypair, r) = gen_pair (network config) r; nodes = kit_anchoring_nodes kit in
     Ok (fst keypair, kit\<lparr>kit_anchoring_nodes := nodes\<lparr>nodes_key_pool :=
       bmap_insert (fst keypair) (snd keypair) (nodes_key_pool nodes)\<rparr>\<rparr>, r))"

definition block_hash_on_height :: "test_kit \<Rightarrow> u64 \<Rightarrow> (hash, 'e) outcome" where
  "block_hash_on_height kit height = unwrap_or_panic Unwrap_None (kit_core kit height)"

definition kit_anchoring_keypairs ::
  "test_kit \<Rightarrow> ((btc_public_key \<times> btc_private_key) list, 'e) outcome" where
  "kit_anchoring_keypairs kit = nodes_anchoring_keypairs (kit_anchoring_nodes kit)"

definition find_anchoring_node :: "test_kit \<Rightarrow> btc_public_key \<Rightarrow> service_key option" where
  "find_anchoring_node kit bk =
     Option.bind (find (\<lambda>keypair. snd keypair = bk) (nodes_inner (kit_anchoring_nodes kit)))
       (\<lambda>keypair. find_node_by_service_key kit (fst keypair))"

text \<open>\<open>create_block\<close> is \<open>TestKit::create_block_with_transactions\<close>.\<close>

definition test_kit_default ::
  "env \<Rightarrow> (address \<Rightarrow> script) \<Rightarrow> bytes \<Rightarrow> (service_key list \<Rightarrow> config \<Rightarrow> core_schema \<times> schema) \<Rightarrow>
     ('r \<Rightarrow> service_key \<times> 'r) \<Rightarrow> (network \<Rightarrow> 'r \<Rightarrow> (btc_public_key \<times> btc_private_key) \<times> 'r) \<Rightarrow>
     ((service_key \<times> add_funds_msg) list \<Rightarrow> test_kit \<Rightarrow> test_kit) \<Rightarrow> 'r \<Rightarrow> (test_kit \<times> 'r, 'e) outcome" where
  "test_kit_default E address_script random_data build gen_key gen_pair create_block r =
     (let (kit, r) = test_kit_new build gen_key gen_pair 4 5 r in
      bind_oc (create_funding_confirmation_txs E address_script random_data kit 700000) (\<lambda>(txs, _).
      Ok (create_block txs kit, r)))"

section \<open>A round of the test kit\<close>

text \<open>The test kit signs as the task of the node does.\<close>

lemma node_signatures_messages:
  "sign_messages E rs priv proposal k inputs = (Ok msgs :: (_, 'c chain_update_error) outcome) \<Longrightarrow>
   node_signatures E rs priv node proposal k inputs = Ok (map (Pair node) msgs)"
  by (induction inputs arbitrary: k msgs) (auto simp: outcome_simps)

text \<open>
  The test kit knows every anchoring node of the configuration and has a key that signs for it.
\<close>

definition kit_equipped :: "env \<Rightarrow> config \<Rightarrow> test_kit \<Rightarrow> bool" where
  "kit_equipped E c kit \<longleftrightarrow> (\<forall>k \<in> set (anchoring_keys c). service_key k \<in> set (kit_nodes kit) \<and>
     (\<exists>priv. bmap_get (nodes_key_pool (kit_anchoring_nodes kit)) (bitcoin_key k) = Some priv \<and>
        keypair_signs E (redeem_of E c) (bitcoin_key k) priv))"

lemma find_node_known: "sk \<in> set (kit_nodes kit) \<Longrightarrow> find_node_by_service_key kit sk = Some sk"
proof -
  have "sk \<in> set xs \<Longrightarrow> find (\<lambda>node. node = sk) xs = Some sk" for xs
    by (induction xs) auto
  then show "sk \<in> set (kit_nodes kit) \<Longrightarrow> find_node_by_service_key kit sk = Some sk"
    by (simp add: find_node_by_service_key_def)
qed

lemma node_key:
  assumes "valid_config E c" "sk \<in> service_key ` set (anchoring_keys c)"
  obtains n k where "k \<in> set (anchoring_keys c)" "find_bitcoin_key c sk = Some (n, bitcoin_key k)"
proof -
  have small: "length (anchoring_keys c) \<le> 20" by (rule valid_configD(2) [OF assms(1)])
  have "find_bitcoin_key c sk \<noteq> None"
    using assms(2) by (auto simp: find_bitcoin_key_def find_index_from_None_iff)
  then obtain n pk where f: "find_bitcoin_key c sk = Some (n, pk)" by auto
  then have "unat n < length (anchoring_keys c)" "bitcoin_key (anchoring_keys c ! unat n) = pk"
    by (simp_all only: find_bitcoin_key_Some_iff [OF small])
  with f that nth_mem show thesis by blast
qed

lemma own_key:
  assumes "valid_config E c" "distinct (map service_key (anchoring_keys c))" "k \<in> set (anchoring_keys c)"
  shows "\<exists>n. find_bitcoin_key c (service_key k) = Some (n, bitcoin_key k)"
proof -
  have small: "length (anchoring_keys c) \<le> 20" by (rule valid_configD(2) [OF assms(1)])
  have "find_bitcoin_key c (service_key k) \<noteq> None"
    using assms(3) by (auto simp: find_bitcoin_key_def find_index_from_None_iff)
  then obtain n pk where f: "find_bitcoin_key c (service_key k) = Some (n, pk)" by auto
  then have n: "unat n < length (anchoring_keys c)" "service_key (anchoring_keys c ! unat n) = service_key k"
      "bitcoin_key (anchoring_keys c ! unat n) = pk"
    by (simp_all only: find_bitcoin_key_Some_iff [OF small])
  then have "anchoring_keys c ! unat n = k"
    using assms(2,3) by (metis distinct_map inj_onD nth_mem)
  with f n(3) show ?thesis by blast
qed

lemma signature_tx_for_node:
  assumes "actual_state E (kit_schema kit) = (Ok st :: (_, builder_error) outcome)" "actual_config_of st = c"
    and "valid_config E c" "find_bitcoin_key c sk = Some (n, bk)"
    and "actual_proposed_anchoring_transaction E (kit_core kit) (kit_schema kit) =
      Ok (Some (proposal, inputs))"
    and "bmap_get (nodes_key_pool (kit_anchoring_nodes kit)) bk = Some priv"
    and "sign_messages E (redeem_of E c) priv proposal 0 inputs =
      (Ok msgs :: (_, 'c chain_update_error) outcome)"
  shows "create_signature_tx_for_node E kit sk = Ok (map (Pair sk) msgs)"
  using assms(1,2,4-6) node_signatures_messages [OF assms(7)]
  by (simp add: create_signature_tx_for_node_def nodes_private_key_def valid_config_scripts [OF assms(3)])

lemma kit_tasks:
  assumes "valid_config E c" "kit_equipped E c kit" "a \<in> service_key ` set (anchoring_keys c)"
  shows "\<exists>priv msgs. (\<exists>n pk. find_bitcoin_key c a = Some (n, pk) \<and>
      bmap_get (nodes_key_pool (kit_anchoring_nodes kit)) pk = Some priv \<and>
      keypair_signs E (redeem_of E c) pk priv) \<and>
    sign_messages E (redeem_of E c) priv proposal 0 inputs =
      (Ok msgs :: (_, unit chain_update_error) outcome)"
proof -
  obtain n k where k: "k \<in> set (anchoring_keys c)" "find_bitcoin_key c a = Some (n, bitcoin_key k)"
    by (rule node_key [OF assms(1,3)])
  obtain priv where priv: "bmap_get (nodes_key_pool (kit_anchoring_nodes kit)) (bitcoin_key k) = Some priv"
      "keypair_signs E (redeem_of E c) (bitcoin_key k) priv"
    using assms(2) k(1) by (auto simp: kit_equipped_def)
  with k(2) sign_messages_all [where 'c = unit, OF priv(2), of proposal 0 inputs] show ?thesis by blast
qed

text \<open>What \<open>create_signature_txs\<close> returns: the messages of the signing tasks, node by node.\<close>

lemma kit_signature_txs:
  assumes "schema_inv E (kit_core kit) (kit_schema kit)" "actual_config_entry (kit_schema kit) = Some c"
    and "actual_proposed_anchoring_transaction E (kit_core kit) (kit_schema kit) =
      Ok (Some (proposal, inputs))"
    and "kit_equipped E c kit"
    and task: "\<forall>a \<in> service_key ` set (anchoring_keys c). (\<exists>n pk. find_bitcoin_key c a = Some (n, pk) \<and>
        bmap_get (nodes_key_pool (kit_anchoring_nodes kit)) pk = Some (priv a) \<and>
        keypair_signs E (redeem_of E c) pk (priv a)) \<and>
      sign_messages E (redeem_of E c) (priv a) proposal 0 inputs =
        (Ok (msgs a) :: (_, unit chain_update_error) outcome)"
  shows "create_signature_txs E kit =
    Ok (map (\<lambda>k. map (Pair (service_key k)) (msgs (service_key k))) (anchoring_keys c))"
proof -
  let ?s = "kit_schema kit"
  let ?st = "if in_transition E ?s c then State_Transition c (the (following_config_entry ?s))
    else State_Regular c"
  have v: "valid_config E c" using assms(1,2) by (simp add: schema_inv_def configs_ok_def)
  have "actual_config_of ?st = c" by (simp add: actual_config_of_def)
  then have "create_signature_tx_for_node E kit a = Ok (map (Pair a) (msgs a))"
    if "a \<in> service_key ` set (anchoring_keys c)" for a
    using task that signature_tx_for_node [OF actual_state_eq [OF assms(1,2)] _ v _ assms(3)] by blast
  then show ?thesis
    using assms(4)
    by (simp add: create_signature_txs_def actual_anchoring_config_def actual_config_def assms(2)
        kit_equipped_def find_node_known collect_oc_Ok)
qed

text \<open>
  C19. The transactions of the test kit drive a round: for a test kit that knows the nodes of the
  configuration and holds their keys, with distinct service keys of the nodes, in a reachable state
  with a proposal that nobody has signed, and where no following configuration waits before the
  first anchoring transaction, \<open>create_signature_txs\<close> never panics and returns one list per anchoring node; whatever the order in
  which these transactions are executed, among other signatures and new blocks, the proposal,
  signed, is on the chain afterwards.
\<close>

theorem test_kit_round:
  assumes "crate_laws E" and "reachable E from_bytes (kit_core kit) (kit_schema kit)"
    and "actual_config_entry (kit_schema kit) = Some c"
    and "following_config_entry (kit_schema kit) = None \<or> transactions_chain (kit_schema kit) \<noteq> []"
    and "actual_proposed_anchoring_transaction E (kit_core kit) (kit_schema kit) =
      Ok (Some (proposal, inputs))"
    and "\<forall>i < length inputs. transaction_signatures (kit_schema kit) (input_key E proposal i) = None"
    and "distinct (map service_key (anchoring_keys c))" and "kit_equipped E c kit"
  shows "\<exists>txss. create_signature_txs E kit = (Ok txss :: (_, 'e) outcome) \<and>
    length txss = length (anchoring_keys c) \<and>
    (\<forall>es. (\<forall>e \<in> set es. keeps_proposal e) \<longrightarrow>
       (\<forall>(a, m) \<in> set (concat txss). Ev_Sign_Input a m \<in> set es) \<longrightarrow>
       (\<exists>fin rest. transactions_chain (snd (run_events E es (kit_core kit, kit_schema kit))) =
           transactions_chain (kit_schema kit) @ fin # rest \<and>
         strip_witness fin = strip_witness proposal))"
proof -
  let ?s = "kit_schema kit" and ?core = "kit_core kit"
  let ?A = "service_key ` set (anchoring_keys c)"
  obtain inv: "core_laws ?core" "schema_inv E ?core ?s" and v: "valid_config E c"
    by (rule reachable_stateE [OF assms(1,2)]) (simp add: assms(3))
  obtain priv msgs where task: "\<forall>a \<in> ?A. (\<exists>n pk. find_bitcoin_key c a = Some (n, pk) \<and>
      bmap_get (nodes_key_pool (kit_anchoring_nodes kit)) pk = Some (priv a) \<and>
      keypair_signs E (redeem_of E c) pk (priv a)) \<and>
    sign_messages E (redeem_of E c) (priv a) proposal 0 inputs =
      (Ok (msgs a) :: (_, unit chain_update_error) outcome)"
    using kit_tasks [OF v assms(8), of _ proposal inputs] by metis
  let ?txss = "map (\<lambda>k. map (Pair (service_key k)) (msgs (service_key k))) (anchoring_keys c)"
  have txss: "create_signature_txs E kit = (Ok ?txss :: (_, 'e) outcome)"
    by (rule kit_signature_txs [OF inv(2) assms(3,5,8) task])
  have tasks: "\<forall>a \<in> ?A. \<exists>n pk. find_bitcoin_key c a = Some (n, pk) \<and> keypair_signs E (redeem_of E c) pk (priv a) \<and>
      sign_messages E (redeem_of E c) (priv a) proposal 0 inputs =
        (Ok (msgs a) :: (_, unit chain_update_error) outcome)"
    using task by blast
  have "config_byzantine_quorum E c \<le> card ?A"
    using quorum_bounds(2) [of E c] v assms(1) distinct_card [OF assms(7)] by (simp add: crate_laws_def)
  note quorum = task_quorum [OF assms(1-6) this tasks]
  have "task_events ?A msgs \<subseteq> set es" if "\<forall>(a, m) \<in> set (concat ?txss). Ev_Sign_Input a m \<in> set es" for es
    using that by (auto simp: task_events_def)
  then show ?thesis
    using txss signatures_complete_round [OF assms(1) quorum(1) _ _ quorum(3)] quorum(2)
    by (intro exI [of _ ?txss]) simp
qed

text \<open>The test kit of the two nodes, with its keys drawn one after the other.\<close>

definition duo_kit :: test_kit where
  "duo_kit = \<lparr>kit_nodes = [Service_Key 0, Service_Key 1], kit_core = sample_core, kit_schema = duo_funded,
     kit_anchoring_nodes = fst (nodes_from_keys
       (\<lambda>_ r. ((Btc_Public_Key r, Btc_Private_Key r), Suc r)) Testnet [Service_Key 0, Service_Key 1] 0)\<rparr>"

theorem test_kit_round_witness:
  "\<exists>txss. create_signature_txs (ref_env False) duo_kit = (Ok txss :: (_, unit) outcome) \<and> length txss = 2 \<and>
     (\<exists>fin rest. transactions_chain (snd (run_events (ref_env False)
          (Ev_Block 13 (Hash 99) # rev (map (\<lambda>(a, m). Ev_Sign_Input a m) (concat txss)))
          (sample_core, duo_funded))) =
        fin # rest \<and> strip_witness fin = strip_witness duo_proposal)"
proof -
  have keys: "anchoring_keys (sample_config 2) =
      [\<lparr>service_key = Service_Key 0, bitcoin_key = Btc_Public_Key 0\<rparr>,
       \<lparr>service_key = Service_Key 1, bitcoin_key = Btc_Public_Key 1\<rparr>]"
    by (simp add: sample_config_def upt_rec)
  have kit: "kit_core duo_kit = sample_core" "kit_schema duo_kit = duo_funded"
    by (simp_all add: duo_kit_def)
  have equipped: "kit_equipped (ref_env False) (sample_config 2) duo_kit"
    by (simp add: kit_equipped_def keys duo_kit_def nodes_from_keys_def nodes_add_node_def
        anchoring_nodes_default_def bmap_default_def bmap_get_eq_map_of ref_keypair)
  obtain txss where txss: "create_signature_txs (ref_env False) duo_kit = (Ok txss :: (_, unit) outcome)"
      "length txss = length (anchoring_keys (sample_config 2))"
    and all: "\<forall>es. (\<forall>e \<in> set es. keeps_proposal e) \<longrightarrow>
      (\<forall>(a, m) \<in> set (concat txss). Ev_Sign_Input a m \<in> set es) \<longrightarrow> (\<exists>fin rest.
       transactions_chain (snd (run_events (ref_env False) es (kit_core duo_kit, kit_schema duo_kit))) =
         transactions_chain (kit_schema duo_kit) @ fin # rest \<and>
       strip_witness fin = strip_witness duo_proposal)"
    using test_kit_round [of "ref_env False" "\<lambda>_. Inr (sample_config 2)" duo_kit "sample_config 2"
        duo_proposal "[duo_fund]", where 'e = unit] duo_reachable(2) duo_proposed equipped
    by (auto simp: kit duo_simps keys)
  let ?es = "Ev_Block 13 (Hash 99) # rev (map (\<lambda>(a, m). Ev_Sign_Input a m) (concat txss))"
  have "\<forall>e \<in> set ?es. keeps_proposal e" "\<forall>(a, m) \<in> set (concat txss). Ev_Sign_Input a m \<in> set ?es"
    by (auto split: prod.splits)
  with all have "\<exists>fin rest. transactions_chain (snd (run_events (ref_env False) ?es (sample_core, duo_funded))) =
      fin # rest \<and> strip_witness fin = strip_witness duo_proposal"
    by (simp only: kit duo_simps append_Nil)
  moreover have "length txss = 2" using txss(2) by (simp add: keys)
  ultimately show ?thesis using txss(1) by blast
qed

section \<open>Funding by the test kit\<close>

text \<open>
  With a function of the script of an address that agrees with the one of the multi-signature
  address, the confirmations that the test kit makes fund the service, in every order.
\<close>

lemma test_kit_funds:
  assumes "crate_laws E" "service_inv E (kit_core kit, kit_schema kit)"
    and "actual_config_entry (kit_schema kit) = Some c"
    and "address_script (p2wsh_address E (redeem_of E c) (network c)) = out_script_of E c"
    and tx: "create_fake_funding_transaction E address_script random_data
      (p2wsh_address E (redeem_of E c) (network c)) satoshis = (Ok tx :: (_, 'e) outcome)"
    and "spent_funding_transactions (kit_schema kit) (tx_id E tx) = None"
    and "\<forall>f. unspent_funding_entry (kit_schema kit) = Some f \<longrightarrow> tx_id E f \<noteq> tx_id E tx"
    and "confirmed_by E tx (kit_schema kit) = {}"
    and "distinct (map service_key (anchoring_keys c))" "distinct (map bitcoin_key (anchoring_keys c))"
    and "service_key ` set (anchoring_keys c) \<subseteq> set (kit_nodes kit)"
  shows "\<exists>authors. create_funding_confirmation_txs E address_script random_data kit satoshis =
      (Ok (map (\<lambda>a. (a, \<lparr>af_transaction = tx\<rparr>)) authors, tx) :: (_, 'e) outcome) \<and>
    (\<forall>es. set es = (\<lambda>a. Ev_Add_Funds a \<lparr>af_transaction = tx\<rparr>) ` set authors \<longrightarrow>
      (\<exists>us e ws t. es = us @ e # ws \<and> tx_id E t = tx_id E tx \<and>
        unspent_funding_entry (snd (run_events E (us @ [e]) (kit_core kit, kit_schema kit))) = Some t))"
proof (rule exI [of _ "map service_key (anchoring_keys c)"], intro conjI allI impI)
  let ?authors = "map service_key (anchoring_keys c)" and ?st = "(kit_core kit, kit_schema kit)"
  have inv: "schema_inv E (kit_core kit) (kit_schema kit)" using assms(2) by (simp add: service_inv_def)
  have v: "valid_config E c" using inv assms(3) by (simp add: schema_inv_def configs_ok_def)
  have ql: "quorum_laws E" using assms(1) by (simp add: crate_laws_def)
  show "create_funding_confirmation_txs E address_script random_data kit satoshis =
      (Ok (map (\<lambda>a. (a, \<lparr>af_transaction = tx\<rparr>)) ?authors, tx) :: (_, 'e) outcome)"
    using assms(3,11) tx
    by (simp add: create_funding_confirmation_txs_def create_funding_confirmation_txs_with_def
        actual_anchoring_config_def actual_config_def valid_config_scripts [OF v] find_node_known
        image_subset_iff comp_def collect_oc_Ok [where g = "\<lambda>k. (service_key k, \<lparr>af_transaction = tx\<rparr>)"])
  have key: "confirming_key c (service_key k) = bitcoin_key k" "find_bitcoin_key c (service_key k) \<noteq> None"
    if "k \<in> set (anchoring_keys c)" for k
    using own_key [OF v assms(9) that] by (auto simp: confirming_key_def)
  have "confirming_key c ` set ?authors = bitcoin_key ` set (anchoring_keys c)"
    using key(1) by (simp add: image_image)
  then have card: "config_byzantine_quorum E c \<le> card (confirming_key c ` set ?authors)"
    using quorum_bounds(2) [OF ql v] distinct_card [OF assms(10)] by simp
  have "find_out tx (out_script_of E c) \<noteq> None"
    using tx assms(4)
    by (auto simp: create_fake_funding_transaction_def outcome_simps find_out_def)
  then have "funding_open E c tx ?st"
    using assms(2,3,6-8) quorum_bounds(1) [OF ql v] by (simp add: funding_open_def)
  note complete = confirmations_complete [OF assms(1) this _ _ card]
  fix es assume es: "set es = (\<lambda>a. Ev_Add_Funds a \<lparr>af_transaction = tx\<rparr>) ` set ?authors"
  have config: "actual_config_entry (snd (run_events E (us @ [e]) ?st)) = Some c"
    if "es = us @ e # ws" for us e ws
  proof -
    have "set (us @ [e]) \<subseteq> set es" using that by auto
    then have "\<forall>e \<in> set (us @ [e]). \<exists>a msg. e = Ev_Add_Funds a msg" unfolding es by blast
    from funds_events_config [OF assms(1,2) this] show ?thesis by (simp only: snd_conv assms(3))
  qed
  show "\<exists>us e ws t. es = us @ e # ws \<and> tx_id E t = tx_id E tx \<and>
      unspent_funding_entry (snd (run_events E (us @ [e]) ?st)) = Some t"
    using complete [of es] es key(2) config by fastforce
qed

section \<open>The API client of the test kit\<close>

definition ANCHORING_INSTANCE_NAME :: string where
  "ANCHORING_INSTANCE_NAME = ''btc_anchoring''"

text \<open>
  \<open>client scope instance_name meth endpoint query\<close> is a request with \<open>TestKitApiClient\<close>, for the
  API of the service with this name. Its reply has the type that the caller asks for.
\<close>

type_synonym ('w, 'ip, 'lp) kit_client =
  "api_scope \<Rightarrow> string \<Rightarrow> http_method \<Rightarrow> string \<Rightarrow> api_query \<Rightarrow> 'w \<Rightarrow>
     (api_error option + ('ip, 'lp) api_reply) \<times> 'w"

definition kit_request ::
  "('w, 'ip, 'lp) kit_client \<Rightarrow> api_scope \<Rightarrow> http_method \<Rightarrow> string \<Rightarrow> api_query \<Rightarrow>
     (('ip, 'lp) api_reply \<Rightarrow> 'x option) \<Rightarrow> 'w \<Rightarrow> (api_error option + 'x) \<times> 'w" where
  "kit_request client scope meth endpoint query as w =
     (case client scope ANCHORING_INSTANCE_NAME meth endpoint query w of
        (Inl e, w') \<Rightarrow> (Inl e, w')
      | (Inr reply, w') \<Rightarrow> (case as reply of None \<Rightarrow> Inl None | Some x \<Rightarrow> Inr x, w'))"

definition as_address :: "('ip, 'lp) api_reply \<Rightarrow> address option" where
  "as_address r = (case r of Reply_Address x \<Rightarrow> Some x | _ \<Rightarrow> None)"
definition as_following :: "('ip, 'lp) api_reply \<Rightarrow> address option option" where
  "as_following r = (case r of Reply_Following x \<Rightarrow> Some x | _ \<Rightarrow> None)"
definition as_proof :: "('ip, 'lp) api_reply \<Rightarrow> ('ip, 'lp) transaction_proof option" where
  "as_proof r = (case r of Reply_Proof x \<Rightarrow> Some x | _ \<Rightarrow> None)"
definition as_config :: "('ip, 'lp) api_reply \<Rightarrow> config option" where
  "as_config r = (case r of Reply_Config x \<Rightarrow> Some x | _ \<Rightarrow> None)"
definition as_hash :: "('ip, 'lp) api_reply \<Rightarrow> hash option" where
  "as_hash r = (case r of Reply_Hash x \<Rightarrow> Some x | _ \<Rightarrow> None)"
definition as_proposal :: "('ip, 'lp) api_reply \<Rightarrow> anchoring_proposal_state option" where
  "as_proposal r = (case r of Reply_Proposal x \<Rightarrow> Some x | _ \<Rightarrow> None)"
definition as_transaction :: "('ip, 'lp) api_reply \<Rightarrow> transaction option option" where
  "as_transaction r = (case r of Reply_Transaction x \<Rightarrow> Some x | _ \<Rightarrow> None)"
definition as_count :: "('ip, 'lp) api_reply \<Rightarrow> anchoring_chain_length option" where
  "as_count r = (case r of Reply_Count x \<Rightarrow> Some x | _ \<Rightarrow> None)"

lemmas as_defs = as_address_def as_following_def as_proof_def as_config_def as_hash_def as_proposal_def
  as_transaction_def as_count_def

record ('w, 'ip, 'lp) public_api =
  pub_actual_address :: "'w \<Rightarrow> (api_error option + address) \<times> 'w"
  pub_following_address :: "'w \<Rightarrow> (api_error option + address option) \<times> 'w"
  pub_find_transaction :: "u64 option \<Rightarrow> 'w \<Rightarrow> (api_error option + ('ip, 'lp) transaction_proof) \<times> 'w"
  pub_config :: "'w \<Rightarrow> (api_error option + config) \<times> 'w"

definition test_kit_public_api :: "('w, 'ip, 'lp) kit_client \<Rightarrow> ('w, 'ip, 'lp) public_api" where
  "test_kit_public_api client = \<lparr>
     pub_actual_address = kit_request client Public_Scope Get ''address/actual'' Query_Unit as_address,
     pub_following_address =
       kit_request client Public_Scope Get ''address/following'' Query_Unit as_following,
     pub_find_transaction = (\<lambda>height.
       kit_request client Public_Scope Get ''find-transaction'' (Query_Find \<lparr>query_height = height\<rparr>) as_proof),
     pub_config = kit_request client Public_Scope Get ''config'' Query_Unit as_config\<rparr>"

definition test_kit_private_api ::
  "('w, 'ip, 'lp) kit_client \<Rightarrow> ('w, api_error option) private_api" where
  "test_kit_private_api client = \<lparr>
     pa_sign_input = (\<lambda>msg.
       kit_request client Private_Scope Post ''sign-input'' (Query_Sign_Input msg) as_hash),
     pa_add_funds = (\<lambda>tx.
       kit_request client Private_Scope Post ''add-funds'' (Query_Transaction tx) as_hash),
     pa_anchoring_proposal =
       kit_request client Private_Scope Get ''anchoring-proposal'' Query_Unit as_proposal,
     pa_config = kit_request client Private_Scope Get ''config'' Query_Unit as_config,
     pa_transaction_with_index = (\<lambda>index.
       kit_request client Private_Scope Get ''transaction'' (Query_Index \<lparr>query_index = index\<rparr>)
         as_transaction),
     pa_transactions_count =
       kit_request client Private_Scope Get ''transactions-count'' Query_Unit as_count\<rparr>"

text \<open>The contract of the client: a request runs the handler that is wired under its endpoint.\<close>

locale kit_server =
  fixes E :: env and pf :: "string \<Rightarrow> 'ip option" and gp :: "transaction list \<Rightarrow> nat \<Rightarrow> 'lp"
    and client :: "('n sync_world, 'ip, 'lp) kit_client"
  assumes serve: "client scope ANCHORING_INSTANCE_NAME meth name q w =
      run_handler (wire E pf gp scope meth name) q w"
begin

lemma read_request:
  assumes "\<And>x. as (reply x) = Some x" "wire E pf gp scope meth name = Some h"
    and "h (sw_api w) q = Some (reads reply m)"
  shows "kit_request client scope meth name q as w = (client_result m, w)"
  using assms
  by (cases m) (simp_all add: kit_request_def serve run_handler_def reads_def client_result_def)

lemma send_request:
  assumes "wire E pf gp scope meth name = Some h" "h (sw_api w) q = Some (sends (m, bs))"
  shows "kit_request client scope meth name q as_hash w =
    (client_result m, w\<lparr>sw_broadcast := sw_broadcast w @ bs\<rparr>)"
  using assms
  by (cases m) (simp_all add: kit_request_def serve run_handler_def sends_def client_result_def as_hash_def)

lemma private_answers:
  "pa_sign_input (test_kit_private_api client) msg w = pa_sign_input (node_client E) msg w"
  "pa_add_funds (test_kit_private_api client) tx w = pa_add_funds (node_client E) tx w"
  "pa_anchoring_proposal (test_kit_private_api client) w = pa_anchoring_proposal (node_client E) w"
  "pa_config (test_kit_private_api client) w = pa_config (node_client E) w"
  "pa_transaction_with_index (test_kit_private_api client) i w = pa_transaction_with_index (node_client E) i w"
  "pa_transactions_count (test_kit_private_api client) w = pa_transactions_count (node_client E) w"
  by (cases "api_sign_input E (sw_api w) msg"; cases "api_add_funds E (sw_api w) tx";
      simp add: test_kit_private_api_def node_client_def wire_def as_defs send_request
      read_request [where reply = Reply_Proposal] read_request [where reply = Reply_Config]
      read_request [where reply = Reply_Transaction] read_request [where reply = Reply_Count])+

lemma private_is_node_client: "test_kit_private_api client = node_client E"
  by (rule private_api.equality) (simp_all add: fun_eq_iff private_answers)

lemma public_answers:
  "pub_actual_address (test_kit_public_api client) w = (client_result (api_actual_address E (sw_api w)), w)"
  "pub_following_address (test_kit_public_api client) w =
     (client_result (api_following_address E (sw_api w)), w)"
  "pub_find_transaction (test_kit_public_api client) height w =
     (client_result (find_transaction E pf gp (sw_api w) height), w)"
  "pub_config (test_kit_public_api client) w = (client_result (api_config (sw_api w)), w)"
  by (simp_all add: test_kit_public_api_def wire_def as_defs read_request [where reply = Reply_Address]
      read_request [where reply = Reply_Following] read_request [where reply = Reply_Proof]
      read_request [where reply = Reply_Config])

end

text \<open>A test kit that runs the handlers itself is such a client.\<close>

definition direct_client ::
  "env \<Rightarrow> (string \<Rightarrow> 'ip option) \<Rightarrow> (transaction list \<Rightarrow> nat \<Rightarrow> 'lp) \<Rightarrow> ('n sync_world, 'ip, 'lp) kit_client" where
  "direct_client E pf gp = (\<lambda>scope _ meth name q w. run_handler (wire E pf gp scope meth name) q w)"

interpretation direct: kit_server E pf gp "direct_client E pf gp" for E pf gp
  by unfold_locales (simp add: direct_client_def)

section \<open>Validating a proof\<close>

text \<open>
  \<open>verify\<close> is the check of the proof of the index against the keys of the validators, \<open>check\<close> the
  check of the list proof, which returns its entries.
\<close>

definition validate_proof ::
  "('ip \<Rightarrow> service_key list \<Rightarrow> lib_error + unit) \<Rightarrow> ('lp \<Rightarrow> lib_error + (u64 \<times> transaction) list) \<Rightarrow>
     ('ip, 'lp) transaction_proof \<Rightarrow> service_key list \<Rightarrow> ((u64 \<times> transaction) option, lib_error) outcome" where
  "validate_proof verify check proof validator_keys =
     bind_oc (of_sum (verify (index_proof proof) validator_keys)) (\<lambda>_.
     bind_oc (of_sum (check (list_proof proof))) (\<lambda>entries.
     Ok (get_nth entries 0)))"

end
