(* ===== verification/Anchoring_Network.thy ===== *)
theory Anchoring_Network
  imports Anchoring_Round Sync_Utility Btc_Types
begin

text \<open>
  The whole path of a block into the Bitcoin blockchain, across the components: the utilities of the
  nodes sign the proposal through the private API of their nodes, the transactions that the API
  broadcasts are executed by the service, the service puts the signed proposal onto its chain, the
  utility of some node sends the chain to the Bitcoin network, and the payload extractor reads the
  block back from what the network knows.
\<close>

section \<open>The nodes and what they send\<close>

text \<open>
  All nodes hold the same state of the service. The private API of a node answers from this state,
  and what it broadcasts is executed as a transaction of the node.
\<close>

definition node_world :: "broadcaster_fn \<Rightarrow> service_state \<Rightarrow> service_key \<Rightarrow> unit sync_world" where
  "node_world b st a = \<lparr>sw_api = \<lparr>api_schema = snd st, api_core = fst st, api_service_key = a,
     api_broadcaster = Some b\<rparr>, sw_broadcast = [], sw_net = ()\<rparr>"

fun broadcast_event :: "service_key \<Rightarrow> broadcast_tx \<Rightarrow> service_event" where
  "broadcast_event a (Broadcast_Sign_Input msg) = Ev_Sign_Input a msg"
| "broadcast_event a (Broadcast_Add_Funds msg) = Ev_Add_Funds a msg"

definition node_transactions ::
  "env \<Rightarrow> broadcaster_fn \<Rightarrow> service_state \<Rightarrow> (btc_public_key \<times> btc_private_key) list \<Rightarrow>
     service_key \<Rightarrow> service_event list" where
  "node_transactions E b st keys a = map (broadcast_event a) (sw_broadcast
     (snd (chain_update_process E (chain_update_new keys (node_client E)) (node_world b st a))))"

lemma node_world_simps [simp]:
  "api_schema (sw_api (node_world b st a)) = snd st" "api_core (sw_api (node_world b st a)) = fst st"
  "api_service_key (sw_api (node_world b st a)) = a" "api_broadcaster (sw_api (node_world b st a)) = Some b"
  "sw_broadcast (node_world b st a) = []"
  by (simp_all add: node_world_def)

lemma node_transactions_eq:
  assumes "crate_laws E" "reachable E from_bytes core s" "actual_config_entry s = Some c"
    and "find_bitcoin_key c a = Some (n, pk)" "keypair_signs E (redeem_of E c) pk sk"
    and "\<forall>tx. \<exists>h. b tx = Inr h"
    and "actual_proposed_anchoring_transaction E core s = Ok (Some (proposal, inputs))"
  shows "\<exists>msgs. sign_messages E (redeem_of E c) sk proposal 0 inputs =
      (Ok msgs :: (_, api_error option chain_update_error) outcome) \<and>
    node_transactions E b (core, s) [(pk, sk)] a = map (Ev_Sign_Input a) msgs"
  by (rule chain_update_messages [of E from_bytes "node_world b (core, s) a" c n pk sk b proposal inputs])
    (use assms in \<open>simp_all add: node_transactions_def\<close>)

section \<open>From the signatures to the chain\<close>

text \<open>The nodes that sign with their keys bring the proposal onto the chain.\<close>

lemma utilities_complete_round:
  assumes "crate_laws E" "reachable E from_bytes core s" "actual_config_entry s = Some c"
    and "following_config_entry s = None \<or> transactions_chain s \<noteq> []"
    and "actual_proposed_anchoring_transaction E core s = Ok (Some (proposal, inputs))"
    and "\<forall>i < length inputs. transaction_signatures s (input_key E proposal i) = None"
    and "config_byzantine_quorum E c \<le> card A"
    and keys: "\<forall>a \<in> A. \<exists>n. find_bitcoin_key c a = Some (n, pk a) \<and>
      keypair_signs E (redeem_of E c) (pk a) (sk a)"
    and "\<forall>tx. \<exists>h. b tx = Inr h"
    and sent: "\<forall>a \<in> A. set (node_transactions E b (core, s) [(pk a, sk a)] a) \<subseteq> set es"
    and "\<forall>e \<in> set es. keeps_proposal e"
  shows "\<exists>fin rest. transactions_chain (snd (run_events E es (core, s))) = transactions_chain s @ fin # rest \<and>
    strip_witness fin = strip_witness proposal"
proof -
  have "\<exists>msgs. sign_messages E (redeem_of E c) (sk a) proposal 0 inputs =
      (Ok msgs :: (_, api_error option chain_update_error) outcome) \<and>
    node_transactions E b (core, s) [(pk a, sk a)] a = map (Ev_Sign_Input a) msgs" if "a \<in> A" for a
    using keys that node_transactions_eq [OF assms(1-3) _ _ assms(9,5)] by blast
  then obtain msgs where msgs: "\<forall>a \<in> A. sign_messages E (redeem_of E c) (sk a) proposal 0 inputs =
        (Ok (msgs a) :: (_, api_error option chain_update_error) outcome) \<and>
      node_transactions E b (core, s) [(pk a, sk a)] a = map (Ev_Sign_Input a) (msgs a)"
    by metis
  then have tasks: "\<forall>a \<in> A. \<exists>n pk. find_bitcoin_key c a = Some (n, pk) \<and>
      keypair_signs E (redeem_of E c) pk (sk a) \<and>
      sign_messages E (redeem_of E c) (sk a) proposal 0 inputs =
        (Ok (msgs a) :: (_, api_error option chain_update_error) outcome)"
    using keys by blast
  note quorum = task_quorum [OF assms(1-7) tasks]
  have "task_events A msgs \<subseteq> set es" using msgs sent by (fastforce simp: task_events_def)
  then show ?thesis
    using signatures_complete_round [OF assms(1) quorum(1) _ quorum(2,3) assms(11)] by blast
qed

section \<open>What is read back\<close>

lemma extract_payload_eq:
  assumes "hash_laws E" "wire_laws W" "tx_deserialize W (consensus_serialize E tx) = Inr tx"
    and "tx_payload E tx = Some p"
  shows "extract_payload E W (transaction_to_string E W tx) = Ok p"
  using values_read_back(11) [OF assms(2,1,3)] assms(4)
  by (simp add: transaction_from_str_def extract_payload_def anchoring_payload_eq [OF assms(1)])

lemma anchors_block_payload:
  assumes "anchors_block E core tx"
  obtains p where "tx_payload E tx = Some p" "core (block_height p) = Some (block_hash p)"
  using assms by (auto simp: anchors_block_def anchored_def tx_metadata_def)

lemma proposal_anchors_block:
  assumes "crate_laws E" "reachable E from_bytes core s"
    and "actual_proposed_anchoring_transaction E core s = Ok (Some (tx, inputs))"
  shows "anchors_block E core tx"
proof -
  obtain c where "core_laws core" "schema_inv E core s" "actual_config_entry s = Some c"
    by (rule reachable_stateE [OF assms(1,2)])
  from proposal_is_proposal_tx(1) [OF assms(1) this assms(3)] show ?thesis by (simp add: proposal_tx_def)
qed

lemma tx_payload_strip_witness:
  assumes "strip_witness a = strip_witness b"
  shows "tx_payload E a = tx_payload E b"
  using strip_witness_eqD(1) [OF assms] by (simp add: tx_payload_def anchoring_payload_def)

section \<open>End to end\<close>

text \<open>
  C4. A proposed block gets into the Bitcoin blockchain: let the service have a proposal that nobody
  has signed, with no following configuration waiting before the first anchoring transaction, and
  let the events contain what the utilities of a quorum of nodes, run with their keys against the
  private API of their nodes, whose broadcasts succeed, broadcast for it, in any order and among any other
  signatures and new blocks. Let a utility then run against a node in the state after these events,
  for at least as many rounds as the chain of the node has transactions (fewer than 2^64), where the
  relay answers every request, delivers what it is sent and forgets nothing, the Bitcoin network knows
  a transaction of the chain only together with its predecessors, the funding transaction of the
  first one is confirmed, the node takes only steps of the service, and only during the pauses, which
  leave the chain as it is, and the transactions of the chain are read back from their serialisation.
  Then, unless a key of this utility fails to sign, the Bitcoin network knows a transaction from
  whose hexadecimal form the payload extractor reads the payload of the proposal, which is a block of
  the blockchain.
\<close>

theorem anchored_on_bitcoin:
  assumes "crate_laws E" and "wire_laws W" and "reachable E from_bytes core s"
    and "actual_config_entry s = Some c"
    and "following_config_entry s = None \<or> transactions_chain s \<noteq> []"
    and "actual_proposed_anchoring_transaction E core s = Ok (Some (proposal, inputs))"
    and "\<forall>i < length inputs. transaction_signatures s (input_key E proposal i) = None"
    and "config_byzantine_quorum E c \<le> card A"
    and "\<forall>a \<in> A. \<exists>n. find_bitcoin_key c a = Some (n, pk a) \<and>
      keypair_signs E (redeem_of E c) (pk a) (sk a)"
    and "\<forall>tx. \<exists>h. b tx = Inr h"
    and "\<forall>a \<in> A. set (node_transactions E b (core, s) [(pk a, sk a)] a) \<subseteq> set es"
    and "\<forall>e \<in> set es. keeps_proposal e"
    and "node_state w = run_events E es (core, s)"
    and "length (node_chain w) < 2 ^ 64" and "length (node_chain w) \<le> n"
    and "\<And>txid v. relay_transaction_status relay txid v = (Inr (status v txid), v)"
    and "\<And>tx v. sw_api (snd (send_transaction relay tx v)) = sw_api v"
    and "\<And>v. (service_step E)\<^sup>*\<^sup>* (node_state v) (node_state (delay v))"
    and "\<And>v. node_chain (delay v) = node_chain v"
    and "\<And>tx v. \<exists>txid. fst (send_transaction relay tx v) = Inr txid"
    and "\<And>tx v. is_known (status (snd (send_transaction relay tx v)) (tx_id E tx))"
    and "\<And>tx v txid. is_known (status v txid) \<Longrightarrow>
      is_known (status (snd (send_transaction relay tx v)) txid)"
    and "\<And>v txid. is_known (status v txid) \<Longrightarrow> is_known (status (delay v) txid)"
    and "\<And>v bs. status (v\<lparr>sw_broadcast := bs\<rparr>) = status v"
    and "confirmations (status w (funding_txid (node_chain w))) \<noteq> None"
    and "\<And>i j. i \<le> j \<Longrightarrow> j < length (node_chain w) \<Longrightarrow> is_known (status w (tx_id E (node_chain w ! j))) \<Longrightarrow>
      is_known (status w (tx_id E (node_chain w ! i)))"
    and "\<And>tx. tx \<in> set (node_chain w) \<Longrightarrow> tx_deserialize W (consensus_serialize E tx) = Inr tx"
  shows "\<exists>p r w'. anchoring_payload E proposal = (Ok (Some p) :: (_, 'e) outcome) \<and>
    core (block_height p) = Some (block_hash p) \<and>
    run_rounds E (chain_update_new keys (node_client E))
      (Some (sync_new relay (node_client E))) delay n None w = (r, w') \<and>
    ((\<exists>e. r = Err (Run_Chain_Internal (Signing_Failed e))) \<or>
     (\<exists>tx \<in> set (node_chain w'). is_known (status w' (tx_id E tx)) \<and>
        extract_payload E W (transaction_to_string E W tx) = Ok p))"
proof -
  have hl: "hash_laws E" using assms(1) by (simp add: crate_laws_def)
  have world: "delivering_world relay status E delay"
    by unfold_locales (use assms in auto)
  have "node_ok E from_bytes w"
    using reachable_run_events [OF assms(1,3), of es, folded assms(13)] assms(14)
    by (simp add: node_ok_def node_state_def)
  moreover have "\<forall>i j. i \<le> j \<longrightarrow> j < length (node_chain w) \<longrightarrow>
      is_known (status w (tx_id E (node_chain w ! j))) \<longrightarrow> is_known (status w (tx_id E (node_chain w ! i)))"
    using assms(26) by blast
  ultimately obtain r w' where run: "run_rounds E (chain_update_new keys (node_client E))
      (Some (sync_new relay (node_client E))) delay n None w = (r, w')"
    and ends: "(\<exists>e. r = Err (Run_Chain_Internal (Signing_Failed e))) \<or> node_chain w' = node_chain w \<and>
       (\<forall>tx \<in> set (node_chain w). is_known (status w' (tx_id E tx)))"
    using delivering_world.run_rounds_drain [OF world _ assms(25,15)] by blast
  obtain fin rest where "node_chain w = transactions_chain s @ fin # rest"
    and strip: "strip_witness fin = strip_witness proposal"
    using utilities_complete_round [OF assms(1,3-12), folded assms(13)]
    unfolding node_state_def node_chain_def snd_conv by blast
  then have fin: "fin \<in> set (node_chain w)" by simp
  obtain p where p: "tx_payload E proposal = Some p" "core (block_height p) = Some (block_hash p)"
    by (rule anchors_block_payload [OF proposal_anchors_block [OF assms(1,3,6)]])
  have "extract_payload E W (transaction_to_string E W fin) = Ok p"
    using extract_payload_eq [OF hl assms(2) assms(27) [OF fin]] p(1)
    by (simp add: tx_payload_strip_witness [OF strip])
  with fin ends have "(\<exists>e. r = Err (Run_Chain_Internal (Signing_Failed e))) \<or>
     (\<exists>tx \<in> set (node_chain w'). is_known (status w' (tx_id E tx)) \<and>
        extract_payload E W (transaction_to_string E W tx) = Ok p)" by auto
  with p run show ?thesis by (simp add: anchoring_payload_eq [OF hl])
qed

text \<open>
  In the witness the single node of a network signs its first proposal, the blockchain grows, and the
  network knows only the funding transaction.
\<close>

lemma sample_node_transactions:
  "node_transactions (ref_env False) (\<lambda>_. Inr (Hash 1)) (sample_core, sample_funded)
     [(Btc_Public_Key 0, Btc_Private_Key 0)] (Service_Key 0) =
   [Ev_Sign_Input (Service_Key 0) (solo_msg sample_proposal)]"
  using node_transactions_eq [OF ref_crate_laws sample_run(2) sample_funded_simps(1) sample_key ref_keypair _
      sample_proposed, of "\<lambda>_. Inr (Hash 1)"]
  by (auto simp: ref_sign_input_with_def solo_msg_def)

definition anchored_events :: "service_event list" where
  "anchored_events = [Ev_Sign_Input (Service_Key 0) (solo_msg sample_proposal), Ev_Block 13 (Hash 99)]"

definition anchored_world :: "(sha256d \<Rightarrow> u32 option option) sync_world" where
  "anchored_world = (sample_world sample_anchored)\<lparr>sw_api := (sw_api (sample_world sample_anchored))
     \<lparr>api_core := sample_core(13 \<mapsto> Hash 99)\<rparr>, sw_net := [Sha256d 161761 \<mapsto> Some 3]\<rparr>"

lemma anchored_world_state:
  "node_state anchored_world = run_events (ref_env False) anchored_events (sample_core, sample_funded)"
proof -
  have "sign_input (ref_env False) (node_context sample_core (Service_Key 0)) sample_funded
      (solo_msg sample_proposal) = Ok sample_anchored"
    using sample_sign by (simp add: sign_input_def sample_ctx_def node_context_def)
  then show ?thesis
    by (simp add: anchored_world_def anchored_events_def node_state_def sample_core_def)
qed

lemma sample_final_read_back:
  "tx_deserialize sample_wire (consensus_serialize (ref_env False) sample_final_tx) = Inr sample_final_tx"
proof -
  have "tx_fits sample_final_tx"
    by (simp add: tx_fits_def sample_final_tx_def solo_final_def sample_proposal_def solo_tx_def draft_tx_def
        unsigned_tx_def sample_sources solo_output sample_funded_simps funding_txin_def ref_spend_input_def
        ref_signature_def length_payload_bytes ref_op_return_script_def out_script_of_def sample_redeem
        ref_to_v0_p2wsh_def)
  then show ?thesis by (simp add: sample_wire_def decode_encode_tx)
qed

theorem anchored_on_bitcoin_witness:
  "\<exists>p r w'. anchoring_payload (ref_env False) sample_proposal = (Ok (Some p) :: (_, unit) outcome) \<and>
    sample_core (block_height p) = Some (block_hash p) \<and>
    run_rounds (ref_env False) (chain_update_new [] (node_client (ref_env False)))
      (Some (sync_new open_relay (node_client (ref_env False)))) (\<lambda>w. w) 1 None anchored_world = (r, w') \<and>
    ((\<exists>e. r = Err (Run_Chain_Internal (Signing_Failed e))) \<or>
     (\<exists>tx \<in> set (node_chain w'). is_known (status_of_seen sw_net w' (tx_id (ref_env False) tx)) \<and>
        extract_payload (ref_env False) sample_wire (transaction_to_string (ref_env False) sample_wire tx) =
          Ok p))"
proof (rule anchored_on_bitcoin [OF ref_crate_laws sample_wire_laws sample_run(2) sample_funded_simps(1) _
      sample_proposed, where A = "{Service_Key 0}" and pk = "\<lambda>_. Btc_Public_Key 0"
      and sk = "\<lambda>_. Btc_Private_Key 0" and b = "\<lambda>_. Inr (Hash 1)" and es = anchored_events])
  have chain: "node_chain anchored_world = [sample_final_tx]"
    by (simp add: anchored_world_def node_chain_def sample_anchored_simps)
  have funding: "funding_txid [sample_final_tx] = Sha256d 161761"
    by (simp add: funding_txid_def sample_final_tx_def solo_final_def ref_spend_input_def
        sample_proposal_def solo_tx_def sample_sources funding_txin_def sample_txids(3) [symmetric] tx_id_def)
  show "length (node_chain anchored_world) < 2 ^ 64" "length (node_chain anchored_world) \<le> 1"
    by (simp_all add: chain)
  show "confirmations (status_of_seen sw_net anchored_world (funding_txid (node_chain anchored_world))) \<noteq> None"
    unfolding chain funding by (simp add: anchored_world_def status_of_seen_def confirmations_def)
  show "tx_deserialize sample_wire (consensus_serialize (ref_env False) tx) = Inr tx"
    if "tx \<in> set (node_chain anchored_world)" for tx
    using that sample_final_read_back by (simp add: chain)
  show "is_known (status_of_seen sw_net anchored_world (tx_id (ref_env False) (node_chain anchored_world ! i)))"
    if "i \<le> j" "j < length (node_chain anchored_world)"
      "is_known (status_of_seen sw_net anchored_world (tx_id (ref_env False) (node_chain anchored_world ! j)))"
    for i j
    using that by (simp add: chain)
  show "node_state anchored_world = run_events (ref_env False) anchored_events (sample_core, sample_funded)"
    by (rule anchored_world_state)
qed (use sample_key ref_keypair in \<open>simp_all add: sample_funded_simps sample_quorum sample_node_transactions
    anchored_events_def open_relay_def status_of_seen_def is_known_def fun_eq_iff\<close>)

end
