(* ===== verification/Sync_Tests.thy ===== *)
theory Sync_Tests
  imports Test_Kit Anchoring_Network
begin

text \<open>
  The tests of the synchronisation tasks, \<open>tests/sync.rs\<close>, and the proof that the model passes them. The
  tests run against a relay with a script: every request has to be the next one of the script, and
  none may be left at the end. So they fix which requests the tasks make, and in which order. Where a
  test only looks at the shape of the chain, the model passes it in every reachable state of this
  shape, not only in the state that the test prepares.
\<close>

section \<open>FakeBitcoinRelay\<close>

datatype fake_relay_request =
    Expect_Send transaction sha256d \<comment> \<open>request, response\<close>
  | Expect_Status sha256d transaction_status

text \<open>A panic inside of the relay ends the test, so it is recorded in the world.\<close>

record fake_relay =
  fake_requests :: "fake_relay_request list"
  fake_panicked :: bool

abbreviation relay_panics :: "fake_relay sync_world \<Rightarrow> (lib_error + 'a) \<times> fake_relay sync_world" where
  "relay_panics w \<equiv> (Inl (Lib_Error ''panic''), w\<lparr>sw_net := (sw_net w)\<lparr>fake_panicked := True\<rparr>\<rparr>)"

definition enqueue_requests ::
  "fake_relay_request list \<Rightarrow> fake_relay sync_world \<Rightarrow> fake_relay sync_world" where
  "enqueue_requests requests w =
     w\<lparr>sw_net := (sw_net w)\<lparr>fake_requests := fake_requests (sw_net w) @ requests\<rparr>\<rparr>"

definition dequeue_request ::
  "(fake_relay_request \<Rightarrow> 'a option) \<Rightarrow> fake_relay sync_world \<Rightarrow> (lib_error + 'a) \<times> fake_relay sync_world" where
  "dequeue_request answer w =
     (case fake_requests (sw_net w) of
        [] \<Rightarrow> relay_panics w
      | request # rest \<Rightarrow>
          (case answer request of
             None \<Rightarrow> relay_panics w
           | Some response \<Rightarrow> (Inr response, w\<lparr>sw_net := (sw_net w)\<lparr>fake_requests := rest\<rparr>\<rparr>)))"

definition fake_bitcoin_relay :: "(fake_relay sync_world, lib_error) bitcoin_relay" where
  "fake_bitcoin_relay = \<lparr>
     send_transaction = (\<lambda>transaction. dequeue_request (\<lambda>request. case request of
        Expect_Send expected_request response \<Rightarrow>
          if expected_request = transaction then Some response else None
      | _ \<Rightarrow> None)),
     relay_transaction_status = (\<lambda>txid. dequeue_request (\<lambda>request. case request of
        Expect_Status expected_request response \<Rightarrow>
          if expected_request = txid then Some response else None
      | _ \<Rightarrow> None))\<rparr>"

text \<open>The check when the relay is dropped.\<close>

definition all_handled :: "fake_relay sync_world \<Rightarrow> bool" where
  "all_handled w \<longleftrightarrow> fake_requests (sw_net w) = [] \<and> \<not> fake_panicked (sw_net w)"

section \<open>SyncWithBitcoinTask\<close>

text \<open>Each test gets the client of the test kit and the node it prepared.\<close>

definition sync_with_bitcoin_normal ::
  "env \<Rightarrow> (fake_relay sync_world, api_error option) private_api \<Rightarrow> fake_relay sync_world \<Rightarrow> bool" where
  "sync_with_bitcoin_normal E client w =
     (case node_chain w of
        [tx0, tx1] \<Rightarrow>
          (case prev_tx_id tx0 :: (sha256d, unit) outcome of
             Ok funding_id \<Rightarrow>
               let sync = sync_new fake_bitcoin_relay client;
                 (first, w) = sync_process E sync None (enqueue_requests
                   [Expect_Status (tx_id E tx1) Unknown, Expect_Status (tx_id E tx0) Unknown,
                    Expect_Status funding_id (Committed 10), Expect_Send tx0 (tx_id E tx0)] w);
                 (second, w) = sync_process E sync (Some 1) (enqueue_requests
                   [Expect_Status (tx_id E tx1) Unknown, Expect_Send tx1 (tx_id E tx1)] w);
                 (third, w) = sync_process E sync (Some 1) (enqueue_requests
                   [Expect_Status (tx_id E tx1) Mempool] w) in
               first = Ok (Some 0) \<and> second = Ok (Some 1) \<and> third = Ok (Some 1) \<and> all_handled w
           | _ \<Rightarrow> False)
      | _ \<Rightarrow> False)"

definition sync_with_bitcoin_empty_chain ::
  "env \<Rightarrow> (fake_relay sync_world, api_error option) private_api \<Rightarrow> fake_relay sync_world \<Rightarrow> bool" where
  "sync_with_bitcoin_empty_chain E client w =
     (case sync_process E (sync_new fake_bitcoin_relay client) None w of
        (r, w') \<Rightarrow> r = Ok None \<and> all_handled w')"

definition sync_with_bitcoin_err_unconfirmed_funding_tx ::
  "env \<Rightarrow> (fake_relay sync_world, api_error option) private_api \<Rightarrow> fake_relay sync_world \<Rightarrow> bool" where
  "sync_with_bitcoin_err_unconfirmed_funding_tx E client w =
     (case node_chain w of
        [tx0] \<Rightarrow>
          (case prev_tx_id tx0 :: (sha256d, unit) outcome of
             Ok funding_id \<Rightarrow>
               (case sync_process E (sync_new fake_bitcoin_relay client) None (enqueue_requests
                   [Expect_Status (tx_id E tx0) Unknown, Expect_Status funding_id Unknown] w) of
                  (r, w') \<Rightarrow> r = Err (Sync_UnconfirmedFundingTransaction funding_id) \<and> all_handled w')
           | _ \<Rightarrow> False)
      | _ \<Rightarrow> False)"

text \<open>The calls of a task through the contract of a client, answered by the script.\<close>

lemma fake_answers:
  "fake_requests (sw_net w) = Expect_Status txid st # rest \<Longrightarrow>
     relay_transaction_status fake_bitcoin_relay txid w =
       (Inr st, w\<lparr>sw_net := (sw_net w)\<lparr>fake_requests := rest\<rparr>\<rparr>)"
  "fake_requests (sw_net w) = Expect_Send tx txid # rest \<Longrightarrow>
     send_transaction fake_bitcoin_relay tx w =
       (Inr txid, w\<lparr>sw_net := (sw_net w)\<lparr>fake_requests := rest\<rparr>\<rparr>)"
  by (simp_all add: fake_bitcoin_relay_def dequeue_request_def)

lemma node_chain_net [simp]: "node_chain (w\<lparr>sw_net := n\<rparr>) = node_chain w"
  by (simp add: node_chain_def)

lemmas scripted_run = sync_process_def choose_transaction_def find_first_uncommitted_transaction_def
  get_transaction_def sync_transaction_status_def sync_new_def io_simps fake_answers
  node.count_answer node.index_answer get_nth_def enqueue_requests_def add_u64_def sub_u64_def
  is_known_def confirmations_def all_handled_def

text \<open>The model passes the tests with every client of a test kit that runs the handlers.\<close>

lemma sync_tests_pass:
  assumes "kit_server E pf gp client"
    and "crate_laws E" "reachable E from_bytes (api_core (sw_api w)) (api_schema (sw_api w))"
    and "all_handled w"
  shows "length (node_chain w) = 2 \<Longrightarrow> sync_with_bitcoin_normal E (test_kit_private_api client) w"
    "node_chain w = [] \<Longrightarrow> sync_with_bitcoin_empty_chain E (test_kit_private_api client) w"
    "length (node_chain w) = 1 \<Longrightarrow>
       sync_with_bitcoin_err_unconfirmed_funding_tx E (test_kit_private_api client) w"
  unfolding kit_server.private_is_node_client [OF assms(1)]
proof -
  have linked: "linked E (node_chain w)" if "length (node_chain w) < 2 ^ 64"
    using reachable_linked [OF assms(2,3)] that by (simp add: node_chain_def)
  show "sync_with_bitcoin_empty_chain E (node_client E) w" if "node_chain w = []"
    using that assms(4) by (simp add: sync_with_bitcoin_empty_chain_def scripted_run)
  show "sync_with_bitcoin_err_unconfirmed_funding_tx E (node_client E) w" if "length (node_chain w) = 1"
  proof -
    obtain tx0 where chain: "node_chain w = [tx0]" using \<open>length (node_chain w) = 1\<close> by (auto simp: length_Suc_conv)
    have funding: "prev_tx_id tx0 = Ok (funding_txid [tx0])"
      using linked_prev(2) [OF linked] by (simp add: chain)
    show ?thesis
      using assms(4)
      by (simp add: sync_with_bitcoin_err_unconfirmed_funding_tx_def chain funding scripted_run)
  qed
  show "sync_with_bitcoin_normal E (node_client E) w" if "length (node_chain w) = 2"
  proof -
    obtain tx0 tx1 where chain: "node_chain w = [tx0, tx1]"
      using \<open>length (node_chain w) = 2\<close> by (auto simp: length_Suc_conv numeral_2_eq_2)
    have funding: "prev_tx_id tx0 = Ok (funding_txid [tx0, tx1])"
      using linked_prev(2) [OF linked] by (simp add: chain)
    have prev: "prev_tx_id tx1 = Ok (tx_id E tx0)"
      using linked_prev(1) [OF linked, of 0] by (simp add: chain)
    let ?sync = "sync_new fake_bitcoin_relay (node_client E)"
    have first: "sync_process E ?sync None (enqueue_requests
        [Expect_Status (tx_id E tx1) Unknown, Expect_Status (tx_id E tx0) Unknown,
         Expect_Status (funding_txid [tx0, tx1]) (Committed 10), Expect_Send tx0 (tx_id E tx0)] w) =
        (Ok (Some 0), w)"
      using assms(4) chain by (simp add: scripted_run funding prev numeral_2_eq_2)
    have second: "sync_process E ?sync (Some 1) (enqueue_requests
        [Expect_Status (tx_id E tx1) Unknown, Expect_Send tx1 (tx_id E tx1)] w) = (Ok (Some 1), w)"
      using assms(4) chain by (simp add: scripted_run)
    have third: "sync_process E ?sync (Some 1) (enqueue_requests
        [Expect_Status (tx_id E tx1) Mempool] w) = (Ok (Some 1), w)"
      using assms(4) chain by (simp add: scripted_run)
    show ?thesis
      using assms(4) by (simp add: sync_with_bitcoin_normal_def chain funding first second third)
  qed
qed

section \<open>AnchoringChainUpdateTask\<close>

definition chain_updater_no_initial_funds ::
  "env \<Rightarrow> (btc_public_key \<times> btc_private_key) list \<Rightarrow> ('w, api_error option) private_api \<Rightarrow> 'w \<Rightarrow> bool" where
  "chain_updater_no_initial_funds E keypairs client w =
     (case fst (chain_update_process E (chain_update_new keypairs client) w) of
        Err Chain_NoInitialFunds \<Rightarrow> True
      | _ \<Rightarrow> False)"

definition chain_updater_insufficient_funds ::
  "env \<Rightarrow> (btc_public_key \<times> btc_private_key) list \<Rightarrow> ('w, api_error option) private_api \<Rightarrow> 'w \<Rightarrow> bool" where
  "chain_updater_insufficient_funds E keypairs client w =
     (case fst (chain_update_process E (chain_update_new keypairs client) w) of
        Err (Chain_InsufficientFunds total_fee balance) \<Rightarrow> balance = 200 \<and> total_fee = 1530
      | _ \<Rightarrow> False)"

text \<open>Without an anchoring and a funding transaction there is nothing to spend, in either build.\<close>

lemma proposal_no_inputs:
  assumes "crate_laws E" "core_laws core" "schema_inv E core s" "actual_config_entry s = Some c"
    and "transactions_chain s = []" "unspent_funding_entry s = None"
  shows "actual_proposed_anchoring_transaction E core s = Err Builder_NoInputs"
proof -
  obtain hash where hash: "core (proposal_height E s c) = Some hash"
    using assms(2,5) by (auto simp: proposal_height_def core_laws_def)
  let ?b = "proposal_builder E s c (proposal_height E s c) hash"
  have "builder_payload ?b = Some (proposal_height E s c, hash)" "builder_fee ?b = Some (transaction_fee c)"
    by (simp_all add: proposal_builder_def)
  then have "create E ?b = Err Builder_NoInputs"
    using assms(5,6) by (simp add: create_eq [OF assms(1) _ _ refl] proposal_builder_sources)
  then show ?thesis
    using hash assms(5) by (simp add: actual_proposed_eq [OF assms(1-4)] transition_stuck_def)
qed

lemma no_initial_funds_passes:
  assumes "kit_server E pf gp client" and "crate_laws E" "reachable E from_bytes (api_core (sw_api w)) (api_schema (sw_api w))"
    and "node_chain w = []" "unspent_funding_entry (api_schema (sw_api w)) = None"
  shows "chain_updater_no_initial_funds E keypairs (test_kit_private_api client) w"
proof -
  obtain c where "core_laws (api_core (sw_api w))" "schema_inv E (api_core (sw_api w)) (api_schema (sw_api w))"
    "actual_config_entry (api_schema (sw_api w)) = Some c"
    by (rule reachable_stateE [OF assms(2,3)])
  then have "api_anchoring_proposal E (sw_api w) = Ok Proposal_NoInitialFunds"
    using assms(4,5) proposal_no_inputs [OF assms(2)]
    by (simp add: api_anchoring_proposal_def try_from_proposal_def node_chain_def)
  then show ?thesis
    unfolding kit_server.private_is_node_client [OF assms(1)]
    by (simp add: chain_updater_no_initial_funds_def chain_update_process_def node_proposal client_result_def
        io_simps)
qed

text \<open>
  The single node with a funding transaction of 200 satoshis: the fee of 10 satoshis a byte for a
  transaction of 153 bytes exceeds it.
\<close>

lemma insufficient_funds_passes:
  assumes "schema_inv (ref_env False) sample_core s" "actual_config_entry s = Some solo_config"
    and "following_config_entry s = None" "transactions_chain s = []" "unspent_funding_entry s = Some fund"
    and "find_out fund (out_script_of (ref_env False) solo_config) = Some (0, out)" "txout_value out = 200"
  shows "chain_updater_insufficient_funds (ref_env False) keypairs (node_client (ref_env False)) (sample_world s)"
proof -
  let ?b = "proposal_builder (ref_env False) s solo_config 0 (Hash 0)"
  have b: "builder_payload ?b = Some (0, Hash 0)" "builder_fee ?b = Some 10" "builder_recovery_tx ?b = None"
    by (simp_all add: proposal_builder_def solo_config_def sample_config_def)
  have src: "builder_sources ?b = [(0, fund)]"
    using assms(4-6) by (simp add: proposal_builder_sources funding_source_def)
  have out: "get_nth (tx_output fund) 0 = Some out"
    using assms(6) by (auto simp: find_out_def find_index_from_Some_iff get_nth_def)
  have size: "size_of_tx (ref_env False) (draft_tx (ref_env False) ?b
      \<lparr>block_height = 0, block_hash = Hash 0, prev_tx_chain = None\<rparr> bal) = 153" for bal
    by (rule solo_size) (simp_all add: src solo_output [OF assms(3)])
  have "create (ref_env False) ?b = Err (Builder_InsufficientFunds 1530 200)"
    by (simp add: create_eq [OF ref_crate_laws b(1,2) refl] src index_at_def out assms(7) add_u64_def b(3)
        size mul_u64_def)
  then have "actual_proposed_anchoring_transaction (ref_env False) sample_core s =
      Err (Builder_InsufficientFunds 1530 200)"
    using assms(3,4)
    by (simp add: actual_proposed_eq [OF ref_crate_laws sample_core_laws assms(1,2)] sample_core_def
        transition_stuck_def in_transition_def proposal_height_def)
  then show ?thesis
    by (simp add: chain_updater_insufficient_funds_def chain_update_process_def node_proposal
        api_anchoring_proposal_def try_from_proposal_def client_result_def io_simps)
qed

text \<open>A state with such a transaction, which the node confirms.\<close>

definition poor_fund :: transaction where
  "poor_fund = sample_fund\<lparr>tx_output :=
     [\<lparr>txout_value = 200, script_pubkey = out_script_of (ref_env False) solo_config\<rparr>]\<rparr>"

definition poor_state :: schema where
  "poor_state = sample_start\<lparr>unconfirmed_funding_transactions :=
       [tx_id (ref_env False) poor_fund \<mapsto> bmap_default], unspent_funding_entry := Some poor_fund\<rparr>"

lemma poor_state_passes:
  "add_funds (ref_env False) sample_ctx sample_start \<lparr>af_transaction = poor_fund\<rparr> = Ok poor_state"
  "chain_updater_insufficient_funds (ref_env False) keypairs (node_client (ref_env False))
     (sample_world poor_state)"
proof -
  have c: "actual_config_entry sample_start = Some solo_config" by (simp add: sample_start_def)
  have out: "find_out poor_fund (out_script_of (ref_env False) solo_config) = Some (0, tx_output poor_fund ! 0)"
    by (simp add: find_out_def poor_fund_def)
  show add: "add_funds (ref_env False) sample_ctx sample_start \<lparr>af_transaction = poor_fund\<rparr> = Ok poor_state"
    by (simp add: add_funds_eq [OF sample_start_inv c] sample_ctx_def sample_key Let_def out sample_quorum)
      (simp add: sample_start_def empty_schema_def unwrap_or_default_def bmap_default_def bmap_len_def
        poor_state_def)
  show "chain_updater_insufficient_funds (ref_env False) keypairs (node_client (ref_env False))
     (sample_world poor_state)"
    by (rule insufficient_funds_passes [OF add_funds_inv [OF sample_start_inv add] _ _ _ _ out])
      (simp_all add: poor_state_def poor_fund_def sample_start_def empty_schema_def)
qed

section \<open>FakePrivateApi\<close>

text \<open>
  A client for one of the nodes: it signs and broadcasts the transactions itself, without the checks
  of the API, and reads through the client of the test kit. \<open>object_hash\<close> is the hash of a signed
  transaction.
\<close>

definition fake_private_api ::
  "(broadcast_tx \<Rightarrow> hash) \<Rightarrow> ('n sync_world, api_error option) private_api \<Rightarrow>
     ('n sync_world, api_error option) private_api" where
  "fake_private_api object_hash client = client\<lparr>
     pa_sign_input := (\<lambda>msg w. (Inr (object_hash (Broadcast_Sign_Input msg)),
       w\<lparr>sw_broadcast := sw_broadcast w @ [Broadcast_Sign_Input msg]\<rparr>)),
     pa_add_funds := (\<lambda>tx w. (Inr (object_hash (Broadcast_Add_Funds \<lparr>af_transaction = tx\<rparr>)),
       w\<lparr>sw_broadcast := sw_broadcast w @ [Broadcast_Add_Funds \<lparr>af_transaction = tx\<rparr>]\<rparr>))\<rparr>"

text \<open>The tasks of the nodes, one after the other, and what they broadcast.\<close>

definition kit_world :: "test_kit \<Rightarrow> service_key \<Rightarrow> unit sync_world" where
  "kit_world kit a = \<lparr>sw_api = \<lparr>api_schema = kit_schema kit, api_core = kit_core kit, api_service_key = a,
     api_broadcaster = None\<rparr>, sw_broadcast = [], sw_net = ()\<rparr>"

fun update_nodes ::
  "env \<Rightarrow> (broadcast_tx \<Rightarrow> hash) \<Rightarrow> (unit sync_world, api_error option) private_api \<Rightarrow> test_kit \<Rightarrow>
     (btc_public_key \<times> btc_private_key) list \<Rightarrow> (service_event list, 'e) outcome" where
  "update_nodes E object_hash client kit [] = Ok []"
| "update_nodes E object_hash client kit (keypair # keypairs) =
     bind_oc (unwrap_or_panic Unwrap_None (find_anchoring_node kit (fst keypair))) (\<lambda>node.
     case chain_update_process E (chain_update_new [keypair] (fake_private_api object_hash client))
         (kit_world kit node) of
       (Ok _, w) \<Rightarrow> bind_oc (update_nodes E object_hash client kit keypairs) (\<lambda>events.
         Ok (map (broadcast_event node) (sw_broadcast w) @ events))
     | _ \<Rightarrow> Panic (Expect_None ''called unwrap on an Err value''))"

definition anchoring_transaction_payload :: "env \<Rightarrow> test_kit \<Rightarrow> nat \<Rightarrow> (payload option, 'e) outcome" where
  "anchoring_transaction_payload E kit index =
     (case get_nth (transactions_chain (kit_schema kit)) index of
        None \<Rightarrow> Ok None
      | Some tx \<Rightarrow> bind_oc (anchoring_payload E tx) (\<lambda>p. map_ok Some (unwrap_or_panic Unwrap_None p)))"

text \<open>\<open>create_block\<close> is \<open>TestKit::create_block\<close>, which executes the transactions in the pool.\<close>

definition chain_updater_round ::
  "env \<Rightarrow> (broadcast_tx \<Rightarrow> hash) \<Rightarrow> (unit sync_world, api_error option) private_api \<Rightarrow>
     (service_event list \<Rightarrow> test_kit \<Rightarrow> test_kit) \<Rightarrow> u64 \<Rightarrow> nat \<Rightarrow> test_kit \<Rightarrow> (test_kit, unit) outcome" where
  "chain_updater_round E object_hash client create_block interval i kit =
     bind_oc (kit_anchoring_keypairs kit) (\<lambda>keypairs.
     bind_oc (update_nodes E object_hash client kit keypairs) (\<lambda>events.
     let kit = create_block events kit in
     bind_oc (anchoring_transaction_payload E kit i) (\<lambda>p.
     bind_oc (unwrap_or_panic Unwrap_None p) (\<lambda>payload.
     if block_height payload = of_nat i * interval then Ok kit
     else Panic (Assertion_Failed ''left == right'')))))"

definition chain_updater_normal ::
  "env \<Rightarrow> (broadcast_tx \<Rightarrow> hash) \<Rightarrow> (unit sync_world, api_error option) private_api \<Rightarrow>
     (service_event list \<Rightarrow> test_kit \<Rightarrow> test_kit) \<Rightarrow> test_kit \<Rightarrow> bool" where
  "chain_updater_normal E object_hash client create_block kit =
     (case bind_oc (actual_anchoring_config kit) (\<lambda>config.
         bind_oc (chain_updater_round E object_hash client create_block (anchoring_interval config) 0 kit)
           (chain_updater_round E object_hash client create_block (anchoring_interval config) 1)) of
        Ok _ \<Rightarrow> True
      | _ \<Rightarrow> False)"

lemma send_messages_fake:
  "send_messages (fake_private_api object_hash client) msgs w =
     (Ok (), w\<lparr>sw_broadcast := sw_broadcast w @ map Broadcast_Sign_Input msgs\<rparr>)"
  by (induction msgs arbitrary: w) (simp_all add: io_simps fake_private_api_def)

text \<open>The test kit of the single node, whose blocks execute the transactions they get.\<close>

definition solo_kit :: "schema \<Rightarrow> test_kit" where
  "solo_kit s = \<lparr>kit_nodes = [Service_Key 0], kit_core = sample_core, kit_schema = s,
     kit_anchoring_nodes = fst (nodes_from_keys
       (\<lambda>_ r. ((Btc_Public_Key r, Btc_Private_Key r), Suc r)) Testnet [Service_Key 0] 0)\<rparr>"

definition executing_block :: "env \<Rightarrow> service_event list \<Rightarrow> test_kit \<Rightarrow> test_kit" where
  "executing_block E events kit = (case run_events E events (kit_core kit, kit_schema kit) of
     (core, s) \<Rightarrow> kit\<lparr>kit_core := core, kit_schema := s\<rparr>)"

lemma solo_kit_nodes:
  "kit_anchoring_keypairs (solo_kit s) = Ok [(Btc_Public_Key 0, Btc_Private_Key 0)]"
  "find_anchoring_node (solo_kit s) (Btc_Public_Key 0) = Some (Service_Key 0)"
proof -
  have nodes: "nodes_inner (kit_anchoring_nodes (solo_kit s)) = [(Service_Key 0, Btc_Public_Key 0)]"
    "nodes_key_pool (kit_anchoring_nodes (solo_kit s)) = [(Btc_Public_Key 0, Btc_Private_Key 0)]"
    by (simp_all add: solo_kit_def nodes_from_keys_def nodes_add_node_def anchoring_nodes_default_def
        bmap_default_def)
  show "kit_anchoring_keypairs (solo_kit s) = Ok [(Btc_Public_Key 0, Btc_Private_Key 0)]"
    by (simp add: kit_anchoring_keypairs_def nodes_anchoring_keypairs_def nodes nodes_private_key_def
        bmap_get_eq_map_of)
  show "find_anchoring_node (solo_kit s) (Btc_Public_Key 0) = Some (Service_Key 0)"
    by (simp add: find_anchoring_node_def nodes find_node_by_service_key_def) (simp add: solo_kit_def)
qed

lemma solo_round:
  assumes "schema_inv (ref_env False) sample_core s" "actual_config_entry s = Some solo_config"
    and "following_config_entry s = None" "tx = solo_tx s h v"
    and "actual_proposed_anchoring_transaction (ref_env False) sample_core s = Ok (Some (tx, [f]))"
    and "sign_input (ref_env False) sample_ctx s (solo_msg tx) = Ok s'"
    and "transactions_chain s' = transactions_chain s @ [solo_final tx]"
    and "h = of_nat (length (transactions_chain s)) * interval"
  shows "chain_updater_round (ref_env False) object_hash (node_client (ref_env False))
      (executing_block (ref_env False)) interval (length (transactions_chain s)) (solo_kit s) = Ok (solo_kit s')"
proof -
  let ?E = "ref_env False"
  have hl: "hash_laws ?E" by (rule ref_laws(2))
  let ?api = "fake_private_api object_hash (node_client ?E) :: (unit sync_world, _) private_api"
  let ?w = "kit_world (solo_kit s) (Service_Key 0)"
  obtain p where p: "tx_payload ?E tx = Some p"
    using proposal_is_proposal_tx(1) [OF ref_crate_laws sample_core_laws assms(1,2,5)]
    by (auto simp: proposal_tx_def elim: anchors_block_payload)
  have "chain_update_process ?E (chain_update_new [(Btc_Public_Key 0, Btc_Private_Key 0)] ?api) ?w =
      send_messages ?api [solo_msg tx] ?w"
    by (rule chain_update_sends [OF hl sample_valid sample_key p])
      (simp_all add: ref_sign_input_with_def solo_msg_def fake_private_api_def node_client_def kit_world_def
        solo_kit_def api_anchoring_proposal_def assms(2,5) try_from_proposal_def client_result_def
        api_config_def api_actual_config_def actual_config_def)
  then have "chain_update_process ?E (chain_update_new [(Btc_Public_Key 0, Btc_Private_Key 0)] ?api) ?w =
      (Ok (), ?w\<lparr>sw_broadcast := sw_broadcast ?w @ [Broadcast_Sign_Input (solo_msg tx)]\<rparr>)"
    by (simp only: send_messages_fake list.map)
  then have events: "update_nodes ?E object_hash (node_client ?E) (solo_kit s)
      [(Btc_Public_Key 0, Btc_Private_Key 0)] =
      (Ok [Ev_Sign_Input (Service_Key 0) (solo_msg tx)] :: (_, unit) outcome)"
    by (simp add: solo_kit_nodes(2)) (simp add: kit_world_def)
  have "sign_input ?E (node_context sample_core (Service_Key 0)) s (solo_msg tx) = Ok s'"
    using assms(6) by (simp add: sign_input_def sample_ctx_def node_context_def)
  then have block: "executing_block ?E [Ev_Sign_Input (Service_Key 0) (solo_msg tx)] (solo_kit s) = solo_kit s'"
    by (simp add: executing_block_def solo_kit_def)
  have "anchoring_transaction_payload ?E (solo_kit s') (length (transactions_chain s)) =
      (Ok (Some \<lparr>block_height = h, block_hash = Hash (ucast h), prev_tx_chain = None\<rparr>) :: (_, unit) outcome)"
    using solo_metadata [OF assms(3), of h v]
    by (simp add: anchoring_transaction_payload_def solo_kit_def assms(4,7) get_nth_def
        anchoring_payload_eq [OF hl] tx_metadata_def)
  then show ?thesis
    by (simp add: chain_updater_round_def solo_kit_nodes(1) events block assms(8) Let_def del: update_nodes.simps)
qed

lemma chain_updater_normal_passes:
  "chain_updater_normal (ref_env False) object_hash (node_client (ref_env False))
     (executing_block (ref_env False)) (solo_kit sample_funded)"
proof -
  have "anchoring_interval solo_config = 5" by (simp add: solo_config_def sample_config_def)
  moreover have "chain_updater_round (ref_env False) object_hash (node_client (ref_env False))
      (executing_block (ref_env False)) 5 0 (solo_kit sample_funded) = Ok (solo_kit sample_anchored)"
    using solo_round [OF sample_funded_inv sample_funded_simps(1,2) sample_proposal_def sample_proposed
        sample_sign, of 5 object_hash]
    by (simp add: sample_funded_simps sample_anchored_simps sample_final_tx_def)
  moreover have "chain_updater_round (ref_env False) object_hash (node_client (ref_env False))
      (executing_block (ref_env False)) 5 1 (solo_kit sample_anchored) = Ok (solo_kit second_anchored)"
    using solo_round [OF sample_anchored_inv sample_anchored_simps(1,2) second_proposal_def second_proposed
        second_sign, of 5 object_hash]
    by (simp add: sample_anchored_simps second_chain second_final_tx_def)
  ultimately show ?thesis
    by (simp add: chain_updater_normal_def actual_anchoring_config_def actual_config_def solo_kit_def
        sample_funded_simps)
qed

end
