(* ===== verification/Spec2Isabelle.thy ===== *)
theory Spec2Isabelle
  imports Anchoring_Ledger Address_Change Sync_Config Transaction_Tests Sync_Tests
begin

text \<open>
  A verification development of the Exonum Bitcoin anchoring service.

  \<^bold>\<open>The program.\<close> A private Exonum blockchain writes the hash of every n-th block into the Bitcoin
  blockchain. The service keeps a chain of Bitcoin transactions, each of which spends the output of
  its predecessor and carries the height and the hash of a block. The output belongs to a
  multi-signature address of the anchoring nodes. All nodes compute the same proposal for the next
  transaction from the state of the service; each one signs its inputs and sends the signatures as
  Exonum transactions (\<open>sign_input\<close>); when a quorum of signatures for every input is there, the signed
  transaction is appended to the chain. Funding transactions are confirmed by a quorum of nodes
  (\<open>add_funds\<close>). A change of the set of nodes moves the money to a new address by a transition
  transaction. Beside a node runs a utility that signs the proposals and sends the chain to the
  Bitcoin network through a Bitcoin Core client.

  \<^bold>\<open>Conventions.\<close> A Rust function is a HOL function; one that can fail returns an \<open>outcome\<close>: \<open>Ok\<close> a value,
  \<open>Err\<close> an error value, or \<open>Panic\<close> with its reason (\<open>unwrap\<close>, index, overflow in a debug build,
  assertion). Integers have the width they have in the code, and arithmetic takes the build mode.
  The state of the service is the record \<open>schema\<close>, passed and returned. Code of other crates is a
  field of the record \<open>env\<close> (argument \<open>E\<close>), or of the records \<open>map_codec\<close>, \<open>wire_env\<close>, \<open>utility_env\<close>,
  \<open>json_codec\<close> and \<open>rpc_client\<close>; what the code relies on is stated as named laws (\<open>crate_laws\<close>,
  \<open>wire_laws\<close>, \<open>wif_laws\<close>, \<open>utility_laws\<close>, the locales \<open>status_relay\<close>, \<open>bitcoin_node\<close>, \<open>http_node\<close>). \<open>Reference_Env\<close>
  has an environment that satisfies them, on which the witnesses are evaluated.

  \<^bold>\<open>The theories, and what they show.\<close>

  \<^item> \<open>Anchoring_Prelude\<close>: outcomes, machine arithmetic, slices, the contracts of round trips and of
    state machines with an invariant. \<open>Externals\<close>: the boundary to the crates and its laws.
    \<open>Consensus_Encoding\<close>: the byte encodings with which the boundary is instantiated, among them that of
    Bitcoin transactions, which are read back. \<open>Reference_Env\<close>: the environment of the witnesses.
  \<^item> \<open>Payload\<close> (\<open>src/btc/payload.rs\<close>): the payload of an anchoring transaction, byte by byte. What is
    read back is exactly what was written; no script makes the reader panic; the layout of the script.
  \<^item> \<open>Btc_Transaction\<close> (\<open>src/btc/transaction.rs\<close>): the transaction wrapper and the builder. The shape of
    a created transaction, conservation of value, which inputs give which error, and what the unchecked
    multiplication of the fee does in a release build.
  \<^item> \<open>Binary_Map\<close> (\<open>src/proto/binary_map.rs\<close>): ordered maps as an interface with its implementation,
    their message, and what decoding any byte string gives.
  \<^item> \<open>Anchoring_Config\<close> (\<open>src/config.rs\<close>, \<open>src/blockchain/mod.rs\<close>): the configuration, what its validation
    guarantees, and the anchoring schedule. \<open>Data_Layout\<close> (\<open>src/blockchain/data_layout/mod.rs\<close>): the
    keys of the maps as exact codecs.
  \<^item> \<open>Btc_Types\<close> (\<open>src/btc/mod.rs\<close>, \<open>src/btc/macros.rs\<close>, \<open>src/proto/mod.rs\<close>): bytes, hexadecimal strings and
    messages of the wrapped types and of the configuration; all are read back, except that the string
    of a private key does not tell \<open>Regtest\<close> from \<open>Testnet\<close> (\<open>wif_laws\<close>).
  \<^item> \<open>Schema\<close> (\<open>src/blockchain/schema.rs\<close>) and \<open>Service\<close> (\<open>src/blockchain/transactions.rs\<close>, \<open>errors.rs\<close>,
    \<open>src/service.rs\<close>): the state, the proposal, the handlers and the hooks.
  \<^item> \<open>Schema_Invariant\<close> and \<open>Service_Steps\<close>: the invariant of the state and the service as a state machine
    whose steps are the successful handlers, verified configurations and new blocks. \<open>Service_Samples\<close>:
    runs on concrete inputs. \<open>Service_Properties\<close>: what holds in every execution: the chain records the
    blockchain and is linked, only a quorum of verified signatures extends it, nothing is taken back,
    funding is spent once; which results the handlers have, and the one situation in which the first
    transaction can never be pushed.
  \<^item> \<open>Anchoring_Ledger\<close>: an abstract ledger of anchored blocks and the proof that the service refines it,
    so that invariants of the ledger hold of the service.
  \<^item> \<open>Api\<close> (\<open>src/api.rs\<close>): the handlers of the HTTP API. The checks before a broadcast agree with the
    service; the binary search over the chain is correct; the reported proposal state is complete.
    \<open>Api_Endpoints\<close>: the registration of the handlers and the HTTP client of the utility, which does
    what the handlers do.
  \<^item> \<open>Bitcoin_Relay\<close> (\<open>src/sync/bitcoin_relay.rs\<close>), \<open>Sync\<close> and \<open>Sync_Properties\<close> (\<open>src/sync/mod.rs\<close>): the
    signing task signs every input of the proposal so that the node accepts the messages; the
    search for the first transaction that the network does not know is correct; the chain is sent in
    order.
  \<^item> \<open>Service_Events\<close>: executions as sequences of events with arbitrary content, where a rejected event
    changes nothing. \<open>Vote_Count\<close>: the counting of votes among other events as a contract of its own.
    \<open>Anchoring_Round\<close>: a round across the signing tasks and the service; the transactions that a quorum
    of nodes makes for a proposal end its round, in whatever order and among whatever other events
    they are executed. \<open>Funding_Round\<close>: the same for the confirmations of a funding transaction.
    \<open>Address_Change\<close>: the same for a change of the address, which a transition transaction completes.
  \<^item> \<open>Test_Kit\<close> (\<open>src/test_helpers/mod.rs\<close>): the key pool of a test network, the transactions of its nodes
    and its API client. What the test kit signs completes a round, what it confirms funds the service,
    and its client does what the handlers do.
  \<^item> \<open>Sync_Utility\<close> and \<open>Sync_Config\<close> (\<open>examples/btc_anchoring_sync.rs\<close>): the loop of the utility, which
    stops for two reasons only and brings the whole chain to the network; its configuration file, in
    which keys are strings, and the commands that write it.
  \<^item> \<open>Anchoring_Network\<close>: the whole path of a block, from the utilities that sign the proposal through the
    API of their nodes, over the execution of their transactions and the chain, to the Bitcoin network
    and the payload extractor.
  \<^item> \<open>Unit_Tests\<close> and \<open>Transaction_Tests\<close>: the unit tests of the source files and the proof that the model
    passes them, on the scripts and transactions of the repository. \<open>Sync_Tests\<close>: the integration tests
    of the synchronisation (\<open>tests/sync.rs\<close>), whose scripted relay fixes the requests of the tasks one by
    one. A test of the code is thereby also a test of the model.

  \<^bold>\<open>How the components meet.\<close> \<open>Service_Steps\<close> turns the handlers into steps; the API reads the states
  that the steps reach; \<open>node_client\<close> makes the handlers of the API the implementation of the trait
  \<open>PrivateApi\<close> that the tasks call, and \<open>http_private_api\<close> the implementation over HTTP; both are shown to
  satisfy the contract \<open>chain_client\<close> of the synchronisation. The utility runs the tasks while the
  node takes steps of the service. What the API broadcasts for a task becomes an event of the service,
  so that \<open>Anchoring_Network\<close> can follow a proposal through all of them.

  \<^bold>\<open>Bounds.\<close> The recursions that are not structural are the binary search, which has a termination
  proof, and the digits of a decimal number in an error message. The loop of the utility has no end, so it is run for a given number of rounds; the
  theorems hold for every number, and the length of the chain is shown to be enough to send it. Block
  heights are assumed to be below \<open>2 ^ 63\<close> and the chain to have less than \<open>2 ^ 64\<close> transactions.

  \<^bold>\<open>Not modelled.\<close> Logging, the texts of messages, the derived \<open>Debug\<close> forms and those of the API
  traits, the derived serialisations other than that of the key pool, the conversions between a wrapper and the type it wraps, which
  are one type here (\<open>AsRef\<close>, \<open>Sha256d\<close> and \<open>Txid\<close>), the dispatch of a transaction by the number of its
  method, which the framework generates from the interface, the asynchronous runtime (a sequence of awaited calls is a sequence of functions on the world), the
  parsing of the command line, the other integration tests, the build script and the start of a node
  (\<open>examples/btc_anchoring.rs\<close>). Of the Merkle proofs of the database only the index they are made for is kept. A handler
  that fails is no step of the service, because the blockchain discards its changes.
\<close>

text \<open>
  C38. Whoever sees an anchoring transaction can check the block it anchors: the payload extractor,
  given the hexadecimal form of any transaction of the chain of a reachable state, returns a payload
  whose height and hash are those of a block of the blockchain.
\<close>

theorem extractor_shows_block:
  assumes "crate_laws E" and "wire_laws W" and "reachable E from_bytes core s"
    and "tx \<in> set (transactions_chain s)"
    and "tx_deserialize W (consensus_serialize E tx) = Inr tx"
  shows "\<exists>p. extract_payload E W (transaction_to_string E W tx) = Ok p \<and>
    core (block_height p) = Some (block_hash p)"
proof -
  have "schema_inv E core s" by (rule reachable_stateE [OF assms(1,3)])
  then have "anchors_block E core tx" using assms(4) by (simp add: schema_inv_def chain_ok_def)
  then obtain p where "tx_payload E tx = Some p" "core (block_height p) = Some (block_hash p)"
    by (rule anchors_block_payload)
  then show ?thesis
    using extract_payload_eq [OF _ assms(2,5)] assms(1) by (auto simp: crate_laws_def)
qed

theorem extractor_shows_block_witness:
  "\<exists>p. extract_payload (ref_env False) sample_wire
       (transaction_to_string (ref_env False) sample_wire sample_final_tx) = Ok p \<and>
     sample_core (block_height p) = Some (block_hash p)"
  by (rule extractor_shows_block [OF ref_crate_laws sample_wire_laws sample_run(3) _ sample_final_read_back])
    (simp add: sample_anchored_simps)

end
